(* ===== verification/KWS_Prelude.thy ===== *)
theory KWS_Prelude
  imports Main "HOL-Library.Multiset"
begin

text \<open>
  Shared vocabulary of the development: the error values and results of the Go code, programs
  over an explicit state, the scripted servers behind which Postgres, Redis and the disk stand,
  and the small calculus of preserved invariants that the component theories use.
\<close>

section \<open>Errors and results\<close>

text \<open>
  The errors the code tells apart: texts made by \<^verbatim>\<open>errors.New\<close>, the driver's
  \<^verbatim>\<open>*pgconn.PgError\<close> (its code and its \<^verbatim>\<open>Error()\<close> text), and the two
  sentinel values \<^verbatim>\<open>pgx.ErrNoRows\<close> and \<^verbatim>\<open>redis.Nil\<close>.
\<close>

datatype go_error =
    ErrText string
  | PgError string string
  | ErrNoRows
  | RedisNil

text \<open>The text a call of \<^verbatim>\<open>err.Error()\<close> returns.\<close>

fun error_text :: "go_error \<Rightarrow> string" where
  "error_text (ErrText s) = s"
| "error_text (PgError c s) = s"
| "error_text ErrNoRows = ''no rows in result set''"
| "error_text RedisNil = ''redis: nil''"

text \<open>\<^verbatim>\<open>pgError, ok := err.(*pgconn.PgError); ok && pgError.Code == c\<close>.\<close>

fun pg_code_is :: "string \<Rightarrow> go_error \<Rightarrow> bool" where
  "pg_code_is c (PgError c' s) \<longleftrightarrow> c' = c"
| "pg_code_is c _ \<longleftrightarrow> False"

text \<open>
  What a Go call comes back with: a value and a nil error, an error, or nothing at all, because
  the goroutine panicked or the process left through \<^verbatim>\<open>log.Fatal\<close>.
\<close>

datatype 'a res = Ok 'a | Er go_error | Crash string

type_synonym ('s, 'a) prog = "'s \<Rightarrow> 'a res \<times> 's"

section \<open>Programs over a state\<close>

definition ret :: "'a \<Rightarrow> ('s, 'a) prog" where
  "ret x s = (Ok x, s)"

definition fail :: "go_error \<Rightarrow> ('s, 'a) prog" where
  "fail e s = (Er e, s)"

definition crash :: "string \<Rightarrow> ('s, 'a) prog" where
  "crash m s = (Crash m, s)"

text \<open>
  \<open>tri m k\<close> is \<^verbatim>\<open>x, err := m(); if err != nil { return err }; k(x)\<close>;
  \<open>handle m h k\<close> is the same with the body \<open>h\<close> of the error branch given.
\<close>

definition handle ::
  "('s, 'a) prog \<Rightarrow> (go_error \<Rightarrow> ('s, 'b) prog) \<Rightarrow> ('a \<Rightarrow> ('s, 'b) prog) \<Rightarrow> ('s, 'b) prog" where
  "handle m h k s =
     (case m s of
        (Ok x, s1) \<Rightarrow> k x s1
      | (Er e, s1) \<Rightarrow> h e s1
      | (Crash c, s1) \<Rightarrow> (Crash c, s1))"

definition tri :: "('s, 'a) prog \<Rightarrow> ('a \<Rightarrow> ('s, 'b) prog) \<Rightarrow> ('s, 'b) prog" where
  "tri m k = handle m fail k"

text \<open>A program on a part of the state, run on the whole.\<close>

definition zoom :: "('w \<Rightarrow> 's) \<Rightarrow> ('s \<Rightarrow> 'w \<Rightarrow> 'w) \<Rightarrow> ('s, 'a) prog \<Rightarrow> ('w, 'a) prog" where
  "zoom g p m w = (case m (g w) of (r, s) \<Rightarrow> (r, p s w))"

named_theorems prog_defs \<open>the program combinators, unfolded\<close>

lemmas [prog_defs] = ret_def fail_def crash_def handle_def tri_def zoom_def

lemma tri_eq:
  "tri m k s =
     (case m s of (Ok x, s1) \<Rightarrow> k x s1 | (Er e, s1) \<Rightarrow> (Er e, s1) | (Crash c, s1) \<Rightarrow> (Crash c, s1))"
  by (simp add: prog_defs split: prod.split res.split)

lemma tri_Ok: "m s = (Ok x, s1) \<Longrightarrow> tri m k s = k x s1"
  by (simp add: prog_defs)

lemma tri_Er: "m s = (Er e, s1) \<Longrightarrow> tri m k s = (Er e, s1)"
  by (simp add: prog_defs)

lemma handle_Ok: "m s = (Ok x, s1) \<Longrightarrow> handle m h k s = k x s1"
  by (simp add: prog_defs)

lemma handle_Er: "m s = (Er e, s1) \<Longrightarrow> handle m h k s = h e s1"
  by (simp add: prog_defs)

lemma tri_OkE:
  assumes "tri m k s = (Ok y, s2)"
  obtains x s1 where "m s = (Ok x, s1)" and "k x s1 = (Ok y, s2)"
  using assms by (auto simp: prog_defs split: prod.splits res.splits)

section \<open>Preserved invariants\<close>

text \<open>\<open>keeps I m\<close>: whatever \<open>m\<close> returns, it leaves a state satisfying \<open>I\<close> in one that does.\<close>

definition keeps :: "('s \<Rightarrow> bool) \<Rightarrow> ('s, 'a) prog \<Rightarrow> bool" where
  "keeps I m \<longleftrightarrow> (\<forall>s. I s \<longrightarrow> I (snd (m s)))"

named_theorems keeps_intros \<open>rules that lift a preserved invariant through the combinators\<close>

lemma keepsI: "(\<And>s. I s \<Longrightarrow> I (snd (m s))) \<Longrightarrow> keeps I m"
  by (simp add: keeps_def)

lemma keepsD: "keeps I m \<Longrightarrow> I s \<Longrightarrow> I (snd (m s))"
  by (simp add: keeps_def)

lemma keeps_run: "keeps I m \<Longrightarrow> I s \<Longrightarrow> m s = (r, s') \<Longrightarrow> I s'"
  using keepsD by fastforce

lemma keeps_ret [keeps_intros]: "keeps I (ret x)"
  by (simp add: keeps_def ret_def)

lemma keeps_fail [keeps_intros]: "keeps I (fail e)"
  by (simp add: keeps_def fail_def)

lemma keeps_crash [keeps_intros]: "keeps I (crash c)"
  by (simp add: keeps_def crash_def)

lemma keeps_handle [keeps_intros]:
  assumes "keeps I m" and "\<And>e. keeps I (h e)" and "\<And>x. keeps I (k x)"
  shows "keeps I (handle m h k)"
proof (rule keepsI)
  fix s assume "I s"
  with assms(1) have "I (snd (m s))" by (rule keepsD)
  then show "I (snd (handle m h k s))"
    using assms(2,3) by (auto simp: handle_def keeps_def split: prod.splits res.splits)
qed

lemma keeps_tri [keeps_intros]:
  "keeps I m \<Longrightarrow> (\<And>x. keeps I (k x)) \<Longrightarrow> keeps I (tri m k)"
  unfolding tri_def by (intro keeps_intros)

lemma keeps_if [keeps_intros]:
  "(b \<Longrightarrow> keeps I m) \<Longrightarrow> (\<not> b \<Longrightarrow> keeps I n) \<Longrightarrow> keeps I (if b then m else n)"
  by simp

lemma keeps_sum_case [keeps_intros]:
  "(\<And>x. keeps I (f x)) \<Longrightarrow> (\<And>y. keeps I (g y)) \<Longrightarrow> keeps I (case z of Inl x \<Rightarrow> f x | Inr y \<Rightarrow> g y)"
  by (cases z) auto

lemma keeps_list_case [keeps_intros]:
  "keeps I m \<Longrightarrow> (\<And>x xs. keeps I (k x xs)) \<Longrightarrow> keeps I (case z of [] \<Rightarrow> m | x # xs \<Rightarrow> k x xs)"
  by (cases z) auto

lemma keeps_prod_case [keeps_intros]: "(\<And>a b. keeps I (k a b)) \<Longrightarrow> keeps I (case z of (a, b) \<Rightarrow> k a b)"
  by (cases z) auto

lemma keeps_option_rev [keeps_intros]:
  "(\<And>x. keeps I (k x)) \<Longrightarrow> keeps I m \<Longrightarrow> keeps I (case z of Some x \<Rightarrow> k x | None \<Rightarrow> m)"
  by (cases z) auto

lemma keeps_zoom:
  assumes "keeps J m" and "\<And>w. I w \<Longrightarrow> J (g w)" and "\<And>w s. I w \<Longrightarrow> J s \<Longrightarrow> I (p s w)"
  shows "keeps I (zoom g p m)"
proof (rule keepsI)
  fix w assume "I w"
  with assms(1,2) have "J (snd (m (g w)))" by (blast intro: keepsD)
  with assms(3) [OF \<open>I w\<close>] show "I (snd (zoom g p m w))"
    by (simp add: zoom_def case_prod_beta)
qed

text \<open>
  \<open>triple P m Q\<close>: from a state satisfying \<open>P\<close> the program comes back with a result and a state
  satisfying \<open>Q\<close>. The programs are total functions, so this includes that they come back.
\<close>

definition triple :: "('s \<Rightarrow> bool) \<Rightarrow> ('s, 'a) prog \<Rightarrow> ('a res \<Rightarrow> 's \<Rightarrow> bool) \<Rightarrow> bool" where
  "triple P m Q \<longleftrightarrow> (\<forall>s. P s \<longrightarrow> Q (fst (m s)) (snd (m s)))"

lemma tripleI: "(\<And>s r s'. P s \<Longrightarrow> m s = (r, s') \<Longrightarrow> Q r s') \<Longrightarrow> triple P m Q"
  by (simp add: triple_def)

lemma tripleD: "triple P m Q \<Longrightarrow> P s \<Longrightarrow> m s = (r, s') \<Longrightarrow> Q r s'"
  unfolding triple_def by fastforce

lemma triple_handle:
  assumes "triple P m R" and "\<And>x. triple (R (Ok x)) (k x) Q" and "\<And>e. triple (R (Er e)) (h e) Q"
    and "\<And>c s. R (Crash c) s \<Longrightarrow> Q (Crash c) s"
  shows "triple P (handle m h k) Q"
proof (rule tripleI)
  fix s r s' assume P: "P s" and r: "handle m h k s = (r, s')"
  obtain q s1 where m: "m s = (q, s1)" by (cases "m s")
  have R: "R q s1" using tripleD [OF assms(1) P m] .
  show "Q r s'"
    using R m r assms(4) tripleD [OF assms(2)] tripleD [OF assms(3)]
    by (cases q) (auto simp: handle_def)
qed

lemma triple_tri:
  assumes "triple P m R" and "\<And>x. triple (R (Ok x)) (k x) Q"
    and "\<And>e s. R (Er e) s \<Longrightarrow> Q (Er e) s" and "\<And>c s. R (Crash c) s \<Longrightarrow> Q (Crash c) s"
  shows "triple P (tri m k) Q"
  unfolding tri_def
  by (rule triple_handle [OF assms(1,2)]) (use assms(3,4) in \<open>auto simp: triple_def fail_def\<close>)

lemma triple_keeps: "keeps I m \<Longrightarrow> triple I m (\<lambda>_. I)"
  by (simp add: triple_def keeps_def)

lemma triple_weaken: "triple P m Q \<Longrightarrow> (\<And>s. P' s \<Longrightarrow> P s) \<Longrightarrow> (\<And>r s. Q r s \<Longrightarrow> Q' r s) \<Longrightarrow> triple P' m Q'"
  unfolding triple_def by blast

lemma triple_if: "(b \<Longrightarrow> triple P m Q) \<Longrightarrow> (\<not> b \<Longrightarrow> triple P n Q) \<Longrightarrow> triple P (if b then m else n) Q"
  by simp

text \<open>\<open>quiet m\<close>: the program neither panics nor leaves the process.\<close>

definition quiet :: "('s, 'a) prog \<Rightarrow> bool" where
  "quiet m \<longleftrightarrow> (\<forall>s c. fst (m s) \<noteq> Crash c)"

named_theorems quiet_intros \<open>rules for programs that never crash\<close>

lemma quietD: "quiet m \<Longrightarrow> m s \<noteq> (Crash c, s')"
  unfolding quiet_def by (metis fst_conv)

lemma quiet_result: "quiet m \<Longrightarrow> m s = (q, s') \<Longrightarrow> q \<noteq> Crash c"
  unfolding quiet_def by (metis fst_conv)

lemma quiet_ret [quiet_intros]: "quiet (ret x)"
  by (simp add: quiet_def ret_def)

lemma quiet_fail [quiet_intros]: "quiet (fail e)"
  by (simp add: quiet_def fail_def)

lemma quiet_handle [quiet_intros]:
  "quiet m \<Longrightarrow> (\<And>e. quiet (h e)) \<Longrightarrow> (\<And>x. quiet (k x)) \<Longrightarrow> quiet (handle m h k)"
  by (auto simp: quiet_def handle_def split: prod.splits res.splits) (metis fst_conv)+

lemma quiet_tri [quiet_intros]:
  "quiet m \<Longrightarrow> (\<And>x. quiet (k x)) \<Longrightarrow> quiet (tri m k)"
  unfolding tri_def by (intro quiet_intros)

lemma quiet_if [quiet_intros]:
  "(b \<Longrightarrow> quiet m) \<Longrightarrow> (\<not> b \<Longrightarrow> quiet n) \<Longrightarrow> quiet (if b then m else n)"
  by simp

lemma quiet_zoom [quiet_intros]: "quiet m \<Longrightarrow> quiet (zoom g p m)"
  by (auto simp: quiet_def zoom_def split: prod.splits) (metis fst_conv)

section \<open>Servers the program calls\<close>

text \<open>
  Postgres, Redis and the file system are outside the repository. A server is the contents the
  repository's own statements describe, together with a script of what it answers to the calls to
  come: it serves the call, refuses it, carries it out but the client hears only an error, or
  breaks off a row stream after some rows. (The sentinel \<^verbatim>\<open>ErrNoRows\<close> is made by the
  driver from an empty result, never by a failing call.) A call beyond the script is served. Theorems about the
  code hold for every script, so for every way and moment in which a call can fail.
\<close>

datatype srv_error = ConnErr string | SqlErr string string

fun srv_err :: "srv_error \<Rightarrow> go_error" where
  "srv_err (ConnErr s) = ErrText s"
| "srv_err (SqlErr c s) = PgError c s"

datatype answer = Served | Refused srv_error | Unheard srv_error | Broken nat srv_error

type_synonym 't server = "'t \<times> answer list"

fun serve :: "('t \<Rightarrow> 'a res \<times> 't) \<Rightarrow> ('t server, 'a) prog" where
  "serve f (t, []) = (case f t of (r, t') \<Rightarrow> (r, (t', [])))"
| "serve f (t, Served # as) = (case f t of (r, t') \<Rightarrow> (r, (t', as)))"
| "serve f (t, Refused e # as) = (Er (srv_err e), (t, as))"
| "serve f (t, Unheard e # as) = (Er (srv_err e), (snd (f t), as))"
| "serve f (t, Broken n e # as) = (Er (srv_err e), (t, as))"

text \<open>
  A query that returns rows: the rows the loop over \<^verbatim>\<open>rows.Next()\<close> sees, and what
  \<^verbatim>\<open>rows.Err()\<close> says after it.
\<close>

fun serve_rows :: "('t \<Rightarrow> 'r list) \<Rightarrow> ('t server, 'r list \<times> go_error option) prog" where
  "serve_rows f (t, []) = (Ok (f t, None), (t, []))"
| "serve_rows f (t, Served # as) = (Ok (f t, None), (t, as))"
| "serve_rows f (t, Refused e # as) = (Er (srv_err e), (t, as))"
| "serve_rows f (t, Unheard e # as) = (Er (srv_err e), (t, as))"
| "serve_rows f (t, Broken n e # as) = (Ok (take n (f t), Some (srv_err e)), (t, as))"

text \<open>\<open>holds I\<close>: the contents satisfy \<open>I\<close>, whatever the script.\<close>

definition holds :: "('t \<Rightarrow> bool) \<Rightarrow> 't server \<Rightarrow> bool" where
  "holds I s \<longleftrightarrow> I (fst s)"

lemma holds_pair [simp]: "holds I (t, as) \<longleftrightarrow> I t"
  by (simp add: holds_def)

lemma serve_state:
  "fst (snd (serve f s)) = fst s \<or> fst (snd (serve f s)) = snd (f (fst s))"
  by (cases "(f, s)" rule: serve.cases) (auto split: prod.splits)

lemma serve_OkD:
  "serve f (t, as) = (Ok x, s') \<Longrightarrow> f t = (Ok x, fst s')"
  by (cases "(f, (t, as))" rule: serve.cases) (auto split: prod.splits)

lemma serve_ErD:
  "serve f (t, as) = (Er e, (t', as')) \<Longrightarrow> t' = t \<or> t' = snd (f t)"
  by (cases "(f, (t, as))" rule: serve.cases) (auto split: prod.splits)

text \<open>
  A write that a served statement performs when it answers \<open>Ok\<close>, for any script: it has happened
  after \<open>Ok\<close>; after an error it may have.
\<close>

lemma serve_effect:
  assumes "serve f (t, as) = (r, (t', as'))"
  shows "(\<exists>x. r = Ok x \<and> f t = (Ok x, t')) \<or> (\<forall>x. r \<noteq> Ok x) \<and> (t' = t \<or> t' = snd (f t))"
proof (cases r)
  case (Ok x)
  with assms serve_OkD [of f t as x "(t', as')"] show ?thesis by simp
next
  case (Er e)
  with assms serve_ErD [of f t as e t' as'] show ?thesis by simp
next
  case (Crash c)
  with assms serve_state [of f "(t, as)"] show ?thesis by simp
qed

lemma srv_err_no_sentinel [simp]:
  "srv_err e \<noteq> ErrNoRows" "srv_err e \<noteq> RedisNil"
  "ErrNoRows \<noteq> srv_err e" "RedisNil \<noteq> srv_err e"
  by (cases e; simp)+

lemma serve_sentinelD:
  "serve f (t, as) = (Er ErrNoRows, (t', as')) \<Longrightarrow> f t = (Er ErrNoRows, t')"
  "serve f (t, as) = (Er RedisNil, (t', as')) \<Longrightarrow> f t = (Er RedisNil, t')"
  by (cases "(f, (t, as))" rule: serve.cases; auto split: prod.splits)+

lemma keeps_serve:
  assumes "\<And>t. I t \<Longrightarrow> I (snd (f t))"
  shows "keeps (holds I) (serve f)"
proof (rule keepsI)
  fix s assume "holds I s"
  with assms serve_state [of f s] show "holds I (snd (serve f s))"
    by (auto simp: holds_def)
qed

text \<open>What leaves a part of the contents alone keeps what speaks of that part only.\<close>

lemma keeps_part:
  assumes "\<And>x. keeps (holds (\<lambda>t. f t = x)) m" and "\<And>t t'. f t = f t' \<Longrightarrow> I t \<Longrightarrow> I t'"
  shows "keeps (holds I) m"
proof (rule keepsI)
  fix s assume I: "holds I s"
  have "f (fst (snd (m s))) = f (fst s)"
    using keepsD [OF assms(1), of "f (fst s)" s] by (simp add: holds_def)
  then have "I (fst (snd (m s)))"
    by (rule assms(2) [OF sym]) (use I in \<open>simp add: holds_def\<close>)
  then show "holds I (snd (m s))" by (simp add: holds_def)
qed

lemma serve_rows_state: "fst (snd (serve_rows f s)) = fst s"
  by (cases "(f, s)" rule: serve_rows.cases) auto

lemma keeps_serve_rows [keeps_intros]: "keeps (holds I) (serve_rows f)"
  by (rule keepsI) (simp add: holds_def serve_rows_state)

lemma quiet_serve:
  assumes "\<And>t c. fst (f t) \<noteq> Crash c"
  shows "quiet (serve f)"
proof -
  have no: "f t \<noteq> (Crash c, t')" for t c t'
    using assms [of t c] by auto
  have "fst (serve f s) \<noteq> Crash c" for s c
    by (cases "(f, s)" rule: serve.cases) (auto simp: no split: prod.splits)
  then show ?thesis by (simp add: quiet_def)
qed

lemma quiet_serve_rows [quiet_intros]: "quiet (serve_rows f)"
proof -
  have "fst (serve_rows f s) \<noteq> Crash c" for s c
    by (cases "(f, s)" rule: serve_rows.cases) auto
  then show ?thesis by (simp add: quiet_def)
qed

section \<open>Generic facts on lists\<close>

lemma distinct_map_filter: "distinct (map f xs) \<Longrightarrow> distinct (map f (filter P xs))"
  by (simp add: distinct_map inj_on_def)

lemma distinct_map_snoc:
  "distinct (map f (xs @ [x])) \<longleftrightarrow> distinct (map f xs) \<and> f x \<notin> f ` set xs"
  by auto

lemma unique_filter_length:
  assumes "distinct (map f xs)"
  shows "length (filter (\<lambda>x. f x = k) xs) = (if k \<in> f ` set xs then 1 else 0)"
  using assms by (induction xs) auto

lemma fold_max_ge: "x \<in> set (y # ys) \<Longrightarrow> x \<le> fold max ys (y::int)"
proof (induction ys arbitrary: x y)
  case Nil
  then show ?case by simp
next
  case (Cons z zs)
  have "max z y \<le> fold max zs (max z y)"
    by (rule Cons.IH) simp
  moreover have "x \<le> fold max zs (max z y)" if "x \<in> set zs"
    using that by (intro Cons.IH) simp
  ultimately show ?case using Cons.prems by auto
qed

lemma fold_max_in: "fold max ys (y::int) \<in> set (y # ys)"
proof (induction ys arbitrary: y)
  case Nil
  then show ?case by simp
next
  case (Cons z zs)
  then show ?case using Cons.IH [of "max z y"] by (auto simp: max_def split: if_splits)
qed

end
