(* ===== verification/Consts.thy ===== *)
theory Consts
  imports KWS_Prelude
begin

text \<open>
  The constants of \<^verbatim>\<open>consts/config\<close> and \<^verbatim>\<open>consts/status\<close> the modelled code
  uses. They are abbreviations, so that two different texts are told apart by evaluation.
\<close>

abbreviation MAIN_INSTANCE_QUEUE :: string where "MAIN_INSTANCE_QUEUE \<equiv> ''instance_queue''"
abbreviation INSTANCE_RETRY_QUEUE :: string where "INSTANCE_RETRY_QUEUE \<equiv> ''instance_retry_queue''"
abbreviation MAIN_TUNNEL_QUEUE :: string where "MAIN_TUNNEL_QUEUE \<equiv> ''tunnel_queue''"
abbreviation TUNNEL_RETRY_QUEUE :: string where "TUNNEL_RETRY_QUEUE \<equiv> ''tunnel_retry_queue''"

abbreviation DEPLOY :: string where "DEPLOY \<equiv> ''deploy''"
abbreviation STOP :: string where "STOP \<equiv> ''stop''"
abbreviation KILL :: string where "KILL \<equiv> ''kill''"

abbreviation INTERFACE_NAME :: string where "INTERFACE_NAME \<equiv> ''wg0''"
abbreviation INTERFACE_ADDRESS :: string where "INTERFACE_ADDRESS \<equiv> ''10.0.0.1/24''"
abbreviation CIDR :: int where "CIDR \<equiv> (24::int)"

abbreviation STACK_KEY :: string where "STACK_KEY \<equiv> ''ip_stack''"
abbreviation LXC_IP :: string where "LXC_IP \<equiv> ''lxc_ip''"

abbreviation MAX_WG_DEVICES_PER_USER :: int where "MAX_WG_DEVICES_PER_USER \<equiv> (3::int)"
abbreviation MAX_SERVICE_DB_USERS :: int where "MAX_SERVICE_DB_USERS \<equiv> (5::int)"
abbreviation MAX_SERVICE_DB_DB :: int where "MAX_SERVICE_DB_DB \<equiv> (10::int)"
abbreviation USER_DOMAIN_LIMIT :: int where "USER_DOMAIN_LIMIT \<equiv> (3::int)"

abbreviation NGINX_CONTAINER :: string where "NGINX_CONTAINER \<equiv> ''nginx_proxy''"
abbreviation LXC_UBUNTU_ALIAS :: string where "LXC_UBUNTU_ALIAS \<equiv> ''ubuntu-22:04''"
abbreviation LXD_BRIDGE :: string where "LXD_BRIDGE \<equiv> ''lxdbr0''"
abbreviation INSTANCE_START :: string where "INSTANCE_START \<equiv> ''start''"
abbreviation INSTANCE_STOP :: string where "INSTANCE_STOP \<equiv> ''stop''"
abbreviation STORAGE_POOL :: string where "STORAGE_POOL \<equiv> ''kws''"
abbreviation DNS_IP :: string where "DNS_IP \<equiv> ''172.30.0.102''"

abbreviation INSTANCE_TEMPLATE :: string where "INSTANCE_TEMPLATE \<equiv> ''instance_template''"
abbreviation DOMAIN_TEMPLATE :: string where "DOMAIN_TEMPLATE \<equiv> ''domain_template''"
abbreviation NO_DOMAIN_FOR_TUNNEL :: string where "NO_DOMAIN_FOR_TUNNEL \<equiv> ''no_domain_for_tunnel''"
abbreviation X_RETRY_COUNTER :: string where "X_RETRY_COUNTER \<equiv> ''x-retry-counter''"

abbreviation USER_NAME_INVALID :: string where "USER_NAME_INVALID \<equiv> ''user_name_invalid''"
abbreviation USER_NOT_VERIFIED :: string where "USER_NOT_VERIFIED \<equiv> ''user_not_verified''"
abbreviation WRONG_CREDENTIALS :: string where "WRONG_CREDENTIALS \<equiv> ''wrong_credentials''"

abbreviation CONTAINER_ALREADY_RUNNING :: string where "CONTAINER_ALREADY_RUNNING \<equiv> ''container_already_running''"
abbreviation CONTAINER_ALREADY_EXISTS :: string where "CONTAINER_ALREADY_EXISTS \<equiv> ''container_already_exists''"
abbreviation CONTAINER_NOT_FOUND_TO_STOP :: string where "CONTAINER_NOT_FOUND_TO_STOP \<equiv> ''container_not_found_to_stop''"
abbreviation CONTAINER_NOT_FOUND_TO_DELETE :: string where "CONTAINER_NOT_FOUND_TO_DELETE \<equiv> ''container_not_found_to_delete''"
abbreviation CONTAINER_START_FAILED :: string where "CONTAINER_START_FAILED \<equiv> ''container_start_failed''"
abbreviation CONTAINER_STOP_FAILED :: string where "CONTAINER_STOP_FAILED \<equiv> ''container_stop_failed''"
abbreviation CONTAINER_DELETE_FAILED :: string where "CONTAINER_DELETE_FAILED \<equiv> ''container_delete_failed''"

abbreviation INTERFACE_ALREADY_EXISTS :: string where "INTERFACE_ALREADY_EXISTS \<equiv> ''interface_already_exists''"
abbreviation PEER_DOES_NOT_EXIST :: string where "PEER_DOES_NOT_EXIST \<equiv> ''peer_does_not_exist''"
abbreviation INVALID_CIDR :: string where "INVALID_CIDR \<equiv> ''invalid_cidr''"
abbreviation HOST_EXHAUSTION :: string where "HOST_EXHAUSTION \<equiv> ''host_exhaustion''"
abbreviation EMPTY_IP_STACK :: string where "EMPTY_IP_STACK \<equiv> ''empty_ip_stack''"
abbreviation WG_DEVICE_LIMIT :: string where "WG_DEVICE_LIMIT \<equiv> ''wg_device_limit''"

abbreviation PG_MAX_USER_LIMIT :: string where "PG_MAX_USER_LIMIT \<equiv> ''pg_max_user_limit''"
abbreviation PG_MAX_DB_LIMIT :: string where "PG_MAX_DB_LIMIT \<equiv> ''pg_max_db_limit''"
abbreviation PG_USER_ALREDAY_EXISTS :: string where "PG_USER_ALREDAY_EXISTS \<equiv> ''pg_user_already_exists''"
abbreviation PG_DB_ALREDAY_EXISTS :: string where "PG_DB_ALREDAY_EXISTS \<equiv> ''pg_db_already_exists''"
abbreviation PG_USER_NOT_FOUND :: string where "PG_USER_NOT_FOUND \<equiv> ''pg_user_not_found''"
abbreviation PG_DB_NOT_FOUND :: string where "PG_DB_NOT_FOUND \<equiv> ''pg_db_not_found''"

abbreviation DOMAIN_ALREADY_EXISTS :: string where "DOMAIN_ALREADY_EXISTS \<equiv> ''domain_already_exists''"
abbreviation DOMAIN_LIMIT_EXCEEDED :: string where "DOMAIN_LIMIT_EXCEEDED \<equiv> ''domain_limit_exceeded''"

end
