(* ===== verification/Sql_Db.thy ===== *)
theory Sql_Db
  imports Consts
begin

text \<open>
  The database as \<^verbatim>\<open>internal/database/migrations\<close> lays it out, and the SQL statements
  the stores send to it: one record per table row, one list of rows per table, and one function
  per statement that changes a table, with the constraints the migrations put on it (UNIQUE,
  CHECK, REFERENCES, ON DELETE CASCADE). Column widths, character encodings and everything else
  on which a server may refuse a statement are answers of the script (\<open>KWS_Prelude.answer\<close>).
  Columns no statement of the repository reads back (serial ids of most tables, time stamps) are
  left out; the two serial ids the code does read are drawn from counters. The lemmas show that
  the constraints hold in every table after every statement.
\<close>

section \<open>Tables\<close>

record user_row =
  u_id :: int
  u_first :: string
  u_last :: string
  u_email :: string
  u_hash :: string
  u_name :: string
  u_verified :: bool

record instance_row =
  i_user :: int
  i_login :: string
  i_pass :: string
  i_volume :: string
  i_container :: string
  i_type :: string
  i_running :: bool

record wg_row =
  wg_user :: int
  wg_key :: string
  wg_ip :: int

record ip_row =
  ip_user :: int
  ip_addr :: int

record domain_row =
  d_user :: int
  d_name :: string
  d_port :: int
  d_code :: bool

record pgu_row =
  p_id :: int
  p_user :: int
  p_name :: string
  p_pass :: string

record pgd_row =
  pd_pid :: int
  pd_name :: string

record tunnel_row =
  t_name :: string
  t_user :: int
  t_domain :: string
  t_custom :: bool

record tables =
  users :: "user_row list"
  instances :: "instance_row list"
  wgpeers :: "wg_row list"
  userips :: "ip_row list"
  domains :: "domain_row list"
  pg_users :: "pgu_row list"
  pg_dbs :: "pgd_row list"
  tunnels :: "tunnel_row list"
  next_user_id :: int
  next_pg_id :: int

type_synonym db = "tables server"

definition empty_tables :: tables where
  "empty_tables =
     \<lparr>users = [], instances = [], wgpeers = [], userips = [], domains = [], pg_users = [],
      pg_dbs = [], tunnels = [], next_user_id = 1, next_pg_id = 1\<rparr>"

section \<open>Constraint violations\<close>

text \<open>The driver's \<^verbatim>\<open>Error()\<close>: severity, message and SQLSTATE.\<close>

definition pg_error :: "string \<Rightarrow> string \<Rightarrow> go_error" where
  "pg_error code msg = PgError code (''ERROR: '' @ msg @ '' (SQLSTATE '' @ code @ '')'')"

definition unique_violation :: go_error where
  "unique_violation = pg_error ''23505'' ''duplicate key value violates unique constraint''"

definition fk_violation :: go_error where
  "fk_violation = pg_error ''23503'' ''insert or update violates foreign key constraint''"

definition not_null_violation :: go_error where
  "not_null_violation = pg_error ''23502'' ''null value violates not-null constraint''"

definition check_violation :: go_error where
  "check_violation = pg_error ''23514'' ''new row violates check constraint''"

lemmas violation_defs =
  pg_error_def unique_violation_def fk_violation_def not_null_violation_def check_violation_def

definition known_user :: "tables \<Rightarrow> int \<Rightarrow> bool" where
  "known_user t uid \<longleftrightarrow> list_ex (\<lambda>u. u_id u = uid) (users t)"

lemma known_user_iff: "known_user t uid \<longleftrightarrow> uid \<in> u_id ` set (users t)"
  by (auto simp: known_user_def list_ex_iff)

section \<open>Statements that insert\<close>

definition sql_insert_user ::
  "string \<Rightarrow> string \<Rightarrow> string \<Rightarrow> string option \<Rightarrow> string \<Rightarrow> tables \<Rightarrow> unit res \<times> tables" where
  "sql_insert_user fname lname email hash name t =
     (case hash of
        None \<Rightarrow> (Er not_null_violation, t\<lparr>next_user_id := next_user_id t + 1\<rparr>)
      | Some h \<Rightarrow>
          if list_ex (\<lambda>u. u_email u = email \<or> u_name u = name) (users t)
          then (Er unique_violation, t\<lparr>next_user_id := next_user_id t + 1\<rparr>)
          else (Ok (), t\<lparr>users := users t @ [\<lparr>u_id = next_user_id t, u_first = fname, u_last = lname,
                   u_email = email, u_hash = h, u_name = name, u_verified = False\<rparr>],
                 next_user_id := next_user_id t + 1\<rparr>))"

definition sql_insert_instance :: "instance_row \<Rightarrow> tables \<Rightarrow> unit res \<times> tables" where
  "sql_insert_instance r t =
     (if i_type r \<noteq> ''core'' then (Er check_violation, t)
      else if list_ex (\<lambda>q. i_user q = i_user r \<or> i_volume q = i_volume r \<or>
                i_container q = i_container r) (instances t)
        then (Er unique_violation, t)
      else if \<not> known_user t (i_user r) then (Er fk_violation, t)
      else (Ok (), t\<lparr>instances := instances t @ [r]\<rparr>))"

definition sql_insert_wgpeer :: "int \<Rightarrow> string \<Rightarrow> int \<Rightarrow> tables \<Rightarrow> unit res \<times> tables" where
  "sql_insert_wgpeer uid key ip t =
     (if list_ex (\<lambda>q. wg_key q = key \<or> wg_ip q = ip) (wgpeers t) then (Er unique_violation, t)
      else if \<not> known_user t uid then (Er fk_violation, t)
      else (Ok (), t\<lparr>wgpeers := wgpeers t @ [\<lparr>wg_user = uid, wg_key = key, wg_ip = ip\<rparr>]\<rparr>))"

definition sql_insert_userip :: "int \<Rightarrow> int \<Rightarrow> tables \<Rightarrow> unit res \<times> tables" where
  "sql_insert_userip uid ip t =
     (if list_ex (\<lambda>q. ip_user q = uid) (userips t) then (Er unique_violation, t)
      else if \<not> known_user t uid then (Er fk_violation, t)
      else (Ok (), t\<lparr>userips := userips t @ [\<lparr>ip_user = uid, ip_addr = ip\<rparr>]\<rparr>))"

definition sql_insert_domain :: "int \<Rightarrow> string \<Rightarrow> int \<Rightarrow> bool \<Rightarrow> tables \<Rightarrow> unit res \<times> tables" where
  "sql_insert_domain uid name port code t =
     (if list_ex (\<lambda>q. d_name q = name) (domains t) then (Er unique_violation, t)
      else if \<not> known_user t uid then (Er fk_violation, t)
      else (Ok (), t\<lparr>domains := domains t @
              [\<lparr>d_user = uid, d_name = name, d_port = port, d_code = code\<rparr>]\<rparr>))"

definition sql_insert_pg_user :: "int \<Rightarrow> string \<Rightarrow> string \<Rightarrow> tables \<Rightarrow> int res \<times> tables" where
  "sql_insert_pg_user uid name pass t =
     (let t' = t\<lparr>next_pg_id := next_pg_id t + 1\<rparr>
      in if list_ex (\<lambda>q. p_name q = name) (pg_users t) then (Er unique_violation, t')
         else if \<not> known_user t uid then (Er fk_violation, t')
         else (Ok (next_pg_id t), t'\<lparr>pg_users := pg_users t @
                 [\<lparr>p_id = next_pg_id t, p_user = uid, p_name = name, p_pass = pass\<rparr>]\<rparr>))"

definition sql_insert_pg_db :: "int \<Rightarrow> string \<Rightarrow> tables \<Rightarrow> unit res \<times> tables" where
  "sql_insert_pg_db pid name t =
     (if list_ex (\<lambda>q. pd_pid q = pid \<and> pd_name q = name) (pg_dbs t) then (Er unique_violation, t)
      else if \<not> list_ex (\<lambda>u. p_id u = pid) (pg_users t) then (Er fk_violation, t)
      else (Ok (), t\<lparr>pg_dbs := pg_dbs t @ [\<lparr>pd_pid = pid, pd_name = name\<rparr>]\<rparr>))"

definition sql_insert_tunnel :: "int \<Rightarrow> string \<Rightarrow> bool \<Rightarrow> string \<Rightarrow> tables \<Rightarrow> unit res \<times> tables" where
  "sql_insert_tunnel uid domain custom name t =
     (if list_ex (\<lambda>q. t_domain q = domain) (tunnels t) then (Er unique_violation, t)
      else if \<not> known_user t uid then (Er fk_violation, t)
      else (Ok (), t\<lparr>tunnels := tunnels t @
              [\<lparr>t_name = name, t_user = uid, t_domain = domain, t_custom = custom\<rparr>]\<rparr>))"

section \<open>Statements that update or delete\<close>

text \<open>They return the number of rows they touched (\<^verbatim>\<open>RowsAffected\<close>).\<close>

definition rows_matching :: "('r \<Rightarrow> bool) \<Rightarrow> 'r list \<Rightarrow> int" where
  "rows_matching P rs = int (length (filter P rs))"

definition sql_verify_user :: "string \<Rightarrow> tables \<Rightarrow> int res \<times> tables" where
  "sql_verify_user email t =
     (Ok (rows_matching (\<lambda>u. u_email u = email) (users t)),
      t\<lparr>users := map (\<lambda>u. if u_email u = email then u\<lparr>u_verified := True\<rparr> else u) (users t)\<rparr>)"

definition sql_set_running :: "int \<Rightarrow> bool \<Rightarrow> tables \<Rightarrow> int res \<times> tables" where
  "sql_set_running uid b t =
     (Ok (rows_matching (\<lambda>r. i_user r = uid) (instances t)),
      t\<lparr>instances := map (\<lambda>r. if i_user r = uid then r\<lparr>i_running := b\<rparr> else r) (instances t)\<rparr>)"

definition sql_delete_instance :: "int \<Rightarrow> tables \<Rightarrow> int res \<times> tables" where
  "sql_delete_instance uid t =
     (Ok (rows_matching (\<lambda>r. i_user r = uid) (instances t)),
      t\<lparr>instances := filter (\<lambda>r. i_user r \<noteq> uid) (instances t)\<rparr>)"

text \<open>\<^verbatim>\<open>DELETE ... RETURNING ip_address\<close>, read with \<^verbatim>\<open>QueryRow\<close>.\<close>

definition sql_delete_wgpeer :: "string \<Rightarrow> int \<Rightarrow> tables \<Rightarrow> int res \<times> tables" where
  "sql_delete_wgpeer key uid t =
     (let hit = (\<lambda>r. wg_key r = key \<and> wg_user r = uid)
      in case filter hit (wgpeers t) of
           [] \<Rightarrow> (Er ErrNoRows, t)
         | r # _ \<Rightarrow> (Ok (wg_ip r), t\<lparr>wgpeers := filter (\<lambda>r. \<not> hit r) (wgpeers t)\<rparr>))"

definition sql_delete_userip :: "int \<Rightarrow> tables \<Rightarrow> int res \<times> tables" where
  "sql_delete_userip uid t =
     (case filter (\<lambda>r. ip_user r = uid) (userips t) of
        [] \<Rightarrow> (Er ErrNoRows, t)
      | r # _ \<Rightarrow> (Ok (ip_addr r), t\<lparr>userips := filter (\<lambda>r. ip_user r \<noteq> uid) (userips t)\<rparr>))"

definition sql_delete_domain :: "int \<Rightarrow> string \<Rightarrow> tables \<Rightarrow> int res \<times> tables" where
  "sql_delete_domain uid name t =
     (Ok (rows_matching (\<lambda>r. d_name r = name \<and> d_user r = uid) (domains t)),
      t\<lparr>domains := filter (\<lambda>r. \<not> (d_name r = name \<and> d_user r = uid)) (domains t)\<rparr>)"

definition sql_delete_user_domains :: "int \<Rightarrow> tables \<Rightarrow> int res \<times> tables" where
  "sql_delete_user_domains uid t =
     (Ok (rows_matching (\<lambda>r. d_user r = uid) (domains t)),
      t\<lparr>domains := filter (\<lambda>r. d_user r \<noteq> uid) (domains t)\<rparr>)"

definition sql_delete_pg_db :: "int \<Rightarrow> string \<Rightarrow> tables \<Rightarrow> int res \<times> tables" where
  "sql_delete_pg_db pid name t =
     (Ok (rows_matching (\<lambda>r. pd_pid r = pid \<and> pd_name r = name) (pg_dbs t)),
      t\<lparr>pg_dbs := filter (\<lambda>r. \<not> (pd_pid r = pid \<and> pd_name r = name)) (pg_dbs t)\<rparr>)"

text \<open>
  \<^verbatim>\<open>pg_service_db.pid REFERENCES pg_service_user(id) ON DELETE CASCADE\<close>: the databases
  of a removed user go with it.
\<close>

definition sql_delete_pg_user :: "int \<Rightarrow> string \<Rightarrow> string \<Rightarrow> tables \<Rightarrow> int res \<times> tables" where
  "sql_delete_pg_user uid name pass t =
     (let hit = (\<lambda>u. p_name u = name \<and> p_pass u = pass \<and> p_user u = uid);
          gone = map p_id (filter hit (pg_users t))
      in (Ok (rows_matching hit (pg_users t)),
          t\<lparr>pg_users := filter (\<lambda>u. \<not> hit u) (pg_users t),
            pg_dbs := filter (\<lambda>d. pd_pid d \<notin> set gone) (pg_dbs t)\<rparr>))"

definition sql_delete_tunnel :: "string \<Rightarrow> int \<Rightarrow> tables \<Rightarrow> int res \<times> tables" where
  "sql_delete_tunnel name uid t =
     (Ok (rows_matching (\<lambda>r. t_name r = name \<and> t_user r = uid) (tunnels t)),
      t\<lparr>tunnels := filter (\<lambda>r. \<not> (t_name r = name \<and> t_user r = uid)) (tunnels t)\<rparr>)"

lemmas sql_defs =
  sql_insert_user_def sql_insert_instance_def sql_insert_wgpeer_def sql_insert_userip_def
  sql_insert_domain_def sql_insert_pg_user_def sql_insert_pg_db_def sql_insert_tunnel_def
  sql_verify_user_def sql_set_running_def sql_delete_instance_def sql_delete_wgpeer_def
  sql_delete_userip_def sql_delete_domain_def sql_delete_user_domains_def sql_delete_pg_db_def
  sql_delete_pg_user_def sql_delete_tunnel_def

text \<open>A query that reads one row (\<^verbatim>\<open>QueryRow(...).Scan(...)\<close>) or a count.\<close>

definition sql_read :: "(tables \<Rightarrow> 'a res) \<Rightarrow> tables \<Rightarrow> 'a res \<times> tables" where
  "sql_read f t = (f t, t)"

definition first_row :: "('r \<Rightarrow> bool) \<Rightarrow> ('r \<Rightarrow> 'a) \<Rightarrow> 'r list \<Rightarrow> 'a res" where
  "first_row P f rs = (case filter P rs of [] \<Rightarrow> Er ErrNoRows | r # _ \<Rightarrow> Ok (f r))"

section \<open>The constraints as an invariant\<close>

definition users_ok :: "tables \<Rightarrow> bool" where
  "users_ok t \<longleftrightarrow> distinct (map u_id (users t)) \<and> distinct (map u_email (users t)) \<and>
     distinct (map u_name (users t)) \<and> (\<forall>u \<in> set (users t). u_id u < next_user_id t)"

definition instances_ok :: "tables \<Rightarrow> bool" where
  "instances_ok t \<longleftrightarrow> distinct (map i_user (instances t)) \<and> distinct (map i_volume (instances t)) \<and>
     distinct (map i_container (instances t)) \<and>
     (\<forall>r \<in> set (instances t). i_type r = ''core'' \<and> known_user t (i_user r))"

definition wgpeers_ok :: "tables \<Rightarrow> bool" where
  "wgpeers_ok t \<longleftrightarrow> distinct (map wg_key (wgpeers t)) \<and> distinct (map wg_ip (wgpeers t)) \<and>
     (\<forall>r \<in> set (wgpeers t). known_user t (wg_user r))"

definition userips_ok :: "tables \<Rightarrow> bool" where
  "userips_ok t \<longleftrightarrow> distinct (map ip_user (userips t)) \<and> (\<forall>r \<in> set (userips t). known_user t (ip_user r))"

definition domains_ok :: "tables \<Rightarrow> bool" where
  "domains_ok t \<longleftrightarrow> distinct (map d_name (domains t)) \<and> (\<forall>r \<in> set (domains t). known_user t (d_user r))"

definition pg_users_ok :: "tables \<Rightarrow> bool" where
  "pg_users_ok t \<longleftrightarrow> distinct (map p_id (pg_users t)) \<and> distinct (map p_name (pg_users t)) \<and>
     (\<forall>u \<in> set (pg_users t). p_id u < next_pg_id t \<and> known_user t (p_user u))"

definition pg_dbs_ok :: "tables \<Rightarrow> bool" where
  "pg_dbs_ok t \<longleftrightarrow> distinct (map (\<lambda>d. (pd_pid d, pd_name d)) (pg_dbs t)) \<and>
     (\<forall>d \<in> set (pg_dbs t). pd_pid d \<in> p_id ` set (pg_users t))"

definition tunnels_ok :: "tables \<Rightarrow> bool" where
  "tunnels_ok t \<longleftrightarrow> distinct (map t_domain (tunnels t)) \<and> (\<forall>r \<in> set (tunnels t). known_user t (t_user r))"

definition schema_ok :: "tables \<Rightarrow> bool" where
  "schema_ok t \<longleftrightarrow> users_ok t \<and> instances_ok t \<and> wgpeers_ok t \<and> userips_ok t \<and> domains_ok t \<and>
     pg_users_ok t \<and> pg_dbs_ok t \<and> tunnels_ok t"

lemmas table_ok_defs =
  users_ok_def instances_ok_def wgpeers_ok_def userips_ok_def domains_ok_def pg_users_ok_def
  pg_dbs_ok_def tunnels_ok_def

lemma schema_ok_empty: "schema_ok empty_tables"
  by (simp add: schema_ok_def table_ok_defs empty_tables_def)

text \<open>A statement that leaves the users alone keeps \<open>known_user\<close>.\<close>

lemma known_user_cong: "users t' = users t \<Longrightarrow> known_user t' = known_user t"
  by (simp add: known_user_def fun_eq_iff)

named_theorems schema_keeps \<open>every statement keeps the schema's constraints\<close>

lemma schema_insert_user [schema_keeps]:
  assumes "schema_ok t"
  shows "schema_ok (snd (sql_insert_user fname lname email hash name t))"
proof -
  define t' where "t' = snd (sql_insert_user fname lname email hash name t)"
  have known: "known_user t uid \<Longrightarrow> known_user t' uid" for uid
    by (auto simp: t'_def known_user_def sql_insert_user_def split: option.split)
  have same: "instances t' = instances t" "wgpeers t' = wgpeers t" "userips t' = userips t"
    "domains t' = domains t" "pg_users t' = pg_users t" "pg_dbs t' = pg_dbs t"
    "tunnels t' = tunnels t" "next_pg_id t' = next_pg_id t"
    by (auto simp: t'_def sql_insert_user_def split: option.split)
  have "users_ok t'"
    using assms by (auto simp: t'_def sql_insert_user_def schema_ok_def users_ok_def list_ex_iff
        split: option.split)
  with assms known same show ?thesis
    unfolding t'_def [symmetric] schema_ok_def table_ok_defs by simp
qed

lemma schema_verify_user [schema_keeps]:
  assumes "schema_ok t"
  shows "schema_ok (snd (sql_verify_user email t))"
proof -
  define f :: "user_row \<Rightarrow> user_row" where "f = (\<lambda>u. if u_email u = email then u\<lparr>u_verified := True\<rparr> else u)"
  have f: "u_id (f u) = u_id u" "u_email (f u) = u_email u" "u_name (f u) = u_name u" for u
    by (simp_all add: f_def)
  have m: "map u_id (map f us) = map u_id us" "map u_email (map f us) = map u_email us"
    "map u_name (map f us) = map u_name us" for us
    by (simp_all add: f)
  have known: "known_user (t\<lparr>users := map f (users t)\<rparr>) = known_user t"
    by (auto simp: fun_eq_iff known_user_def list_ex_iff f)
  show ?thesis
    using assms unfolding sql_verify_user_def f_def [symmetric]
    by (simp add: schema_ok_def table_ok_defs known m f del: map_map)
qed

lemma schema_insert_instance [schema_keeps]:
  "schema_ok t \<Longrightarrow> schema_ok (snd (sql_insert_instance r t))"
  by (auto simp: sql_insert_instance_def schema_ok_def table_ok_defs known_user_iff list_ex_iff)

lemma schema_insert_wgpeer [schema_keeps]:
  "schema_ok t \<Longrightarrow> schema_ok (snd (sql_insert_wgpeer uid key ip t))"
  by (auto simp: sql_insert_wgpeer_def schema_ok_def table_ok_defs known_user_iff list_ex_iff)

lemma schema_insert_userip [schema_keeps]:
  "schema_ok t \<Longrightarrow> schema_ok (snd (sql_insert_userip uid ip t))"
  by (auto simp: sql_insert_userip_def schema_ok_def table_ok_defs known_user_iff list_ex_iff)

lemma schema_insert_domain [schema_keeps]:
  "schema_ok t \<Longrightarrow> schema_ok (snd (sql_insert_domain uid name port code t))"
  by (auto simp: sql_insert_domain_def schema_ok_def table_ok_defs known_user_iff list_ex_iff)

lemma schema_insert_pg_user [schema_keeps]:
  "schema_ok t \<Longrightarrow> schema_ok (snd (sql_insert_pg_user uid name pass t))"
  by (auto simp: sql_insert_pg_user_def schema_ok_def table_ok_defs known_user_iff list_ex_iff Let_def)

lemma schema_insert_pg_db [schema_keeps]:
  "schema_ok t \<Longrightarrow> schema_ok (snd (sql_insert_pg_db pid name t))"
  by (auto simp: sql_insert_pg_db_def schema_ok_def table_ok_defs known_user_iff list_ex_iff)

lemma schema_insert_tunnel [schema_keeps]:
  "schema_ok t \<Longrightarrow> schema_ok (snd (sql_insert_tunnel uid domain custom name t))"
  by (auto simp: sql_insert_tunnel_def schema_ok_def table_ok_defs known_user_iff list_ex_iff)

lemma map_running [simp]:
  "map i_user (map (\<lambda>r. if P r then r\<lparr>i_running := b\<rparr> else r) rs) = map i_user rs"
  "map i_volume (map (\<lambda>r. if P r then r\<lparr>i_running := b\<rparr> else r) rs) = map i_volume rs"
  "map i_container (map (\<lambda>r. if P r then r\<lparr>i_running := b\<rparr> else r) rs) = map i_container rs"
  by simp_all

lemma schema_set_running [schema_keeps]:
  "schema_ok t \<Longrightarrow> schema_ok (snd (sql_set_running uid b t))"
  by (auto simp add: sql_set_running_def schema_ok_def table_ok_defs known_user_iff simp del: map_map)

lemma schema_deletes [schema_keeps]:
  assumes "schema_ok t"
  shows "schema_ok (snd (sql_delete_instance uid t))"
    and "schema_ok (snd (sql_delete_domain uid name t))"
    and "schema_ok (snd (sql_delete_user_domains uid t))"
    and "schema_ok (snd (sql_delete_pg_db pid name t))"
    and "schema_ok (snd (sql_delete_tunnel name uid t))"
  using assms
  by (simp_all add: sql_defs schema_ok_def table_ok_defs known_user_iff distinct_map_filter)

lemma schema_delete_wgpeer [schema_keeps]:
  "schema_ok t \<Longrightarrow> schema_ok (snd (sql_delete_wgpeer key uid t))"
  by (simp add: sql_delete_wgpeer_def schema_ok_def table_ok_defs known_user_iff Let_def
      distinct_map_filter split: list.split)

lemma schema_delete_userip [schema_keeps]:
  "schema_ok t \<Longrightarrow> schema_ok (snd (sql_delete_userip uid t))"
  by (simp add: sql_delete_userip_def schema_ok_def table_ok_defs known_user_iff
      distinct_map_filter split: list.split)

lemma schema_delete_pg_user [schema_keeps]:
  assumes "schema_ok t"
  shows "schema_ok (snd (sql_delete_pg_user uid name pass t))"
proof -
  define hit :: "pgu_row \<Rightarrow> bool" where "hit = (\<lambda>u. p_name u = name \<and> p_pass u = pass \<and> p_user u = uid)"
  have "pd_pid d \<in> p_id ` set (filter (\<lambda>u. \<not> hit u) (pg_users t))"
    if "d \<in> set (pg_dbs t)" "pd_pid d \<notin> p_id ` set (filter hit (pg_users t))" for d
  proof -
    from that(1) assms obtain u where "u \<in> set (pg_users t)" "pd_pid d = p_id u"
      by (auto simp: schema_ok_def pg_dbs_ok_def)
    with that(2) show ?thesis by auto
  qed
  then show ?thesis
    using assms unfolding sql_delete_pg_user_def hit_def [symmetric] Let_def
    by (simp add: schema_ok_def table_ok_defs known_user_iff distinct_map_filter)
qed

lemma schema_read [schema_keeps]: "schema_ok t \<Longrightarrow> schema_ok (snd (sql_read f t))"
  by (simp add: sql_read_def)

text \<open>A scripted statement keeps the constraints when the statement does.\<close>

lemma schema_serve [keeps_intros]:
  "(\<And>t. schema_ok t \<Longrightarrow> schema_ok (snd (f t))) \<Longrightarrow> keeps (holds schema_ok) (serve f)"
  by (rule keeps_serve)

lemma serve_read_state: "fst (snd (serve (sql_read f) s)) = fst s"
  using serve_state [of "sql_read f" s] by (simp add: sql_read_def)

lemma keeps_read [keeps_intros]: "keeps (holds I) (serve (sql_read f))"
  by (rule keepsI) (simp add: holds_def serve_read_state)

section \<open>No statement crashes the caller\<close>

lemma sql_no_crash:
  "fst (sql_insert_user a b email hash name t) \<noteq> Crash c"
  "fst (sql_insert_instance r t) \<noteq> Crash c"
  "fst (sql_insert_wgpeer uid key ip t) \<noteq> Crash c"
  "fst (sql_insert_userip uid ip t) \<noteq> Crash c"
  "fst (sql_insert_domain uid name port code t) \<noteq> Crash c"
  "fst (sql_insert_pg_user uid name pass t) \<noteq> Crash c"
  "fst (sql_insert_pg_db pid name t) \<noteq> Crash c"
  "fst (sql_insert_tunnel uid domain custom name t) \<noteq> Crash c"
  "fst (sql_verify_user email t) \<noteq> Crash c"
  "fst (sql_set_running uid run t) \<noteq> Crash c"
  "fst (sql_delete_instance uid t) \<noteq> Crash c"
  "fst (sql_delete_wgpeer key uid t) \<noteq> Crash c"
  "fst (sql_delete_userip uid t) \<noteq> Crash c"
  "fst (sql_delete_domain uid name t) \<noteq> Crash c"
  "fst (sql_delete_user_domains uid t) \<noteq> Crash c"
  "fst (sql_delete_pg_db pid name t) \<noteq> Crash c"
  "fst (sql_delete_pg_user uid name pass t) \<noteq> Crash c"
  "fst (sql_delete_tunnel name uid t) \<noteq> Crash c"
  "fst (sql_read (\<lambda>t. first_row P f (g t)) t) \<noteq> Crash c"
  "fst (sql_read (\<lambda>t. Ok (h t)) t) \<noteq> Crash c"
  by (simp_all add: sql_defs sql_read_def first_row_def Let_def split: list.split option.split)

lemmas quiet_sql [quiet_intros] = sql_no_crash [THEN quiet_serve]

end
