(* ===== verification/Alloc_Tx.thy ===== *)
theory Alloc_Tx
  imports Sql_Db
begin

text \<open>
  The serializable transaction that allocates the next free address. The methods
  \<^verbatim>\<open>AllocateNextFreeIP\<close> of \<^verbatim>\<open>internal/store/wg.go\<close> and of
  \<^verbatim>\<open>internal/store/instance.go\<close> run the same loop over their own table: read the
  highest address, add one, insert, commit, and try again on SQLSTATE 40001, five times at most.
  It is modelled once, over the address column and the INSERT statement. Between \<open>BEGIN\<close> and
  \<open>COMMIT\<close> the transaction sees and changes its own copy of the tables; a failing statement or
  a refused COMMIT throws the copy away.
\<close>

definition top_ip :: "int list \<Rightarrow> int res" where
  "top_ip ips = (case ips of [] \<Rightarrow> Er ErrNoRows | ip # rest \<Rightarrow> Ok (fold max rest ip))"

definition begin_tx :: "(db, unit) prog" where
  "begin_tx = serve (\<lambda>t. (Ok (), t))"

fun commit_tx :: "tables \<Rightarrow> (db, unit) prog" where
  "commit_tx snap (t, []) = (Ok (), (t, []))"
| "commit_tx snap (t, Served # as) = (Ok (), (t, as))"
| "commit_tx snap (t, Refused e # as) = (Er (srv_err e), (snap, as))"
| "commit_tx snap (t, Unheard e # as) = (Er (srv_err e), (t, as))"
| "commit_tx snap (t, Broken n e # as) = (Er (srv_err e), (snap, as))"

type_synonym attempt = "int \<Rightarrow> db \<Rightarrow> (unit res \<times> int) \<times> db"

text \<open>
  The function literal inside the loop. It assigns the captured variable \<open>ip\<close>, whose value is
  returned beside the error.
\<close>

definition tx_insert :: "(int \<Rightarrow> tables \<Rightarrow> unit res \<times> tables) \<Rightarrow> tables \<Rightarrow> attempt" where
  "tx_insert ins snap ip d =
     (case serve (ins ip) d of
        (Ok _, d1) \<Rightarrow> (case commit_tx snap d1 of (r, d2) \<Rightarrow> ((r, ip), d2))
      | (Er e, d1) \<Rightarrow> ((Er e, ip), (snap, snd d1))
      | (Crash c, d1) \<Rightarrow> ((Crash c, ip), (snap, snd d1)))"

definition tx_attempt ::
  "(tables \<Rightarrow> int list) \<Rightarrow> (int \<Rightarrow> tables \<Rightarrow> unit res \<times> tables) \<Rightarrow> int \<Rightarrow> attempt" where
  "tx_attempt col ins maxHostNumber ip d =
     (let snap = fst d
      in case serve (sql_read (\<lambda>t. top_ip (col t))) d of
           (Er e, d1) \<Rightarrow>
             if e = ErrNoRows then tx_insert ins snap 2 d1 else ((Er e, ip), (snap, snd d1))
         | (Ok hi, d1) \<Rightarrow>
             if hi + 1 > maxHostNumber
             then ((Er (ErrText HOST_EXHAUSTION), hi + 1), (snap, snd d1))
             else tx_insert ins snap (hi + 1) d1
         | (Crash c, d1) \<Rightarrow> ((Crash c, ip), (snap, snd d1)))"

definition serialization_failure :: string where
  "serialization_failure = ''40001''"

fun tx_loop :: "nat \<Rightarrow> attempt \<Rightarrow> int \<Rightarrow> (db, int) prog" where
  "tx_loop 0 attempt ip d = (Ok ip, d)"
| "tx_loop (Suc n) attempt ip d =
     (case begin_tx d of
        (Ok _, d1) \<Rightarrow>
          (case attempt ip d1 of
             ((Ok _, ip1), d2) \<Rightarrow> (Ok ip1, d2)
           | ((Er e, ip1), d2) \<Rightarrow>
               if error_text e = HOST_EXHAUSTION then (Er e, d2)
               else if pg_code_is serialization_failure e then tx_loop n attempt ip1 d2
               else (Er e, d2)
           | ((Crash c, ip1), d2) \<Rightarrow> (Crash c, d2))
      | (Er e, d1) \<Rightarrow> (Er e, d1)
      | (Crash c, d1) \<Rightarrow> (Crash c, d1))"

definition maxRetries :: nat where
  "maxRetries = 5"

section \<open>The address an attempt inserts\<close>

definition next_ip :: "int list \<Rightarrow> int" where
  "next_ip ips = (case ips of [] \<Rightarrow> 2 | ip # rest \<Rightarrow> fold max rest ip + 1)"

lemma next_ip_fresh: "ip \<in> set ips \<Longrightarrow> ip < next_ip ips"
  using fold_max_ge by (cases ips) (fastforce simp: next_ip_def)+

lemma next_ip_not_in: "next_ip ips \<notin> set ips"
  using next_ip_fresh by blast

lemma next_ip_ge_2: "(\<And>ip. ip \<in> set ips \<Longrightarrow> 2 \<le> ip) \<Longrightarrow> 2 \<le> next_ip ips"
  using fold_max_in by (cases ips) (fastforce simp: next_ip_def)+

text \<open>
  The next address is one above the highest, or 2; so it never exceeds a bound that some taken
  address is below.
\<close>

lemma next_ip_le: "ips \<noteq> [] \<Longrightarrow> \<forall>ip \<in> set ips. ip < b \<Longrightarrow> next_ip ips \<le> b"
  using fold_max_in by (cases ips) (fastforce simp: next_ip_def)+

text \<open>Either the attempt leaves the tables alone, or it inserted the next address.\<close>

definition attempt_insert ::
  "(tables \<Rightarrow> int list) \<Rightarrow> (int \<Rightarrow> tables \<Rightarrow> unit res \<times> tables) \<Rightarrow> int \<Rightarrow> tables \<Rightarrow> int \<Rightarrow> tables \<Rightarrow> bool" where
  "attempt_insert col ins m t ip t' \<longleftrightarrow>
     ip = next_ip (col t) \<and> (col t = [] \<or> ip \<le> m) \<and> ins ip t = (Ok (), t')"

lemma attempt_insertD: "attempt_insert col ins m t ip t' \<Longrightarrow> ins ip t = (Ok (), t')"
  unfolding attempt_insert_def by blast

lemma tx_insert_cases:
  assumes "tx_insert ins snap ip (snap, as) = ((r, ip'), (t', as'))"
  shows "ip' = ip \<and> (t' = snap \<or> ins ip snap = (Ok (), t')) \<and> (r = Ok () \<longrightarrow> ins ip snap = (Ok (), t'))"
proof -
  obtain q t1 as1 where s: "serve (ins ip) (snap, as) = (q, (t1, as1))" by (metis prod.exhaust)
  show ?thesis
  proof (cases q)
    case (Ok u)
    then have "ins ip snap = (Ok (), t1)" using serve_OkD [of "ins ip" snap as] s by fastforce
    with assms s Ok show ?thesis
      by (cases "(snap, (t1, as1))" rule: commit_tx.cases) (auto simp: tx_insert_def)
  qed (use assms s in \<open>auto simp: tx_insert_def\<close>)
qed

lemma tx_attempt_cases:
  assumes "tx_attempt col ins m ip (t, as) = ((r, ip'), (t', as'))"
  shows "(t' = t \<or> attempt_insert col ins m t ip' t') \<and> (r = Ok () \<longrightarrow> attempt_insert col ins m t ip' t')"
proof -
  define rd where "rd = sql_read (\<lambda>t. top_ip (col t))"
  obtain q t1 as1 where s: "serve rd (t, as) = (q, (t1, as1))" by (metis prod.exhaust)
  have t1: "t1 = t" using serve_read_state [of "\<lambda>t. top_ip (col t)" "(t, as)"] s by (simp add: rd_def)
  show ?thesis
  proof (cases q)
    case (Ok hi)
    with s have "top_ip (col t) = Ok hi"
      using serve_OkD [of rd t as] by (fastforce simp: rd_def sql_read_def)
    then have hi: "col t \<noteq> [] \<and> hi + 1 = next_ip (col t)"
      by (auto simp: top_ip_def next_ip_def split: list.splits)
    show ?thesis
    proof (cases "hi + 1 > m")
      case True
      with assms s Ok t1 show ?thesis by (auto simp: tx_attempt_def rd_def [symmetric])
    next
      case False
      with assms s Ok t1 have "tx_insert ins t (hi + 1) (t, as1) = ((r, ip'), (t', as'))"
        by (simp add: tx_attempt_def rd_def [symmetric])
      from tx_insert_cases [OF this] hi False show ?thesis by (auto simp: attempt_insert_def)
    qed
  next
    case (Er e)
    show ?thesis
    proof (cases "e = ErrNoRows")
      case True
      with s Er have "top_ip (col t) = Er ErrNoRows"
        using serve_sentinelD(1) [of rd t as] by (fastforce simp: rd_def sql_read_def)
      then have "col t = [] \<and> next_ip (col t) = 2" by (auto simp: top_ip_def next_ip_def split: list.splits)
      moreover have "tx_insert ins t 2 (t, as1) = ((r, ip'), (t', as'))"
        using assms s Er True t1 by (simp add: tx_attempt_def rd_def [symmetric])
      ultimately show ?thesis using tx_insert_cases [of ins t 2 as1] by (auto simp: attempt_insert_def)
    next
      case False
      with assms s Er t1 show ?thesis by (auto simp: tx_attempt_def rd_def [symmetric])
    qed
  next
    case (Crash c)
    with assms s t1 show ?thesis by (auto simp: tx_attempt_def rd_def [symmetric])
  qed
qed

lemma begin_tx_state: "begin_tx (t, as) = (r, (t', as')) \<Longrightarrow> t' = t"
  using serve_state [of "\<lambda>t. (Ok (), t)" "(t, as)"] by (simp add: begin_tx_def)

section \<open>The loop\<close>

text \<open>What the inserts of the next address preserve, the loop preserves, for every script.\<close>

lemma tx_loop_keeps:
  assumes "\<And>t ip t'. I t \<Longrightarrow> attempt_insert col ins m t ip t' \<Longrightarrow> I t'"
  shows "keeps (holds I) (tx_loop n (tx_attempt col ins m) ip)"
proof (induction n arbitrary: ip)
  case 0
  show ?case by (simp add: keeps_def)
next
  case (Suc n)
  show ?case
  proof (rule keepsI)
    fix d assume "holds I d"
    obtain t as where d: "d = (t, as)" by (cases d)
    with \<open>holds I d\<close> have I: "I t" by simp
    obtain r1 t1 as1 where b: "begin_tx d = (r1, (t1, as1))" by (metis prod.exhaust)
    then have t1: "t1 = t" using begin_tx_state d by blast
    obtain r2 ip2 t2 as2 where a: "tx_attempt col ins m ip (t, as1) = ((r2, ip2), (t2, as2))"
      by (metis prod.exhaust)
    from tx_attempt_cases [OF a] assms I have I2: "I t2" by blast
    then show "holds I (snd (tx_loop (Suc n) (tx_attempt col ins m) ip d))"
      using b t1 a I I2 keepsD [OF Suc.IH, of "(t2, as2)"] by (cases r1; cases r2) simp_all
  qed
qed

lemma tx_frame:
  assumes "\<And>ip t. f t = x \<Longrightarrow> f (snd (ins ip t)) = x"
  shows "keeps (holds (\<lambda>t. f t = x)) (tx_loop n (tx_attempt col ins m) ip)"
proof (rule tx_loop_keeps)
  fix t ip t' assume "f t = x" "attempt_insert col ins m t ip t'"
  with assms [of t ip] attempt_insertD show "f t' = x" by fastforce
qed

lemma tx_loop_schema [keeps_intros]:
  assumes ins: "\<And>ip t. schema_ok t \<Longrightarrow> schema_ok (snd (ins ip t))"
  shows "keeps (holds schema_ok) (tx_loop n (tx_attempt col ins m) ip)"
proof (rule tx_loop_keeps)
  fix t k t'
  assume "schema_ok t" and "attempt_insert col ins m t k t'"
  with ins [of t k] show "schema_ok t'" by (auto simp: attempt_insert_def)
qed

text \<open>
  The number of answers still to come that report a serialization failure. With fewer of them than
  tries, a returned address has been committed.
\<close>

fun conflict_answer :: "answer \<Rightarrow> bool" where
  "conflict_answer (Refused e) = pg_code_is serialization_failure (srv_err e)"
| "conflict_answer (Unheard e) = pg_code_is serialization_failure (srv_err e)"
| "conflict_answer (Broken n e) = pg_code_is serialization_failure (srv_err e)"
| "conflict_answer Served = False"

definition conflicts :: "answer list \<Rightarrow> nat" where
  "conflicts as = length (filter conflict_answer as)"

text \<open>A statement that fails with a serialization failure has taken it from the script.\<close>

lemma serve_conflicts:
  assumes "serve f (t, as) = (r, (t', as'))"
  shows "conflicts as' \<le> conflicts as"
    and "r = Er e \<Longrightarrow> pg_code_is serialization_failure e \<Longrightarrow>
      (\<And>e' t'. f t = (Er e', t') \<Longrightarrow> \<not> pg_code_is serialization_failure e') \<Longrightarrow>
      conflicts as' < conflicts as"
  using assms
  by (cases "(f, (t, as))" rule: serve.cases; fastforce simp: conflicts_def split: prod.splits)+

lemma commit_conflicts:
  assumes "commit_tx snap (t, as) = (r, (t', as'))"
  shows "conflicts as' \<le> conflicts as"
    and "r = Er e \<Longrightarrow> pg_code_is serialization_failure e \<Longrightarrow> conflicts as' < conflicts as"
  using assms
  by (cases "(snap, (t, as))" rule: commit_tx.cases; auto simp: conflicts_def)+

definition plain_insert :: "(int \<Rightarrow> tables \<Rightarrow> unit res \<times> tables) \<Rightarrow> bool" where
  "plain_insert ins \<longleftrightarrow>
     (\<forall>ip t e t'. ins ip t = (Er e, t') \<longrightarrow> \<not> pg_code_is serialization_failure e)"

lemma tx_insert_conflicts:
  assumes "tx_insert ins snap ip (t, as) = ((r, ip'), (t', as'))" and "plain_insert ins"
  shows "conflicts as' \<le> conflicts as \<and>
    (r = Er e \<longrightarrow> pg_code_is serialization_failure e \<longrightarrow> conflicts as' < conflicts as)"
proof -
  obtain q t1 as1 where s: "serve (ins ip) (t, as) = (q, (t1, as1))" by (metis prod.exhaust)
  note c1 = serve_conflicts [OF s]
  obtain r2 t2 as2 where c: "commit_tx snap (t1, as1) = (r2, (t2, as2))" by (metis prod.exhaust)
  note c2 = commit_conflicts [OF c]
  show ?thesis
    using assms s c c1 c2 by (cases q) (fastforce simp: tx_insert_def plain_insert_def)+
qed

lemma tx_attempt_conflicts:
  assumes "tx_attempt col ins m ip (t, as) = ((r, ip'), (t', as'))" and "plain_insert ins"
  shows "conflicts as' \<le> conflicts as \<and>
    (r = Er e \<longrightarrow> pg_code_is serialization_failure e \<longrightarrow> conflicts as' < conflicts as)"
proof -
  define rd where "rd = sql_read (\<lambda>t. top_ip (col t))"
  obtain q t1 as1 where s: "serve rd (t, as) = (q, (t1, as1))" by (metis prod.exhaust)
  have rd: "rd t = (Er e', t') \<Longrightarrow> \<not> pg_code_is serialization_failure e'" for e' t'
    by (auto simp: rd_def sql_read_def top_ip_def split: list.splits)
  note c1 = serve_conflicts(1) [OF s] serve_conflicts(2) [OF s _ _ rd]
  have step: ?thesis if "tx_insert ins t k (t1, as1) = ((r, ip'), (t', as'))" for k
    using tx_insert_conflicts [OF that assms(2), of e] c1(1) by auto
  have t1: "t1 = t" using serve_read_state [of "\<lambda>t. top_ip (col t)" "(t, as)"] s by (simp add: rd_def)
  show ?thesis
  proof (cases q)
    case (Ok hi)
    show ?thesis
    proof (cases "hi + 1 > m")
      case True
      with assms(1) s Ok c1(1) show ?thesis by (auto simp: tx_attempt_def rd_def [symmetric])
    next
      case False
      with assms(1) s Ok t1 show ?thesis by (intro step) (simp add: tx_attempt_def rd_def [symmetric])
    qed
  next
    case (Er e')
    show ?thesis
    proof (cases "e' = ErrNoRows")
      case True
      with assms(1) s Er t1 show ?thesis by (intro step) (simp add: tx_attempt_def rd_def [symmetric])
    next
      case False
      with assms(1) s Er c1 show ?thesis by (auto simp: tx_attempt_def rd_def [symmetric])
    qed
  next
    case (Crash c)
    then show ?thesis using assms s c1(1) by (auto simp: tx_attempt_def rd_def [symmetric])
  qed
qed

lemma tx_loop_committed:
  assumes "\<And>t ip t'. I t \<Longrightarrow> attempt_insert col ins m t ip t' \<Longrightarrow> I t'" and "plain_insert ins"
  shows "tx_loop n (tx_attempt col ins m) ip (t, as) = (Ok ip', (t', as')) \<Longrightarrow> conflicts as < n \<Longrightarrow> I t \<Longrightarrow>
    \<exists>t1. I t1 \<and> attempt_insert col ins m t1 ip' t'"
proof (induction n arbitrary: ip t as)
  case 0
  then show ?case by simp
next
  case (Suc n)
  obtain r1 t1 as1 where b: "begin_tx (t, as) = (r1, (t1, as1))" by (metis prod.exhaust)
  then have t1: "t1 = t" by (rule begin_tx_state)
  have as1: "conflicts as1 \<le> conflicts as"
    using b unfolding begin_tx_def by (rule serve_conflicts(1))
  obtain r2 ip2 t2 as2 where a: "tx_attempt col ins m ip (t, as1) = ((r2, ip2), (t2, as2))"
    by (metis prod.exhaust)
  note c = tx_attempt_cases [OF a] and d = tx_attempt_conflicts [OF a assms(2)]
  from c Suc.prems(3) assms(1) have I2: "I t2" by blast
  show ?case
  proof (cases r2)
    case (Ok u)
    with Suc.prems b t1 a c show ?thesis by (cases r1) auto
  next
    case (Er e)
    with Suc.prems(1) b t1 a have e: "pg_code_is serialization_failure e"
      and "tx_loop n (tx_attempt col ins m) ip2 (t2, as2) = (Ok ip', (t', as'))"
      by (cases r1; simp split: if_splits)+
    moreover have "conflicts as2 < n" using d e Er as1 Suc.prems(2) by fastforce
    ultimately show ?thesis using Suc.IH I2 by blast
  next
    case (Crash k)
    with Suc.prems b t1 a show ?thesis by (cases r1) auto
  qed
qed

text \<open>On a server that serves every call the loop is one insert of the next address.\<close>

lemma tx_attempt_served:
  "tx_attempt col ins m ip (t, []) =
     (if col t \<noteq> [] \<and> next_ip (col t) > m
      then ((Er (ErrText HOST_EXHAUSTION), next_ip (col t)), (t, []))
      else case ins (next_ip (col t)) t of
        (Ok _, t') \<Rightarrow> ((Ok (), next_ip (col t)), (t', []))
      | (Er e, t') \<Rightarrow> ((Er e, next_ip (col t)), (t, []))
      | (Crash c, t') \<Rightarrow> ((Crash c, next_ip (col t)), (t, [])))"
  by (auto simp: tx_attempt_def tx_insert_def sql_read_def top_ip_def next_ip_def
      split: list.split prod.split res.split)

lemma tx_loop_served:
  assumes "col t = [] \<or> next_ip (col t) \<le> m" and "ins (next_ip (col t)) t = (Ok (), t')"
  shows "tx_loop (Suc n) (tx_attempt col ins m) ip (t, []) = (Ok (next_ip (col t)), (t', []))"
  using assms by (auto simp: begin_tx_def tx_attempt_served)

text \<open>A conflict at every commit: the loop runs out and reports the address of its last try.\<close>

lemma tx_loop_conflicts:
  assumes "col t = [] \<or> next_ip (col t) \<le> m" and "ins (next_ip (col t)) t = (Ok (), t')"
    and "pg_code_is serialization_failure (srv_err e)" and "error_text (srv_err e) \<noteq> HOST_EXHAUSTION"
  shows "tx_loop n (tx_attempt col ins m) ip (t, concat (replicate n [Served, Served, Served, Refused e]) @ as) =
    (Ok (if n = 0 then ip else next_ip (col t)), (t, as))"
proof (induction n arbitrary: ip)
  case (Suc n)
  have "tx_attempt col ins m ip (t, Served # Served # Refused e # bs) = ((Er (srv_err e), next_ip (col t)), (t, bs))" for bs
    using assms(1,2)
    by (cases "col t") (auto simp: tx_attempt_def tx_insert_def sql_read_def top_ip_def next_ip_def)
  with Suc assms(3,4) show ?case by (simp add: begin_tx_def)
qed simp

lemma tx_loop_exhausted:
  assumes "col t \<noteq> []" and "next_ip (col t) > m"
  shows "tx_loop (Suc n) (tx_attempt col ins m) ip (t, []) = (Er (ErrText HOST_EXHAUSTION), (t, []))"
  using assms by (simp add: begin_tx_def tx_attempt_served)

lemma tx_insert_quiet:
  assumes "\<And>ip t c. fst (ins ip t) \<noteq> Crash c"
  shows "fst (fst (tx_insert ins snap ip d)) \<noteq> Crash c"
proof -
  obtain q d1 where s: "serve (ins ip) d = (q, d1)" by (cases "serve (ins ip) d")
  have "quiet (serve (ins ip))" by (rule quiet_serve) (rule assms)
  then have q: "q \<noteq> Crash k" for k using s by (rule quiet_result)
  have "fst (commit_tx snap d1) \<noteq> Crash c"
    by (cases "(snap, d1)" rule: commit_tx.cases) auto
  with s q show ?thesis by (cases q) (simp_all add: tx_insert_def case_prod_beta)
qed

lemma tx_attempt_quiet:
  assumes "\<And>ip t c. fst (ins ip t) \<noteq> Crash c"
  shows "fst (fst (tx_attempt col ins m ip d)) \<noteq> Crash c"
proof -
  define rd where "rd = sql_read (\<lambda>t. top_ip (col t))"
  have "quiet (serve rd)"
    by (rule quiet_serve) (simp add: rd_def sql_read_def top_ip_def split: list.split)
  moreover obtain q d1 where s: "serve rd d = (q, d1)" by (cases "serve rd d")
  ultimately have q: "q \<noteq> Crash k" for k by (rule quiet_result)
  from s q show ?thesis
    using tx_insert_quiet [of ins, OF assms]
    by (cases q) (simp_all add: tx_attempt_def rd_def [symmetric] Let_def)
qed

lemma quiet_tx_loop:
  assumes "\<And>ip t c. fst (ins ip t) \<noteq> Crash c"
  shows "quiet (tx_loop n (tx_attempt col ins m) ip)"
proof (induction n arbitrary: ip)
  case 0
  show ?case by (simp add: quiet_def)
next
  case (Suc n)
  have "fst (tx_loop (Suc n) (tx_attempt col ins m) ip d) \<noteq> Crash c" for d c
  proof -
    obtain q d1 where b: "begin_tx d = (q, d1)" by (cases "begin_tx d")
    have "quiet begin_tx" unfolding begin_tx_def by (rule quiet_serve) simp
    then have q: "q \<noteq> Crash k" for k using b by (rule quiet_result)
    obtain r ip1 d2 where a: "tx_attempt col ins m ip d1 = ((r, ip1), d2)" by (metis prod.exhaust)
    with tx_attempt_quiet [of ins col m ip d1, OF assms] have r: "r \<noteq> Crash k" for k
      by (metis fst_conv)
    have "fst (tx_loop n (tx_attempt col ins m) ip1 d2) \<noteq> Crash c"
      using Suc.IH by (metis quiet_def)
    with b q a r show ?thesis by (cases q; cases r) simp_all
  qed
  then show ?case by (simp add: quiet_def)
qed

end
