(* ===== verification/Go_Text.thy ===== *)
theory Go_Text
  imports KWS_Prelude
begin

text \<open>
  What the sources use of Go's integers and strings: truncating division, \<^verbatim>\<open>%d\<close> and
  \<^verbatim>\<open>strconv.Atoi\<close>, \<^verbatim>\<open>strings.Contains\<close>, and the way
  \<^verbatim>\<open>range\<close> and \<^verbatim>\<open>regexp\<close> cut a string into runes. A Go string is a list of
  bytes here, as it is in Go.
\<close>

section \<open>Integers\<close>

text \<open>Go divides towards zero; the remainder takes the sign of the dividend.\<close>

definition go_div :: "int \<Rightarrow> int \<Rightarrow> int" where
  "go_div a b = sgn a * sgn b * (\<bar>a\<bar> div \<bar>b\<bar>)"

definition go_mod :: "int \<Rightarrow> int \<Rightarrow> int" where
  "go_mod a b = a - b * go_div a b"

lemma go_div_nonneg [simp]: "0 \<le> a \<Longrightarrow> 0 < b \<Longrightarrow> go_div a b = a div b"
  by (cases "a = 0") (auto simp: go_div_def)

lemma go_mod_nonneg [simp]: "0 \<le> a \<Longrightarrow> 0 < b \<Longrightarrow> go_mod a b = a mod b"
  by (simp add: go_mod_def minus_mult_div_eq_mod)

section \<open>Decimal numerals\<close>

definition digit :: "nat \<Rightarrow> char" where
  "digit n = char_of (48 + n)"

definition digit_value :: "char \<Rightarrow> nat option" where
  "digit_value c =
     (let n = of_char c :: nat in if 48 \<le> n \<and> n \<le> 57 then Some (n - 48) else None)"

lemma digit_value_digit: "d < 10 \<Longrightarrow> digit_value (digit d) = Some d"
  by (simp add: digit_value_def digit_def)

lemma of_char_digit: "d < 10 \<Longrightarrow> (of_char (digit d) :: nat) = 48 + d"
  by (simp add: digit_def)

fun nat_digits :: "nat \<Rightarrow> string" where
  "nat_digits n = (if n < 10 then [digit n] else nat_digits (n div 10) @ [digit (n mod 10)])"

declare nat_digits.simps [simp del]

text \<open>\<^verbatim>\<open>fmt.Sprintf("%d", n)\<close>, \<^verbatim>\<open>strconv.Itoa(n)\<close>.\<close>

definition itoa :: "int \<Rightarrow> string" where
  "itoa n = (if n < 0 then CHR ''-'' # nat_digits (nat (- n)) else nat_digits (nat n))"

fun parse_digits :: "nat \<Rightarrow> string \<Rightarrow> nat option" where
  "parse_digits acc [] = Some acc"
| "parse_digits acc (c # cs) =
     (case digit_value c of None \<Rightarrow> None | Some d \<Rightarrow> parse_digits (acc * 10 + d) cs)"

definition int64_range :: "int \<Rightarrow> bool" where
  "int64_range n \<longleftrightarrow> - (2 ^ 63) \<le> n \<and> n < 2 ^ 63"

definition in_int64 :: "int \<Rightarrow> int option" where
  "in_int64 n = (if int64_range n then Some n else None)"

text \<open>\<^verbatim>\<open>strconv.Atoi\<close>: an optional sign, at least one digit, no other byte, 64 bits.\<close>

definition parse_unsigned :: "string \<Rightarrow> nat option" where
  "parse_unsigned s = (if s = [] then None else parse_digits 0 s)"

fun atoi :: "string \<Rightarrow> int option" where
  "atoi [] = None"
| "atoi (c # cs) =
     (if c = CHR ''-'' then Option.bind (parse_unsigned cs) (\<lambda>n. in_int64 (- int n))
      else if c = CHR ''+'' then Option.bind (parse_unsigned cs) (\<lambda>n. in_int64 (int n))
      else Option.bind (parse_unsigned (c # cs)) (\<lambda>n. in_int64 (int n)))"

lemma nat_digits_nonempty [simp]: "nat_digits n \<noteq> []"
  by (subst nat_digits.simps) simp

lemma parse_digits_append:
  "parse_digits acc (xs @ ys) = Option.bind (parse_digits acc xs) (\<lambda>a. parse_digits a ys)"
  by (induction xs arbitrary: acc) (auto split: option.split)

lemma parse_nat_digits: "parse_digits 0 (nat_digits n) = Some n"
proof (induction n rule: nat_digits.induct)
  case (1 n)
  show ?case
  proof (cases "n < 10")
    case True
    then show ?thesis by (subst nat_digits.simps) (simp add: digit_value_digit)
  next
    case False
    with 1 have "parse_digits 0 (nat_digits (n div 10)) = Some (n div 10)" by simp
    with False show ?thesis
      by (subst nat_digits.simps) (simp add: parse_digits_append digit_value_digit)
  qed
qed

lemma nat_digits_chars: "c \<in> set (nat_digits n) \<Longrightarrow> 48 \<le> (of_char c :: nat) \<and> (of_char c :: nat) \<le> 57"
proof (induction n rule: nat_digits.induct)
  case (1 n)
  show ?case
  proof (cases "n < 10")
    case True
    with 1 show ?thesis by (subst (asm) nat_digits.simps) (simp add: of_char_digit)
  next
    case False
    from 1(2) False have "c \<in> set (nat_digits (n div 10)) \<or> c = digit (n mod 10)"
      by (subst (asm) nat_digits.simps) auto
    with 1(1) False show ?thesis by (auto simp: of_char_digit)
  qed
qed

lemma nat_digits_no_sign:
  "CHR ''-'' \<notin> set (nat_digits n)" "CHR ''+'' \<notin> set (nat_digits n)" "CHR ''.'' \<notin> set (nat_digits n)"
  using nat_digits_chars [of "CHR ''-''" n] nat_digits_chars [of "CHR ''+''" n]
    nat_digits_chars [of "CHR ''.''" n] by auto

lemma nat_digits_length: "n < 10 ^ k \<Longrightarrow> 0 < k \<Longrightarrow> length (nat_digits n) \<le> k"
proof (induction n arbitrary: k rule: nat_digits.induct)
  case (1 n)
  show ?case
  proof (cases "n < 10")
    case True
    with 1 show ?thesis by (subst nat_digits.simps) simp
  next
    case False
    then obtain j where k: "k = Suc j" and "0 < j"
      using 1(2,3) by (cases k; cases "k - 1") auto
    with 1(2) have "n div 10 < 10 ^ j" by auto
    with False 1(1) \<open>0 < j\<close> have "length (nat_digits (n div 10)) \<le> j" by blast
    with False k show ?thesis by (subst nat_digits.simps) simp
  qed
qed

text \<open>\<^verbatim>\<open>Atoi\<close> reads back what \<^verbatim>\<open>Itoa\<close> wrote.\<close>

lemma atoi_itoa_eq: "atoi (itoa n) = in_int64 n"
proof (cases "n < 0")
  case True
  then show ?thesis by (simp add: itoa_def parse_unsigned_def parse_nat_digits)
next
  case False
  obtain c cs where cs: "nat_digits (nat n) = c # cs"
    by (meson neq_Nil_conv nat_digits_nonempty)
  with nat_digits_no_sign [of "nat n"] have "c \<noteq> CHR ''-''" and "c \<noteq> CHR ''+''" by auto
  with False show ?thesis
    using parse_nat_digits [of "nat n"] by (simp add: itoa_def cs parse_unsigned_def)
qed

lemma atoi_itoa: "int64_range n \<Longrightarrow> atoi (itoa n) = Some n"
  by (simp add: atoi_itoa_eq in_int64_def)

lemma atoi_itoa_SomeD: "atoi (itoa m) = Some n \<Longrightarrow> m = n"
  by (simp add: atoi_itoa_eq in_int64_def split: if_splits)

lemma nat_digits_inject [simp]: "nat_digits a = nat_digits b \<longleftrightarrow> a = b"
  by (metis parse_nat_digits option.inject)

lemma nat_digits_not_dash [simp]: "nat_digits a @ s \<noteq> CHR ''-'' # t"
proof -
  obtain c cs where "nat_digits a = c # cs" by (meson neq_Nil_conv nat_digits_nonempty)
  with nat_digits_no_sign(1) [of a] show ?thesis by auto
qed

lemmas nat_digits_not_dash_sym [simp] = nat_digits_not_dash [symmetric]

lemma itoa_inject: "itoa m = itoa n \<longleftrightarrow> m = n"
  using nat_digits_not_dash [of _ "[]"] nat_digits_not_dash_sym [of _ _ "[]"]
  by (simp add: itoa_def) linarith

lemma itoa_length: "int64_range n \<Longrightarrow> length (itoa n) \<le> 20"
proof -
  assume "int64_range n"
  then have "nat \<bar>n\<bar> < 10 ^ 19" by (auto simp: int64_range_def)
  then have "length (nat_digits (nat \<bar>n\<bar>)) \<le> 19" by (rule nat_digits_length) simp
  then show ?thesis by (auto simp: itoa_def)
qed

lemma itoa_no_dot: "CHR ''.'' \<notin> set (itoa n)"
  using nat_digits_no_sign(3) by (auto simp: itoa_def)

text \<open>Two texts that agree up to the first separator agree on both sides of it.\<close>

lemma split_at_sep:
  assumes "xs @ c # ys = xs' @ c # ys'" and "c \<notin> set xs" and "c \<notin> set xs'"
  shows "xs = xs' \<and> ys = ys'"
proof -
  have "takeWhile (\<lambda>x. x \<noteq> c) (xs @ c # ys) = xs" "takeWhile (\<lambda>x. x \<noteq> c) (xs' @ c # ys') = xs'"
    using assms(2,3) by (auto simp: takeWhile_append)
  with assms(1) show ?thesis by auto
qed

lemma itoa_dash_inject:
  assumes "itoa m @ CHR ''-'' # xs = itoa n @ CHR ''-'' # ys"
  shows "m = n \<and> xs = ys"
proof -
  have digits: "nat_digits a @ CHR ''-'' # xs = nat_digits b @ CHR ''-'' # ys \<Longrightarrow> a = b \<and> xs = ys"
    for a b
    using split_at_sep [of "nat_digits a" "CHR ''-''" xs "nat_digits b" ys] nat_digits_no_sign(1)
    by simp
  have "m < 0 \<longleftrightarrow> n < 0"
    using assms by (auto simp: itoa_def split: if_splits)
  with assms show ?thesis
    by (auto simp: itoa_def split: if_splits dest!: digits)
qed

section \<open>Substrings\<close>

fun starts_with :: "string \<Rightarrow> string \<Rightarrow> bool" where
  "starts_with [] s = True"
| "starts_with (p # ps) [] = False"
| "starts_with (p # ps) (c # cs) = (p = c \<and> starts_with ps cs)"

text \<open>\<^verbatim>\<open>strings.Contains(s, sub)\<close>.\<close>

fun contains :: "string \<Rightarrow> string \<Rightarrow> bool" where
  "contains [] sub = starts_with sub []"
| "contains (c # cs) sub = (starts_with sub (c # cs) \<or> contains cs sub)"

section \<open>Runes\<close>

text \<open>
  The number of bytes of the first rune of a string, by the table of
  \<^verbatim>\<open>utf8.DecodeRuneInString\<close>: a byte that does not begin a well-formed sequence is one
  (erroneous) rune of its own.
\<close>

definition byte_in :: "nat \<Rightarrow> nat \<Rightarrow> char \<Rightarrow> bool" where
  "byte_in lo hi c \<longleftrightarrow> lo \<le> (of_char c :: nat) \<and> (of_char c :: nat) \<le> hi"

definition second_range :: "nat \<Rightarrow> nat \<times> nat" where
  "second_range b =
     (if b = 224 then (160, 191) else if b = 237 then (128, 159)
      else if b = 240 then (144, 191) else if b = 244 then (128, 143) else (128, 191))"

definition second_byte :: "nat \<Rightarrow> char \<Rightarrow> bool" where
  "second_byte b c \<longleftrightarrow> (case second_range b of (lo, hi) \<Rightarrow> byte_in lo hi c)"

definition rune_width :: "char \<Rightarrow> string \<Rightarrow> nat" where
  "rune_width c cs =
     (let b = of_char c; second = second_byte b; cont = byte_in 128 191
      in if 194 \<le> b \<and> b \<le> 223 then (case cs of c1 # _ \<Rightarrow> if cont c1 then 2 else 1 | _ \<Rightarrow> 1)
         else if 224 \<le> b \<and> b \<le> 239
           then (case cs of c1 # c2 # _ \<Rightarrow> if second c1 \<and> cont c2 then 3 else 1 | _ \<Rightarrow> 1)
         else if 240 \<le> b \<and> b \<le> 244
           then (case cs of c1 # c2 # c3 # _ \<Rightarrow> if second c1 \<and> cont c2 \<and> cont c3 then 4 else 1
                 | _ \<Rightarrow> 1)
         else 1)"

lemma rune_width_ascii: "(of_char c :: nat) < 128 \<Longrightarrow> rune_width c cs = 1"
  by (simp add: rune_width_def Let_def)

lemma second_byte_high: "second_byte b c \<Longrightarrow> 128 \<le> (of_char c :: nat)"
  by (auto simp: second_byte_def second_range_def byte_in_def split: if_splits)

lemma cont_byte_high: "byte_in 128 191 c \<Longrightarrow> 128 \<le> (of_char c :: nat)"
  by (simp add: byte_in_def)

text \<open>A rune is one ASCII byte or consists of bytes above 127 only.\<close>

lemma rune_width_tail:
  assumes "b \<in> set (take (rune_width c cs - 1) cs)"
  shows "128 \<le> (of_char b :: nat) \<and> 128 \<le> (of_char c :: nat)"
proof -
  consider "cs = []" | c1 where "cs = [c1]" | c1 c2 where "cs = [c1, c2]"
    | c1 c2 c3 ds where "cs = c1 # c2 # c3 # ds"
    by (metis neq_Nil_conv)
  then show ?thesis
    using assms
    by cases (auto simp: rune_width_def Let_def dest: second_byte_high cont_byte_high split: if_splits)
qed

definition is_lower :: "char \<Rightarrow> bool" where
  "is_lower c \<longleftrightarrow> byte_in 97 122 c"

definition is_upper :: "char \<Rightarrow> bool" where
  "is_upper c \<longleftrightarrow> byte_in 65 90 c"

definition is_digit :: "char \<Rightarrow> bool" where
  "is_digit c \<longleftrightarrow> byte_in 48 57 c"

definition is_alnum :: "char \<Rightarrow> bool" where
  "is_alnum c \<longleftrightarrow> is_lower c \<or> is_upper c \<or> is_digit c"

lemmas char_class_defs = is_alnum_def is_lower_def is_upper_def is_digit_def byte_in_def

section \<open>Hexadecimal\<close>

text \<open>\<^verbatim>\<open>hex.EncodeToString\<close> and \<^verbatim>\<open>fmt.Sprintf("%x", b)\<close>: two lower case digits per byte.\<close>

definition hex_digit :: "nat \<Rightarrow> char" where
  "hex_digit n = char_of (if n < 10 then 48 + n else 87 + n)"

definition hex_byte :: "char \<Rightarrow> string" where
  "hex_byte c = (let n = of_char c :: nat in [hex_digit (n div 16), hex_digit (n mod 16)])"

definition hex_text :: "string \<Rightarrow> string" where
  "hex_text s = concat (map hex_byte s)"

definition is_hex :: "string \<Rightarrow> bool" where
  "is_hex s \<longleftrightarrow> list_all (\<lambda>c. (let n = of_char c :: nat in 48 \<le> n \<and> n \<le> 57 \<or> 97 \<le> n \<and> n \<le> 102)) s"

lemma of_char_hex_digit: "n < 16 \<Longrightarrow> (of_char (hex_digit n) :: nat) = (if n < 10 then 48 + n else 87 + n)"
  by (simp add: hex_digit_def)

lemma is_hex_text [simp]: "is_hex (hex_text s)"
proof (induction s)
  case Nil
  show ?case by (simp add: is_hex_def hex_text_def)
next
  case (Cons c s)
  have "(of_char c :: nat) div 16 < 16" by (rule less_mult_imp_div_less) simp
  with Cons show ?case by (auto simp: is_hex_def hex_text_def hex_byte_def Let_def of_char_hex_digit)
qed

lemma is_hex_no_colon: "is_hex s \<Longrightarrow> CHR '':'' \<notin> set s"
  by (auto simp: is_hex_def list_all_iff)

end
