(* ===== verification/Models.thy ===== *)
theory Models
  imports Go_Text
begin

text \<open>
  The package \<^verbatim>\<open>models\<close>: the structs the handlers pass to the stores, the validators of
  \<^verbatim>\<open>models/users.go\<close>, and the naming of a user's container and volume in
  \<^verbatim>\<open>models/instance.go\<close>. The lemmas show what each validator accepts and that container
  names fit a host name and never coincide for two user ids.
\<close>

section \<open>The structs\<close>

record User =
  Id :: int
  Email :: string
  First_name :: string
  Last_name :: string
  User_name :: string
  Password :: string
  Verified :: bool

record Instance =
  Ins_Id :: int
  Ins_Uid :: int
  VolumeName :: string
  ContainerName :: string
  InstanceType :: string
  IsRunning :: bool

record WireguardType =
  PublicKey :: string
  IpAddress :: int

record Domain =
  Dom_Uid :: int
  Dom_Name :: string
  Dom_Port :: int

record Tunnels =
  Tun_Name :: string
  Tun_UID :: int
  Tun_Domain :: string
  Tun_IsCustom :: bool

record PGServiceUser =
  Pg_Uid :: int
  Pg_UserName :: string
  Pg_Password :: string

record PGServiceDatabase =
  Pg_Pid :: int
  Pg_DbName :: string

definition CreatePgServiceDatabase :: "int \<Rightarrow> string \<Rightarrow> PGServiceDatabase" where
  "CreatePgServiceDatabase pid dbName = \<lparr>Pg_Pid = pid, Pg_DbName = dbName\<rparr>"

definition CreateWireguardType :: "string \<Rightarrow> int \<Rightarrow> WireguardType" where
  "CreateWireguardType pubkey ipaddr = \<lparr>PublicKey = pubkey, IpAddress = ipaddr\<rparr>"

definition CreateTunnel_model :: "int \<Rightarrow> string \<Rightarrow> bool \<Rightarrow> string \<Rightarrow> Tunnels" where
  "CreateTunnel_model uid domain isCustom name =
     \<lparr>Tun_Name = name, Tun_UID = uid, Tun_Domain = domain, Tun_IsCustom = isCustom\<rparr>"

definition CreatePgServiceUser :: "int \<Rightarrow> string \<Rightarrow> string \<Rightarrow> PGServiceUser" where
  "CreatePgServiceUser uid userName password =
     \<lparr>Pg_Uid = uid, Pg_UserName = userName, Pg_Password = password\<rparr>"

text \<open>The structs of \<^verbatim>\<open>models/web/web.go\<close> that results are reported in.\<close>

record web_Instance =
  Wi_ContainerID :: string
  Wi_Success :: bool
  Wi_Username :: string
  Wi_Password :: string
  Wi_IP :: string

definition zero_web_Instance :: web_Instance where
  "zero_web_Instance =
     \<lparr>Wi_ContainerID = [], Wi_Success = False, Wi_Username = [], Wi_Password = [], Wi_IP = []\<rparr>"

record InsData =
  Id_ContainerName :: string
  Id_Username :: string
  Id_InstanceStatus :: string
  Id_Active :: string
  Id_Instance :: web_Instance

record web_Domain =
  Wd_Name :: string
  Wd_Port :: int
  Wd_Status :: string

record web_User =
  Wu_Role :: string
  Wu_Username :: string
  Wu_Password :: string
  Wu_ID :: int
  Wu_Permissions :: string

record web_Database =
  Wb_Name :: string
  Wb_Owner :: string

section \<open>Runes of a string\<close>

function runes :: "string \<Rightarrow> string list" where
  "runes [] = []"
| "runes (c # cs) = (let w = rune_width c cs in (c # take (w - 1) cs) # runes (drop (w - 1) cs))"
  by pat_completeness auto
termination
  by (relation "measure length") auto

text \<open>An ASCII byte of a string is a rune of its own.\<close>

lemma runes_ascii_byte:
  assumes "(of_char b :: nat) < 128"
  shows "b \<in> set s \<longleftrightarrow> [b] \<in> set (runes s)"
proof (induction s rule: runes.induct)
  case 1
  then show ?case by simp
next
  case (2 c cs)
  define w where "w = rune_width c cs"
  have IH: "b \<in> set (drop (w - 1) cs) \<longleftrightarrow> [b] \<in> set (runes (drop (w - 1) cs))"
    using 2 by (simp add: w_def)
  have tail: "b \<notin> set (take (w - 1) cs)"
    using rune_width_tail [of b c cs] assms by (auto simp: w_def)
  have "b \<in> set cs \<longleftrightarrow> b \<in> set (drop (w - 1) cs)"
    using tail by (metis Un_iff append_take_drop_id set_append)
  moreover have "[b] = c # take (w - 1) cs \<longleftrightarrow> b = c"
    using rune_width_ascii [of c cs] assms by (auto simp: w_def)
  ultimately show ?case using IH by (auto simp: w_def [symmetric] Let_def)
qed

lemma runes_ascii: "(\<And>b. b \<in> set s \<Longrightarrow> (of_char b :: nat) < 128) \<Longrightarrow> runes s = map (\<lambda>b. [b]) s"
  by (induction s) (simp_all add: rune_width_ascii)

section \<open>Validation of user input\<close>

definition fold_case :: "char \<Rightarrow> char" where
  "fold_case c = (if is_upper c then char_of ((of_char c :: nat) + 32) else c)"

text \<open>
  \<^verbatim>\<open>(?i)[a-zA-Z0-9._%+\-]\<close> at the head of a string: the number of bytes it matches, 0 if
  it does not. Case folding adds the long s (bytes C5 BF) and the Kelvin sign (E2 84 AA).
\<close>

definition email_char :: "char \<Rightarrow> bool" where
  "email_char c \<longleftrightarrow> is_alnum c \<or> c \<in> set ''._%+-''"

definition local_width :: "string \<Rightarrow> nat" where
  "local_width s =
     (case s of [] \<Rightarrow> 0
      | c # _ \<Rightarrow> if email_char c then 1
          else if starts_with [CHR 0xC5, CHR 0xBF] s then 2
          else if starts_with [CHR 0xE2, CHR 0x84, CHR 0xAA] s then 3
          else 0)"

lemma local_width_decreases: "0 < local_width s \<Longrightarrow> length s - local_width s < length s"
  by (cases s) (simp_all add: local_width_def)

function skip_local :: "string \<Rightarrow> string" where
  "skip_local s = (if local_width s = 0 then s else skip_local (drop (local_width s) s))"
  by pat_completeness auto
termination
  by (relation "measure length") (simp_all add: local_width_decreases)

declare skip_local.simps [simp del]

definition gmail_suffix :: "string \<Rightarrow> bool" where
  "gmail_suffix s \<longleftrightarrow> map fold_case s = ''@gmail.com''"

definition ValidateEmail :: "User \<Rightarrow> bool" where
  "ValidateEmail u \<longleftrightarrow>
     (let rest = skip_local (Email u)
      in rest \<noteq> Email u \<and> gmail_suffix rest)"

definition password_specials :: string where
  "password_specials =
     ''!@#$%^&*()-_=+[]{}|;:'' @ [CHR 0x27, CHR 0x22] @ '',.<>/?''"

record password_flags =
  hasUpper :: bool
  hasLower :: bool
  hasNumber :: bool
  hasSpecial :: bool

text \<open>The \<^verbatim>\<open>switch\<close> in the loop body of \<^verbatim>\<open>ValidatePassword\<close>, for one rune.\<close>

definition password_step :: "string \<Rightarrow> password_flags \<Rightarrow> password_flags" where
  "password_step r f =
     (case r of
        [c] \<Rightarrow> if is_lower c then f\<lparr>hasLower := True\<rparr>
               else if is_upper c then f\<lparr>hasUpper := True\<rparr>
               else if is_digit c then f\<lparr>hasNumber := True\<rparr>
               else if c \<in> set password_specials then f\<lparr>hasSpecial := True\<rparr>
               else f
      | _ \<Rightarrow> f)"

definition ValidatePassword :: "User \<Rightarrow> bool" where
  "ValidatePassword u \<longleftrightarrow>
     (if length (Password u) < 8 then False
      else let f = fold password_step (runes (Password u))
                 \<lparr>hasUpper = False, hasLower = False, hasNumber = False, hasSpecial = False\<rparr>
           in hasUpper f \<and> hasLower f \<and> hasNumber f \<and> hasSpecial f)"

text \<open>\<^verbatim>\<open>^[a-zA-Z][a-zA-Z0-9._]{4,29}$\<close>\<close>

definition ValidateUserName :: "User \<Rightarrow> bool" where
  "ValidateUserName u \<longleftrightarrow>
     (case User_name u of
        [] \<Rightarrow> False
      | c # cs \<Rightarrow> (is_lower c \<or> is_upper c) \<and> list_all (\<lambda>d. is_alnum d \<or> d \<in> set ''._'') cs \<and>
          4 \<le> length cs \<and> length cs \<le> 29)"

text \<open>\<^verbatim>\<open>^[A-Za-z'.-]{2,30}$\<close>\<close>

definition name_ok :: "string \<Rightarrow> bool" where
  "name_ok s \<longleftrightarrow>
     list_all (\<lambda>c. is_lower c \<or> is_upper c \<or> c \<in> {CHR 0x27, CHR ''.'', CHR ''-''}) s \<and>
     2 \<le> length s \<and> length s \<le> 30"

definition ValidateFLNames :: "User \<Rightarrow> bool" where
  "ValidateFLNames u \<longleftrightarrow> name_ok (First_name u) \<and> name_ok (Last_name u)"

section \<open>Names of a user's container and volume\<close>

text \<open>\<^verbatim>\<open>regexp.MustCompile("[^a-zA-Z0-9]").ReplaceAllString(s, "-")\<close>: rune by rune.\<close>

definition sanitize_rune :: "string \<Rightarrow> string" where
  "sanitize_rune r = (case r of [c] \<Rightarrow> if is_alnum c then [c] else ''-'' | _ \<Rightarrow> ''-'')"

definition sanitize :: "string \<Rightarrow> string" where
  "sanitize s = concat (map sanitize_rune (runes s))"

definition maxLen :: nat where
  "maxLen = 63"

definition suffixInstance :: string where
  "suffixInstance = ''-instance''"

definition suffixVolume :: string where
  "suffixVolume = ''_volume''"

definition CreateInstanceType :: "int \<Rightarrow> string \<Rightarrow> Instance" where
  "CreateInstanceType uid userName =
     (let safeUserName = sanitize userName;
          base0 = itoa uid @ ''-'' @ safeUserName;
          maxBaseLen = maxLen - length suffixInstance;
          base = (if length base0 > maxBaseLen then take maxBaseLen base0 else base0);
          containerName = base @ suffixInstance;
          maxBaseLen = maxLen - length suffixVolume;
          volumeBase = (if length base > maxBaseLen then take maxBaseLen base else base);
          volumeName = volumeBase @ suffixVolume
      in \<lparr>Ins_Id = 0, Ins_Uid = uid, VolumeName = volumeName, ContainerName = containerName,
          InstanceType = ''core'', IsRunning = False\<rparr>)"

section \<open>What the password check accepts\<close>

lemma password_special_class:
  "c \<in> set password_specials \<Longrightarrow> (of_char c :: nat) < 128 \<and> \<not> is_lower c \<and> \<not> is_upper c \<and> \<not> is_digit c"
  by (auto simp: password_specials_def char_class_defs)

lemma password_step_flags:
  "hasLower (password_step r f) \<longleftrightarrow> hasLower f \<or> (\<exists>c. r = [c] \<and> is_lower c)"
  "hasUpper (password_step r f) \<longleftrightarrow> hasUpper f \<or> (\<exists>c. r = [c] \<and> is_upper c)"
  "hasNumber (password_step r f) \<longleftrightarrow> hasNumber f \<or> (\<exists>c. r = [c] \<and> is_digit c)"
  "hasSpecial (password_step r f) \<longleftrightarrow> hasSpecial f \<or> (\<exists>c. r = [c] \<and> c \<in> set password_specials)"
  by (auto simp: password_step_def is_lower_def is_upper_def is_digit_def byte_in_def
      dest: password_special_class split: list.splits)

lemma hasLower_fold:
  "hasLower (fold password_step rs f) \<longleftrightarrow> hasLower f \<or> (\<exists>c. [c] \<in> set rs \<and> is_lower c)"
  by (induction rs arbitrary: f) (auto simp add: password_step_flags)

lemma hasUpper_fold:
  "hasUpper (fold password_step rs f) \<longleftrightarrow> hasUpper f \<or> (\<exists>c. [c] \<in> set rs \<and> is_upper c)"
  by (induction rs arbitrary: f) (auto simp add: password_step_flags)

lemma hasNumber_fold:
  "hasNumber (fold password_step rs f) \<longleftrightarrow> hasNumber f \<or> (\<exists>c. [c] \<in> set rs \<and> is_digit c)"
  by (induction rs arbitrary: f) (auto simp add: password_step_flags)

lemma hasSpecial_fold:
  "hasSpecial (fold password_step rs f) \<longleftrightarrow>
     hasSpecial f \<or> (\<exists>c. [c] \<in> set rs \<and> c \<in> set password_specials)"
  by (induction rs arbitrary: f) (auto simp add: password_step_flags)

lemmas password_flags_fold = hasLower_fold hasUpper_fold hasNumber_fold hasSpecial_fold

lemma class_byte_runes:
  assumes "\<And>c. P c \<Longrightarrow> (of_char c :: nat) < 128"
  shows "(\<exists>c. [c] \<in> set (runes s) \<and> P c) \<longleftrightarrow> (\<exists>c \<in> set s. P c)"
  using assms runes_ascii_byte by blast


section \<open>What the e-mail check accepts\<close>

text \<open>The expression read declaratively: one or more atoms of the class, then the literal.\<close>

definition email_atom :: "string \<Rightarrow> bool" where
  "email_atom a \<longleftrightarrow> (\<exists>c. a = [c] \<and> email_char c) \<or> a = [CHR 0xC5, CHR 0xBF] \<or>
     a = [CHR 0xE2, CHR 0x84, CHR 0xAA]"

lemma starts_withD: "starts_with p s \<Longrightarrow> \<exists>t. s = p @ t"
  by (induction p s rule: starts_with.induct) auto

lemma not_email_char: "\<not> email_char (CHR 0xC5)" "\<not> email_char (CHR 0xE2)" "\<not> email_char (CHR ''@'')"
  "\<not> email_char (CHR '':'')"
  by (simp_all add: email_char_def char_class_defs)

lemma local_width_atom: "email_atom a \<Longrightarrow> local_width (a @ s) = length a"
  by (auto simp: email_atom_def local_width_def not_email_char)

lemma local_width_take: "0 < local_width s \<Longrightarrow> email_atom (take (local_width s) s)"
  by (auto simp: local_width_def email_atom_def dest!: starts_withD split: list.splits if_splits)

lemma skip_local_atoms:
  "\<exists>as. s = concat as @ skip_local s \<and> (\<forall>a \<in> set as. email_atom a) \<and> (as = [] \<longleftrightarrow> skip_local s = s)"
proof (induction s rule: skip_local.induct)
  case (1 s)
  show ?case
  proof (cases "local_width s = 0")
    case True
    then show ?thesis by (intro exI [of _ "[]"]) (simp add: skip_local.simps [of s])
  next
    case False
    define t where "t = drop (local_width s) s"
    have eq: "skip_local s = skip_local t"
      using False by (simp add: skip_local.simps [of s] t_def)
    from 1 False obtain as where as: "t = concat as @ skip_local t" "\<forall>a \<in> set as. email_atom a"
      by (auto simp: t_def)
    have "s = take (local_width s) s @ t" by (simp add: t_def)
    with as eq have s: "s = concat (take (local_width s) s # as) @ skip_local s" by simp
    have "length s > length t" using False local_width_decreases [of s] by (simp add: t_def)
    moreover have "length (skip_local t) \<le> length t" using as(1) by (metis length_append le_add2)
    ultimately have "skip_local s \<noteq> s" using eq by auto
    with s as(2) local_width_take [of s] False show ?thesis
      by (intro exI [of _ "take (local_width s) s # as"]) simp
  qed
qed

lemma skip_local_concat:
  assumes "\<forall>a \<in> set as. email_atom a" and "local_width d = 0"
  shows "skip_local (concat as @ d) = d"
  using assms(1)
proof (induction as)
  case Nil
  with assms(2) show ?case by (simp add: skip_local.simps [of d])
next
  case (Cons a as)
  then have "local_width (a @ concat as @ d) = length a" and "a \<noteq> []"
    using local_width_atom by (auto simp: email_atom_def)
  with Cons show ?case by (subst skip_local.simps) simp
qed

lemma fold_case_upper: "is_upper c \<Longrightarrow> is_lower (fold_case c)"
  by (simp add: fold_case_def is_upper_def is_lower_def byte_in_def)

lemma fold_case_nonletter: "\<not> is_lower x \<Longrightarrow> \<not> is_upper x \<Longrightarrow> fold_case c = x \<longleftrightarrow> c = x"
  using fold_case_upper [of c] by (auto simp: fold_case_def)

lemma fold_case_at: "fold_case c = CHR ''@'' \<longleftrightarrow> c = CHR ''@''"
  by (rule fold_case_nonletter) (simp_all add: char_class_defs)

lemma fold_case_colon: "fold_case c = CHR '':'' \<longleftrightarrow> c = CHR '':''"
  by (rule fold_case_nonletter) (simp_all add: char_class_defs)

lemma gmail_suffix_width: "gmail_suffix d \<Longrightarrow> local_width d = 0"
  unfolding gmail_suffix_def
  by (cases d) (simp_all add: fold_case_at local_width_def not_email_char)

lemma gmail_suffix_colon:
  assumes "gmail_suffix d"
  shows "CHR '':'' \<notin> set d"
proof
  assume "CHR '':'' \<in> set d"
  then have "fold_case (CHR '':'') \<in> set (map fold_case d)" by (simp only: set_map imageI)
  with assms show False
    unfolding gmail_suffix_def fold_case_colon [THEN iffD2, OF refl] by simp
qed

lemma email_atom_nonempty: "email_atom a \<Longrightarrow> a \<noteq> []"
  by (auto simp: email_atom_def)

lemma email_atom_colon: "email_atom a \<Longrightarrow> CHR '':'' \<notin> set a"
  using not_email_char(4) by (auto simp: email_atom_def)

lemma ValidateEmail_language:
  "ValidateEmail u \<longleftrightarrow>
     (\<exists>as d. as \<noteq> [] \<and> (\<forall>a \<in> set as. email_atom a) \<and> Email u = concat as @ d \<and> gmail_suffix d)"
  (is "_ \<longleftrightarrow> ?R")
proof
  assume v: "ValidateEmail u"
  obtain as where "Email u = concat as @ skip_local (Email u)" "\<forall>a \<in> set as. email_atom a"
    "as = [] \<longleftrightarrow> skip_local (Email u) = Email u"
    using skip_local_atoms by blast
  with v show ?R unfolding ValidateEmail_def Let_def by blast
next
  assume ?R
  then obtain as d where as: "as \<noteq> []" "\<forall>a \<in> set as. email_atom a" "Email u = concat as @ d"
    "gmail_suffix d" by blast
  then have "skip_local (Email u) = d" by (simp add: skip_local_concat gmail_suffix_width)
  moreover have "concat as \<noteq> []" using as(1,2) by (cases as) (simp_all add: email_atom_nonempty)
  ultimately show "ValidateEmail u" using as(3,4) by (simp add: ValidateEmail_def)
qed

text \<open>A validated address has no colon, so it survives being cut out between colons.\<close>

lemma ValidateEmail_no_colon: "ValidateEmail u \<Longrightarrow> CHR '':'' \<notin> set (Email u)"
  unfolding ValidateEmail_language
  using gmail_suffix_colon email_atom_colon by fastforce

text \<open>C23: \<open>ValidateEmail\<close>, read as the greedy left-to-right scan its regular expression performs,
  accepts exactly the language the expression denotes: a non-empty sequence of atoms of the
  character class (with its two non-ASCII case variants) followed by \<open>@gmail.com\<close> in any case.\<close>

theorem ValidateEmail_iff:
  "ValidateEmail u \<longleftrightarrow>
     (\<exists>as d. as \<noteq> [] \<and> list_all email_atom as \<and> Email u = concat as @ d \<and>
        map fold_case d = ''@gmail.com'')"
  unfolding ValidateEmail_language gmail_suffix_def list_all_iff ..

section \<open>Container and volume names\<close>

text \<open>The name before it is cut to length.\<close>

definition instance_base :: "int \<Rightarrow> string \<Rightarrow> string" where
  "instance_base uid userName = itoa uid @ ''-'' @ sanitize userName"

lemma sanitize_rune_chars: "c \<in> set (sanitize_rune r) \<Longrightarrow> is_alnum c \<or> c = CHR ''-''"
  by (auto simp: sanitize_rune_def split: list.split_asm if_split_asm)

lemma sanitize_chars: "c \<in> set (sanitize s) \<Longrightarrow> is_alnum c \<or> c = CHR ''-''"
  by (auto simp: sanitize_def dest: sanitize_rune_chars)

lemma itoa_chars: "c \<in> set (itoa n) \<Longrightarrow> is_alnum c \<or> c = CHR ''-''"
  using nat_digits_chars by (auto simp: itoa_def char_class_defs split: if_splits)

lemma ContainerName_eq:
  "ContainerName (CreateInstanceType uid userName) = take 54 (instance_base uid userName) @ ''-instance''"
  by (simp add: CreateInstanceType_def instance_base_def maxLen_def suffixInstance_def Let_def)

lemma VolumeName_eq:
  "VolumeName (CreateInstanceType uid userName) = take 54 (instance_base uid userName) @ ''_volume''"
  by (simp add: CreateInstanceType_def instance_base_def maxLen_def suffixInstance_def
      suffixVolume_def Let_def)

lemma base_inject:
  assumes "int64_range uid" "int64_range uid'"
    and "take 54 (instance_base uid n) = take 54 (instance_base uid' n')"
  shows "uid = uid'"
proof -
  have prefix: "take 54 (instance_base k m) =
      itoa k @ CHR ''-'' # take (53 - length (itoa k)) (sanitize m)" if "int64_range k" for k m
  proof -
    have "54 - length (itoa k) = Suc (53 - length (itoa k))"
      using itoa_length [OF that] by simp
    then show ?thesis
      using itoa_length [OF that] by (simp add: instance_base_def)
  qed
  from assms show ?thesis
    using prefix itoa_dash_inject by (metis (no_types))
qed

lemma ContainerName_inject:
  assumes "int64_range uid" "int64_range uid'"
    and "ContainerName (CreateInstanceType uid n) = ContainerName (CreateInstanceType uid' n')"
  shows "uid = uid'"
  using assms(3) base_inject [OF assms(1,2)] by (simp add: ContainerName_eq)

lemma VolumeName_inject:
  assumes "int64_range uid" "int64_range uid'"
    and "VolumeName (CreateInstanceType uid n) = VolumeName (CreateInstanceType uid' n')"
  shows "uid = uid'"
  using assms(3) base_inject [OF assms(1,2)] by (simp add: VolumeName_eq)

text \<open>Whatever the user name, the container name built by \<open>CreateInstanceType\<close> has at most 63
  bytes, all of them ASCII letters, digits or dashes, so it is a legal host label and, used as the
  file name of an nginx configuration, stays inside the configuration directory.\<close>

lemma ContainerName_host_label:
  "length (ContainerName (CreateInstanceType uid userName)) \<le> 63 \<and>
   list_all (\<lambda>c. is_alnum c \<or> c = CHR ''-'') (ContainerName (CreateInstanceType uid userName))"
proof -
  have "is_alnum c \<or> c = CHR ''-''" if "c \<in> set ''-instance''" for c
    using that by (auto simp: char_class_defs)
  moreover have "is_alnum c \<or> c = CHR ''-''" if "c \<in> set (instance_base uid userName)" for c
    using that sanitize_chars itoa_chars by (auto simp: instance_base_def)
  ultimately show ?thesis
    unfolding ContainerName_eq list_all_iff by (auto dest!: in_set_takeD)
qed

text \<open>C21: the container names and the volume names of two different users are different, whatever
  their user names are and however much of the name is cut off: the user id and the dash after it
  always survive the truncation. (User ids are Go ints, so 64 bits wide.)\<close>

theorem CreateInstanceType_separates_users:
  assumes "int64_range uid" and "int64_range uid'" and "uid \<noteq> uid'"
  shows "ContainerName (CreateInstanceType uid userName) \<noteq> ContainerName (CreateInstanceType uid' userName') \<and>
         VolumeName (CreateInstanceType uid userName) \<noteq> VolumeName (CreateInstanceType uid' userName')"
  using assms ContainerName_inject VolumeName_inject by blast

theorem CreateInstanceType_separates_users_witness:
  "ContainerName (CreateInstanceType 1 ''bob'') \<noteq> ContainerName (CreateInstanceType 11 ''bob'') \<and>
   VolumeName (CreateInstanceType 1 ''bob'') \<noteq> VolumeName (CreateInstanceType 11 ''bob'')"
  by (rule CreateInstanceType_separates_users) (simp_all add: int64_range_def)

lemma CreateInstanceType_example:
  "ContainerName (CreateInstanceType 1 ''testuser'') = ''1-testuser-instance''"
  "VolumeName (CreateInstanceType 1 ''testuser'') = ''1-testuser_volume''"
  by code_simp+

end
