(* ===== verification/Wireguard_Store.thy ===== *)
theory Wireguard_Store
  imports Alloc_Tx Models
begin

text \<open>
  \<^verbatim>\<open>internal/store/wg.go\<close>: the methods of \<^verbatim>\<open>WireguardStore\<close> over the table
  \<^verbatim>\<open>wgpeer\<close>. The lemmas give what each method does to the table, and that a user's
  devices stay within the limit as long as the methods run one after the other.
\<close>

section \<open>The methods\<close>

definition peer_of :: "wg_row \<Rightarrow> WireguardType" where
  "peer_of r = \<lparr>PublicKey = wg_key r, IpAddress = wg_ip r\<rparr>"

text \<open>The loop over \<^verbatim>\<open>rows.Next()\<close> does not look at \<^verbatim>\<open>rows.Err()\<close>.\<close>

definition GetDevices :: "int \<Rightarrow> (db, WireguardType list) prog" where
  "GetDevices uid =
     tri (serve_rows (\<lambda>t. map peer_of (filter (\<lambda>r. wg_user r = uid) (wgpeers t))))
       (\<lambda>rows. ret (fst rows))"

definition HitMaxLimit :: "int \<Rightarrow> (db, bool) prog" where
  "HitMaxLimit uid =
     tri (serve (sql_read (\<lambda>t. Ok (rows_matching (\<lambda>r. wg_user r = uid) (wgpeers t)))))
       (\<lambda>numberOfDevices.
          if numberOfDevices = MAX_WG_DEVICES_PER_USER then ret True else ret False)"

definition AddPeer_store :: "int \<Rightarrow> WireguardType \<Rightarrow> (db, unit) prog" where
  "AddPeer_store uid wgType =
     tri (HitMaxLimit uid)
       (\<lambda>maxHit.
          if maxHit then fail (ErrText WG_DEVICE_LIMIT)
          else serve (sql_insert_wgpeer uid (PublicKey wgType) (IpAddress wgType)))"

definition RemovePeer_store :: "string \<Rightarrow> int \<Rightarrow> (db, int) prog" where
  "RemovePeer_store pubKey uid =
     handle (serve (sql_delete_wgpeer pubKey uid))
       (\<lambda>e. if e = ErrNoRows then fail (ErrText PEER_DOES_NOT_EXIST) else fail e)
       ret"

definition wg_column :: "tables \<Rightarrow> int list" where
  "wg_column t = map wg_ip (wgpeers t)"

definition AllocateNextFreeIP_wg :: "int \<Rightarrow> int \<Rightarrow> WireguardType \<Rightarrow> (db, int) prog" where
  "AllocateNextFreeIP_wg maxHostNumber uid wgType =
     tri (HitMaxLimit uid)
       (\<lambda>maxHit.
          if maxHit then fail (ErrText WG_DEVICE_LIMIT)
          else tx_loop maxRetries
                 (tx_attempt wg_column (sql_insert_wgpeer uid (PublicKey wgType)) maxHostNumber) 0)"

section \<open>What the methods keep\<close>

lemmas wg_store_defs =
  GetDevices_def HitMaxLimit_def AddPeer_store_def RemovePeer_store_def AllocateNextFreeIP_wg_def

lemma wg_store_schema [keeps_intros]:
  "keeps (holds schema_ok) (GetDevices uid)"
  "keeps (holds schema_ok) (HitMaxLimit uid)"
  "keeps (holds schema_ok) (AddPeer_store uid wg)"
  "keeps (holds schema_ok) (RemovePeer_store key uid)"
  "keeps (holds schema_ok) (AllocateNextFreeIP_wg m uid wg)"
  unfolding wg_store_defs by (intro keeps_intros schema_keeps; assumption)+

lemma wg_store_quiet [quiet_intros]:
  "quiet (GetDevices uid)" "quiet (HitMaxLimit uid)" "quiet (AddPeer_store uid wg)"
  "quiet (RemovePeer_store key uid)" "quiet (AllocateNextFreeIP_wg m uid wg)"
  unfolding wg_store_defs by (intro quiet_intros quiet_tx_loop sql_no_crash)+

section \<open>A user's devices\<close>

definition devices :: "int \<Rightarrow> tables \<Rightarrow> wg_row list" where
  "devices uid t = filter (\<lambda>r. wg_user r = uid) (wgpeers t)"

definition within_device_limit :: "tables \<Rightarrow> bool" where
  "within_device_limit t \<longleftrightarrow> (\<forall>uid. int (length (devices uid t)) \<le> MAX_WG_DEVICES_PER_USER)"

lemma HitMaxLimit_state: "HitMaxLimit uid (t, as) = (r, (t', as')) \<Longrightarrow> t' = t"
  using serve_read_state [of "\<lambda>t. Ok (rows_matching (\<lambda>r. wg_user r = uid) (wgpeers t))" "(t, as)"]
  by (auto simp: HitMaxLimit_def prog_defs split: prod.splits res.splits if_splits)

lemma HitMaxLimit_Ok:
  assumes "HitMaxLimit uid (t, as) = (Ok b, s')"
  shows "b \<longleftrightarrow> int (length (devices uid t)) = MAX_WG_DEVICES_PER_USER"
proof -
  from assms obtain n s1 where "serve (sql_read (\<lambda>t. Ok (rows_matching (\<lambda>r. wg_user r = uid) (wgpeers t)))) (t, as) = (Ok n, s1)"
    and "(if n = 3 then ret True else ret False) s1 = (Ok b, s')"
    unfolding HitMaxLimit_def by (rule tri_OkE)
  moreover from this(1) have "n = int (length (devices uid t))"
    by (auto dest!: serve_OkD simp: sql_read_def rows_matching_def devices_def)
  ultimately show ?thesis by (auto simp: ret_def split: if_splits)
qed

lemma HitMaxLimit_conflicts:
  "HitMaxLimit uid (t, as) = (r, (t', as')) \<Longrightarrow> conflicts as' \<le> conflicts as"
  unfolding HitMaxLimit_def
  by (auto simp: prog_defs split: prod.splits res.splits if_splits dest: serve_conflicts(1))

lemma devices_insert:
  assumes "sql_insert_wgpeer uid key ip t = (Ok (), t')"
  shows "wgpeers t' = wgpeers t @ [\<lparr>wg_user = uid, wg_key = key, wg_ip = ip\<rparr>]"
    and "devices v t' = devices v t @ (if v = uid then [\<lparr>wg_user = uid, wg_key = key, wg_ip = ip\<rparr>] else [])"
    and "key \<notin> wg_key ` set (wgpeers t)" and "ip \<notin> set (wg_column t)"
  using assms by (auto simp: sql_insert_wgpeer_def devices_def list_ex_iff wg_column_def split: if_splits)

lemma insert_wgpeer_result:
  "sql_insert_wgpeer uid key ip t = (r, t') \<Longrightarrow> r \<noteq> Ok () \<Longrightarrow> t' = t"
  by (auto simp: sql_insert_wgpeer_def split: if_splits)

lemma plain_insert_wgpeer: "plain_insert (sql_insert_wgpeer uid key)"
  by (auto simp: plain_insert_def sql_insert_wgpeer_def violation_defs serialization_failure_def
      split: if_splits)

lemma wg_insert_limit:
  assumes "within_device_limit t" and "int (length (devices uid t)) \<noteq> MAX_WG_DEVICES_PER_USER"
  shows "within_device_limit (snd (sql_insert_wgpeer uid key ip t))"
proof (cases "fst (sql_insert_wgpeer uid key ip t) = Ok ()")
  case True
  then have "sql_insert_wgpeer uid key ip t = (Ok (), snd (sql_insert_wgpeer uid key ip t))"
    by (metis prod.collapse)
  note dev = devices_insert(2) [OF this]
  have "length (devices uid t) \<le> 2"
    using assms by (auto simp: within_device_limit_def dest!: spec [of _ uid])
  with assms(1) dev show ?thesis by (simp add: within_device_limit_def)
next
  case False
  then have "snd (sql_insert_wgpeer uid key ip t) = t"
    by (metis insert_wgpeer_result prod.collapse)
  with assms(1) show ?thesis by simp
qed

lemma RemovePeer_limit:
  "within_device_limit t \<Longrightarrow> within_device_limit (snd (sql_delete_wgpeer key uid t))"
proof -
  assume lim: "within_device_limit t"
  have "length (filter P (filter Q xs)) \<le> length (filter P xs)" for P Q and xs :: "wg_row list"
    by (induction xs) auto
  with lim show ?thesis
    unfolding within_device_limit_def devices_def sql_delete_wgpeer_def Let_def
    by (auto split: list.split simp del: filter_filter) (meson le_trans of_nat_le_iff)
qed

lemma AddPeer_limit: "keeps (holds within_device_limit) (AddPeer_store uid wg)"
proof (rule keepsI)
  fix s assume I: "holds within_device_limit s"
  obtain t as where s: "s = (t, as)" by (cases s)
  obtain r t1 as1 where h: "HitMaxLimit uid (t, as) = (r, (t1, as1))" by (metis prod.exhaust)
  have t1: "t1 = t" using h by (rule HitMaxLimit_state)
  show "holds within_device_limit (snd (AddPeer_store uid wg s))"
  proof (cases "r = Ok False")
    case True
    with h have "int (length (devices uid t)) \<noteq> 3" using HitMaxLimit_Ok by blast
    then have "within_device_limit (snd (sql_insert_wgpeer uid (PublicKey wg) (IpAddress wg) t))"
      using I s by (intro wg_insert_limit) simp_all
    with True I s h t1 serve_state [of "sql_insert_wgpeer uid (PublicKey wg) (IpAddress wg)" "(t, as1)"]
    show ?thesis by (auto simp: AddPeer_store_def tri_eq holds_def)
  next
    case False
    with I s h t1 show ?thesis
      by (cases r) (auto simp: AddPeer_store_def prog_defs)
  qed
qed

text \<open>
  Inside the allocation loop a second insert of the same key is refused, so a commit whose answer
  was lost does not let the retry add a second row.
\<close>

definition limit_or_added :: "int \<Rightarrow> string \<Rightarrow> tables \<Rightarrow> bool" where
  "limit_or_added uid key t \<longleftrightarrow> within_device_limit t \<and>
     (int (length (devices uid t)) \<noteq> MAX_WG_DEVICES_PER_USER \<or> key \<in> wg_key ` set (wgpeers t))"

lemma limit_or_added_insert:
  assumes "limit_or_added uid key t" and "attempt_insert col (sql_insert_wgpeer uid key) m t ip t'"
  shows "limit_or_added uid key t'"
proof -
  from assms(2) have ins: "sql_insert_wgpeer uid key ip t = (Ok (), t')" by (rule attempt_insertD)
  from devices_insert(3) [OF ins] assms(1) have "int (length (devices uid t)) \<noteq> 3"
    by (auto simp: limit_or_added_def)
  then have "within_device_limit t'"
    using wg_insert_limit [of t uid key ip] assms(1) ins by (simp add: limit_or_added_def)
  moreover have "key \<in> wg_key ` set (wgpeers t')" using devices_insert(1) [OF ins] by simp
  ultimately show ?thesis by (simp add: limit_or_added_def)
qed

lemma AllocateNextFreeIP_limit: "keeps (holds within_device_limit) (AllocateNextFreeIP_wg m uid wg)"
proof (rule keepsI)
  fix s assume I: "holds within_device_limit s"
  obtain t as where s: "s = (t, as)" by (cases s)
  obtain r t1 as1 where h: "HitMaxLimit uid (t, as) = (r, (t1, as1))" by (metis prod.exhaust)
  have t1: "t1 = t" using h by (rule HitMaxLimit_state)
  define loop where "loop = tx_loop maxRetries (tx_attempt wg_column (sql_insert_wgpeer uid (PublicKey wg)) m) 0"
  show "holds within_device_limit (snd (AllocateNextFreeIP_wg m uid wg s))"
  proof (cases "r = Ok False")
    case True
    with h have "int (length (devices uid t)) \<noteq> 3" using HitMaxLimit_Ok by blast
    with I s have "holds (limit_or_added uid (PublicKey wg)) (t, as1)" by (simp add: limit_or_added_def)
    moreover have "keeps (holds (limit_or_added uid (PublicKey wg))) loop"
      unfolding loop_def by (rule tx_loop_keeps) (rule limit_or_added_insert)
    ultimately have "holds (limit_or_added uid (PublicKey wg)) (snd (loop (t, as1)))"
      by (rule keepsD [rotated])
    with True s h t1 show ?thesis
      by (simp add: AllocateNextFreeIP_wg_def tri_eq loop_def [symmetric] holds_def limit_or_added_def)
  next
    case False
    with I s h t1 show ?thesis
      by (cases r) (auto simp: AllocateNextFreeIP_wg_def prog_defs)
  qed
qed

lemma RemovePeer_store_limit: "keeps (holds within_device_limit) (RemovePeer_store key uid)"
  unfolding RemovePeer_store_def
  by (intro keeps_intros keeps_serve RemovePeer_limit)

section \<open>Allocation\<close>

lemma AllocateNextFreeIP_wg_committed:
  assumes "AllocateNextFreeIP_wg m uid wg (t, as) = (Ok ip, (t', as'))" and "conflicts as < maxRetries"
  shows "ip \<notin> set (wg_column t) \<and> (2 \<le> m \<longrightarrow> ip \<le> m) \<and>
    \<lparr>wg_user = uid, wg_key = PublicKey wg, wg_ip = ip\<rparr> \<in> set (wgpeers t')"
proof -
  define I where "I = (\<lambda>u. set (wg_column t) \<subseteq> set (wg_column u))"
  let ?ins = "sql_insert_wgpeer uid (PublicKey wg)"
  obtain r t1 as1 where h: "HitMaxLimit uid (t, as) = (r, (t1, as1))" by (metis prod.exhaust)
  then have t1: "t1 = t" by (rule HitMaxLimit_state)
  from assms(1) h t1 have loop: "tx_loop maxRetries (tx_attempt wg_column ?ins m) 0 (t, as1) = (Ok ip, (t', as'))"
    by (cases r) (auto simp: AllocateNextFreeIP_wg_def prog_defs split: if_splits)
  have few: "conflicts as1 < maxRetries" using HitMaxLimit_conflicts [OF h] assms(2) by simp
  have step: "I u \<Longrightarrow> attempt_insert wg_column ?ins m u k u' \<Longrightarrow> I u'" for u k u'
    using devices_insert(1) by (fastforce simp: I_def attempt_insert_def wg_column_def)
  have "I t" by (simp add: I_def)
  with step plain_insert_wgpeer loop few have "\<exists>u. I u \<and> attempt_insert wg_column ?ins m u ip t'"
    by (rule tx_loop_committed)
  then obtain u where u: "I u" "attempt_insert wg_column ?ins m u ip t'" by blast
  then have "ip \<notin> set (wg_column u)" by (simp add: attempt_insert_def next_ip_not_in)
  moreover have "2 \<le> m \<longrightarrow> ip \<le> m" using u(2) by (auto simp: attempt_insert_def next_ip_def)
  moreover have "\<lparr>wg_user = uid, wg_key = PublicKey wg, wg_ip = ip\<rparr> \<in> set (wgpeers t')"
    using devices_insert(1) [OF attempt_insertD [OF u(2)]] by simp
  ultimately show ?thesis using u(1) by (auto simp: I_def)
qed


text \<open>When fewer than five of the database's answers are serialization failures, an address that
  the WireGuard \<open>AllocateNextFreeIP\<close> returns was unused when the call began, is within the bound,
  and its row is committed with the caller's key and user, whatever else went wrong on the way.\<close>

lemma wg_allocation_committed:
  assumes "AllocateNextFreeIP_wg m uid wg (t, as) = (Ok ip, (t', as'))" and "conflicts as < maxRetries"
    and "2 \<le> m"
  shows "ip \<notin> set (wg_column t) \<and> ip \<le> m \<and>
    \<lparr>wg_user = uid, wg_key = PublicKey wg, wg_ip = ip\<rparr> \<in> set (wgpeers t')"
  using AllocateNextFreeIP_wg_committed [OF assms(1,2)] assms(3) by simp

definition two_users :: tables where
  "two_users = empty_tables
     \<lparr>users := [\<lparr>u_id = 1, u_first = ''Ann'', u_last = ''Lee'', u_email = ''ann@gmail.com'',
                 u_hash = ''h1'', u_name = ''ann.lee'', u_verified = True\<rparr>,
                \<lparr>u_id = 2, u_first = ''Bob'', u_last = ''Ray'', u_email = ''bob@gmail.com'',
                 u_hash = ''h2'', u_name = ''bob_ray'', u_verified = True\<rparr>],
      wgpeers := [\<lparr>wg_user = 2, wg_key = ''k0'', wg_ip = 2\<rparr>],
      next_user_id := 3\<rparr>"

section \<open>Sequences of calls\<close>

datatype wg_op = Devices | AtLimit | Add WireguardType | Drop string | Allocate int WireguardType

fun run_wg_op :: "int \<times> wg_op \<Rightarrow> db \<Rightarrow> db" where
  "run_wg_op (uid, Devices) s = snd (GetDevices uid s)"
| "run_wg_op (uid, AtLimit) s = snd (HitMaxLimit uid s)"
| "run_wg_op (uid, Add wg) s = snd (AddPeer_store uid wg s)"
| "run_wg_op (uid, Drop key) s = snd (RemovePeer_store key uid s)"
| "run_wg_op (uid, Allocate m wg) s = snd (AllocateNextFreeIP_wg m uid wg s)"

definition wg_inv :: "tables \<Rightarrow> bool" where
  "wg_inv t \<longleftrightarrow> schema_ok t \<and> within_device_limit t"

lemma read_only_limit:
  "keeps (holds within_device_limit) (GetDevices uid)" "keeps (holds within_device_limit) (HitMaxLimit uid)"
  unfolding wg_store_defs by (intro keeps_intros)+

lemma run_wg_op_inv:
  assumes "holds wg_inv s"
  shows "holds wg_inv (run_wg_op c s)"
proof -
  have "holds schema_ok s" "holds within_device_limit s"
    using assms by (simp_all add: holds_def wg_inv_def)
  then have "holds schema_ok (run_wg_op c s) \<and> holds within_device_limit (run_wg_op c s)"
    using wg_store_schema [THEN keepsD] read_only_limit [THEN keepsD] AddPeer_limit [THEN keepsD]
      RemovePeer_store_limit [THEN keepsD] AllocateNextFreeIP_limit [THEN keepsD]
    by (cases "(c, s)" rule: run_wg_op.cases) simp_all
  then show ?thesis by (simp add: holds_def wg_inv_def)
qed

lemma run_wg_ops_inv: "holds wg_inv s \<Longrightarrow> holds wg_inv (fold run_wg_op cs s)"
  by (induction cs arbitrary: s) (simp_all add: run_wg_op_inv)

text \<open>As long as the calls of \<open>WireguardStore\<close> run one after the other, no sequence of them, by
  whatever users, with whatever failures, gives a user more than three devices or two peers the
  same address or key.\<close>

lemma wg_calls_keep_limits:
  assumes "schema_ok t" and "within_device_limit t"
  shows "let t' = fst (fold run_wg_op cs (t, as))
         in within_device_limit t' \<and> distinct (wg_column t') \<and> distinct (map wg_key (wgpeers t'))"
  using assms run_wg_ops_inv [of "(t, as)" cs]
  by (simp add: holds_def wg_inv_def schema_ok_def wgpeers_ok_def wg_column_def Let_def)

lemma wg_calls_keep_limits_witness:
  "let t' = fst (fold run_wg_op
       [(1, Allocate 256 \<lparr>PublicKey = ''a'', IpAddress = 0\<rparr>), (1, Add \<lparr>PublicKey = ''b'', IpAddress = 7\<rparr>),
        (1, Allocate 256 \<lparr>PublicKey = ''c'', IpAddress = 0\<rparr>), (1, Add \<lparr>PublicKey = ''d'', IpAddress = 9\<rparr>)]
       (two_users, []))
   in within_device_limit t' \<and> distinct (wg_column t') \<and> distinct (map wg_key (wgpeers t'))"
proof (rule wg_calls_keep_limits)
  show "schema_ok two_users" by code_simp
  show "within_device_limit two_users" by (simp add: within_device_limit_def devices_def two_users_def)
qed

end
