(* ===== verification/Device_Race.thy ===== *)
theory Device_Race
  imports Wireguard_Store
begin

text \<open>
  Registrations of devices that overlap. Both methods of \<^verbatim>\<open>internal/store/wg.go\<close> that add a
  device count the user's devices in one statement and insert in another, outside of any common
  transaction, so requests that are served by different goroutines interleave between the two. The steps
  below are the count that lets a request through, the rest of the method, and the removal of a device; each
  is atomic for the database. The lemmas show that the limit holds as long as no user has two
  registrations under way, and that two are enough to break it for good.
\<close>

section \<open>Requests in flight\<close>

text \<open>A request whose count has let it through, with what its method does next.\<close>

datatype flight =
    Adding int WireguardType
  | Allocating int int WireguardType

fun flight_user :: "flight \<Rightarrow> int" where
  "flight_user (Adding uid wg) = uid"
| "flight_user (Allocating m uid wg) = uid"

fun finish_flight :: "flight \<Rightarrow> (db, unit) prog" where
  "finish_flight (Adding uid wg) = serve (sql_insert_wgpeer uid (PublicKey wg) (IpAddress wg))"
| "finish_flight (Allocating m uid wg) =
     tri (tx_loop maxRetries (tx_attempt wg_column (sql_insert_wgpeer uid (PublicKey wg)) m) 0) (\<lambda>ip. ret ())"

text \<open>The two methods are the count followed by the rest.\<close>

lemma methods_are_flights:
  "AddPeer_store uid wg = tri (HitMaxLimit uid)
     (\<lambda>maxHit. if maxHit then fail (ErrText WG_DEVICE_LIMIT) else finish_flight (Adding uid wg))"
  "tri (AllocateNextFreeIP_wg m uid wg) (\<lambda>ip. ret ()) s = tri (HitMaxLimit uid)
     (\<lambda>maxHit. if maxHit then fail (ErrText WG_DEVICE_LIMIT) else finish_flight (Allocating m uid wg)) s"
  by (auto simp: AddPeer_store_def AllocateNextFreeIP_wg_def tri_eq fail_def split: prod.split res.split)

record race =
  race_db :: tables
  in_flight :: "flight list"

text \<open>\<open>cap\<close> is the number of registrations one user may have under way at once.\<close>

inductive race_step :: "nat \<Rightarrow> race \<Rightarrow> race \<Rightarrow> bool" for cap where
  check: "HitMaxLimit (flight_user f) (race_db s, as) = (Ok False, d) \<Longrightarrow>
    length (filter (\<lambda>g. flight_user g = flight_user f) (in_flight s)) < cap \<Longrightarrow>
    race_step cap s (s\<lparr>in_flight := f # in_flight s\<rparr>)"
| finish: "f \<in> set (in_flight s) \<Longrightarrow> finish_flight f (race_db s, as) = (r, d) \<Longrightarrow>
    race_step cap s \<lparr>race_db = fst d, in_flight = remove1 f (in_flight s)\<rparr>"
| remove: "RemovePeer_store key uid (race_db s, as) = (r, d) \<Longrightarrow> race_step cap s (s\<lparr>race_db := fst d\<rparr>)"

inductive_cases race_stepE: "race_step cap s s'"

section \<open>What the rest of a registration does\<close>

lemma finish_schema: "keeps (holds schema_ok) (finish_flight f)"
  by (cases f; simp; intro keeps_intros schema_keeps; assumption)

lemma finish_frame: "flight_user f \<noteq> v \<Longrightarrow> keeps (holds (\<lambda>t. devices v t = x)) (finish_flight f)"
proof (cases f)
  case (Adding uid wg)
  assume "flight_user f \<noteq> v"
  with Adding show ?thesis
    by (auto intro!: keeps_serve simp: sql_insert_wgpeer_def devices_def)
next
  case (Allocating m uid wg)
  assume v: "flight_user f \<noteq> v"
  have "keeps (holds (\<lambda>t. devices v t = x))
      (tx_loop maxRetries (tx_attempt wg_column (sql_insert_wgpeer uid (PublicKey wg)) m) 0)"
    by (rule tx_loop_keeps) (use v Allocating in \<open>auto dest!: attempt_insertD devices_insert(2) [where v = v]\<close>)
  with Allocating show ?thesis by (simp add: keeps_tri keeps_ret)
qed

lemma finish_limit:
  assumes "within_device_limit t" and "int (length (devices (flight_user f) t)) \<noteq> MAX_WG_DEVICES_PER_USER"
    and "finish_flight f (t, as) = (r, d)"
  shows "within_device_limit (fst d)"
proof (cases f)
  case (Adding uid wg)
  with assms wg_insert_limit [of t uid "PublicKey wg" "IpAddress wg"]
    serve_state [of "sql_insert_wgpeer uid (PublicKey wg) (IpAddress wg)" "(t, as)"]
  show ?thesis by auto
next
  case (Allocating m uid wg)
  have "keeps (holds (limit_or_added uid (PublicKey wg)))
      (tri (tx_loop maxRetries (tx_attempt wg_column (sql_insert_wgpeer uid (PublicKey wg)) m) 0) (\<lambda>ip. ret ()))"
    by (intro keeps_tri keeps_ret tx_loop_keeps) (rule limit_or_added_insert)
  with Allocating have "keeps (holds (limit_or_added uid (PublicKey wg))) (finish_flight f)" by simp
  moreover have "holds (limit_or_added uid (PublicKey wg)) (t, as)"
    using assms(1,2) Allocating by (simp add: limit_or_added_def)
  ultimately have "holds (limit_or_added uid (PublicKey wg)) d" using assms(3) by (rule keeps_run)
  then show ?thesis by (simp add: holds_def limit_or_added_def)
qed

lemma delete_devices: "length (devices v (snd (sql_delete_wgpeer key uid t))) \<le> length (devices v t)"
proof -
  have "length (filter P (filter Q xs)) \<le> length (filter P xs)" for P Q and xs :: "wg_row list"
    by (induction xs) auto
  then show ?thesis
    unfolding devices_def sql_delete_wgpeer_def Let_def by (auto split: list.split simp del: filter_filter)
qed

lemma remove_devices:
  assumes "RemovePeer_store key uid (t, as) = (r, d)"
  shows "length (devices v (fst d)) \<le> length (devices v t)"
proof -
  have "keeps (holds (\<lambda>u. length (devices v u) \<le> length (devices v t))) (RemovePeer_store key uid)"
    unfolding RemovePeer_store_def by (intro keeps_intros keeps_serve) (meson delete_devices le_trans)
  from keeps_run [OF this _ assms] show ?thesis by (simp add: holds_def)
qed

section \<open>One registration per user\<close>

definition race_ok :: "race \<Rightarrow> bool" where
  "race_ok s \<longleftrightarrow> schema_ok (race_db s) \<and> within_device_limit (race_db s) \<and>
     distinct (map flight_user (in_flight s)) \<and>
     (\<forall>f \<in> set (in_flight s). int (length (devices (flight_user f) (race_db s))) \<noteq> MAX_WG_DEVICES_PER_USER)"

lemma remove1_other_user:
  assumes "distinct (map flight_user fs)" and "f \<in> set fs" and "g \<in> set (remove1 f fs)"
  shows "flight_user f \<noteq> flight_user g"
  using assms by (auto simp: distinct_map inj_on_def)

lemma race_ok_step: "race_step 1 s s' \<Longrightarrow> race_ok s \<Longrightarrow> race_ok s'"
proof (induction rule: race_step.induct)
  case (check f s as d)
  then have "flight_user f \<notin> flight_user ` set (in_flight s)" by (auto simp: filter_empty_conv)
  with check HitMaxLimit_Ok [of "flight_user f" "race_db s" as False d] show ?case by (auto simp: race_ok_def)
next
  case (finish f s as r d)
  have frame: "devices v (fst d) = devices v (race_db s)" if "flight_user f \<noteq> v" for v
    using keeps_run [OF finish_frame [OF that] _ finish(2), of "devices v (race_db s)"] by (simp add: holds_def)
  have "schema_ok (fst d)"
    using keeps_run [OF finish_schema _ finish(2)] finish(3) by (simp add: holds_def race_ok_def)
  moreover have "within_device_limit (fst d)"
    using finish_limit [OF _ _ finish(2)] finish(1,3) by (auto simp: race_ok_def)
  moreover have "distinct (map flight_user (remove1 f (in_flight s)))"
    using finish(3) unfolding race_ok_def by (metis distinct_map distinct_remove1 inj_on_subset set_remove1_subset)
  moreover have "int (length (devices (flight_user g) (fst d))) \<noteq> MAX_WG_DEVICES_PER_USER"
    if "g \<in> set (remove1 f (in_flight s))" for g
    using finish(1,3) that frame remove1_other_user [of "in_flight s" f g] set_remove1_subset
    by (fastforce simp: race_ok_def)
  ultimately show ?case by (simp add: race_ok_def)
next
  case (remove key uid s as r d)
  note le = remove_devices [OF remove(1)]
  have "schema_ok (fst d)"
    using keeps_run [OF wg_store_schema(4) _ remove(1)] remove(2) by (simp add: holds_def race_ok_def)
  moreover have "within_device_limit (fst d)"
    using keeps_run [OF RemovePeer_store_limit _ remove(1)] remove(2) by (simp add: holds_def race_ok_def)
  moreover have "int (length (devices (flight_user g) (fst d))) \<noteq> MAX_WG_DEVICES_PER_USER"
    if "g \<in> set (in_flight s)" for g
  proof -
    have "int (length (devices (flight_user g) (race_db s))) \<le> MAX_WG_DEVICES_PER_USER"
      and "int (length (devices (flight_user g) (race_db s))) \<noteq> MAX_WG_DEVICES_PER_USER"
      using remove(2) that by (simp_all add: race_ok_def within_device_limit_def)
    with le [of "flight_user g"] show ?thesis by linarith
  qed
  ultimately show ?case using remove(2) by (simp add: race_ok_def)
qed

lemma race_ok_reach: "(race_step 1)\<^sup>*\<^sup>* s s' \<Longrightarrow> race_ok s \<Longrightarrow> race_ok s'"
  by (induction rule: rtranclp_induct) (blast intro: race_ok_step)+

text \<open>C12: registrations of different users may interleave in any way, with removals in between and whatever the
  database answers: as long as no user has two registrations under way at once, every user stays within the
  device limit and no two devices share a key or an address.\<close>

theorem solo_registrations_keep_limit:
  assumes "(race_step 1)\<^sup>*\<^sup>* \<lparr>race_db = t, in_flight = []\<rparr> s" and "schema_ok t" and "within_device_limit t"
  shows "within_device_limit (race_db s) \<and> distinct (wg_column (race_db s)) \<and>
    distinct (map wg_key (wgpeers (race_db s)))"
proof -
  have "race_ok \<lparr>race_db = t, in_flight = []\<rparr>" using assms(2,3) by (simp add: race_ok_def)
  with assms(1) have "race_ok s" by (rule race_ok_reach)
  then show ?thesis by (simp add: race_ok_def schema_ok_def wgpeers_ok_def wg_column_def)
qed


section \<open>Two registrations at once\<close>

text \<open>The tables in which the user has his first \<open>k\<close> devices.\<close>

definition first_devices :: "int \<Rightarrow> nat \<Rightarrow> wg_row list" where
  "first_devices uid k = map (\<lambda>i. \<lparr>wg_user = uid, wg_key = itoa (int i), wg_ip = int i + 2\<rparr>) [0..<k]"

definition with_devices :: "tables \<Rightarrow> int \<Rightarrow> nat \<Rightarrow> tables" where
  "with_devices t uid k = t\<lparr>wgpeers := first_devices uid k\<rparr>"

definition next_device :: "int \<Rightarrow> nat \<Rightarrow> flight" where
  "next_device uid k = Adding uid \<lparr>PublicKey = itoa (int k), IpAddress = int k + 2\<rparr>"

lemma devices_count: "length (devices uid (with_devices t uid k)) = k"
  by (simp add: devices_def with_devices_def first_devices_def filter_map comp_def)

lemma next_device_runs:
  assumes "known_user t uid"
  shows "finish_flight (next_device uid k) (with_devices t uid k, []) = (Ok (), (with_devices t uid (Suc k), []))"
proof -
  have "\<not> list_ex (\<lambda>q. wg_key q = itoa (int k) \<or> wg_ip q = int k + 2) (first_devices uid k)"
    by (auto simp: list_ex_iff first_devices_def itoa_inject)
  then show ?thesis
    using assms by (simp add: next_device_def sql_insert_wgpeer_def with_devices_def known_user_def first_devices_def)
qed

lemma count_lets_through:
  "k \<noteq> 3 \<Longrightarrow> HitMaxLimit uid (with_devices t uid k, []) = (Ok False, (with_devices t uid k, []))"
  using devices_count [of uid t k]
  by (simp add: HitMaxLimit_def tri_eq sql_read_def rows_matching_def devices_def ret_def)

lemma check_next:
  assumes "k \<noteq> 3" and "length fs < cap"
  shows "race_step cap \<lparr>race_db = with_devices t uid k, in_flight = fs\<rparr>
    \<lparr>race_db = with_devices t uid k, in_flight = next_device uid j # fs\<rparr>"
proof -
  have "length (filter P fs) < cap" for P using assms(2) length_filter_le [of P fs] by linarith
  then show ?thesis
    using race_step.check [of "next_device uid j" "\<lparr>race_db = with_devices t uid k, in_flight = fs\<rparr>" "[]"]
      count_lets_through [OF assms(1), of uid t] by (simp add: next_device_def)
qed

lemma finish_next:
  assumes "known_user t uid" and "next_device uid k \<in> set fs"
  shows "race_step cap \<lparr>race_db = with_devices t uid k, in_flight = fs\<rparr>
    \<lparr>race_db = with_devices t uid (Suc k), in_flight = remove1 (next_device uid k) fs\<rparr>"
  using race_step.finish [of "next_device uid k" "\<lparr>race_db = with_devices t uid k, in_flight = fs\<rparr>" "[]"]
    next_device_runs [OF assms(1)] assms(2) by simp

lemma one_more:
  assumes "known_user t uid" and "k \<noteq> 3" and "0 < cap"
  shows "(race_step cap)\<^sup>*\<^sup>* \<lparr>race_db = with_devices t uid k, in_flight = []\<rparr>
    \<lparr>race_db = with_devices t uid (Suc k), in_flight = []\<rparr>"
  using check_next [OF assms(2), of "[]" cap t uid k] assms(3) finish_next [OF assms(1), of k "[next_device uid k]" cap]
  by (simp add: converse_rtranclp_into_rtranclp r_into_rtranclp)

lemma past_the_limit:
  assumes "known_user t uid"
  shows "(race_step 2)\<^sup>*\<^sup>* \<lparr>race_db = with_devices t uid 2, in_flight = []\<rparr>
    \<lparr>race_db = with_devices t uid 4, in_flight = []\<rparr>"
proof -
  have ne: "next_device uid 2 \<noteq> next_device uid 3" by (simp add: next_device_def)
  note steps = check_next [of 2 "[]" 2 t uid 3] check_next [of 2 "[next_device uid 3]" 2 t uid 2]
    finish_next [OF assms, of 2 "[next_device uid 2, next_device uid 3]" 2]
    finish_next [OF assms, of 3 "[next_device uid 3]" 2]
  from steps ne show ?thesis
    by (simp add: numeral_eq_Suc)
qed

text \<open>C13: two registrations of one user that overlap once are enough: both see two devices and both insert. The
  count is compared for equality, so from then on it lets every request through, and the number of devices of
  that user has no bound: every number from four on can be reached.\<close>

theorem device_limit_escapes:
  assumes "known_user t uid" and "wgpeers t = []"
  shows "\<exists>s. (race_step 2)\<^sup>*\<^sup>* \<lparr>race_db = t, in_flight = []\<rparr> s \<and> in_flight s = [] \<and>
    length (devices uid (race_db s)) = 4 + n"
proof -
  have t: "t = with_devices t uid 0" using assms(2) by (simp add: with_devices_def first_devices_def)
  have two: "(race_step 2)\<^sup>*\<^sup>* \<lparr>race_db = t, in_flight = []\<rparr> \<lparr>race_db = with_devices t uid 2, in_flight = []\<rparr>"
    using one_more [OF assms(1), of 0 2] one_more [OF assms(1), of 1 2] t
    by (simp add: numeral_2_eq_2)
  have "(race_step 2)\<^sup>*\<^sup>* \<lparr>race_db = t, in_flight = []\<rparr> \<lparr>race_db = with_devices t uid (4 + n), in_flight = []\<rparr>"
  proof (induction n)
    case 0
    show ?case using rtranclp_trans [OF two past_the_limit [OF assms(1)]] by simp
  next
    case (Suc n)
    then show ?case using rtranclp_trans [OF Suc one_more [OF assms(1), of "4 + n" 2]] by simp
  qed
  then show ?thesis by (intro exI [of _ "\<lparr>race_db = with_devices t uid (4 + n), in_flight = []\<rparr>"]) (simp add: devices_count)
qed


theorem device_limit_escapes_witness:
  "\<exists>s. (race_step 2)\<^sup>*\<^sup>* \<lparr>race_db = with_devices two_users 1 0, in_flight = []\<rparr> s \<and> in_flight s = [] \<and>
    length (devices 1 (race_db s)) = 4 + 96"
  by (rule device_limit_escapes) (simp_all add: with_devices_def first_devices_def two_users_def known_user_def)

theorem solo_registrations_keep_limit_witness:
  "within_device_limit (with_devices two_users 1 1) \<and> distinct (wg_column (with_devices two_users 1 1)) \<and>
    distinct (map wg_key (wgpeers (with_devices two_users 1 1)))"
proof -
  have "(race_step 1)\<^sup>*\<^sup>* \<lparr>race_db = with_devices two_users 1 0, in_flight = []\<rparr>
      \<lparr>race_db = with_devices two_users 1 (Suc 0), in_flight = []\<rparr>"
    by (rule one_more) (simp_all add: two_users_def known_user_def)
  moreover have "schema_ok (with_devices two_users 1 0)" by code_simp
  moreover have "within_device_limit (with_devices two_users 1 0)"
    by (simp add: within_device_limit_def devices_def with_devices_def first_devices_def)
  ultimately show ?thesis using solo_registrations_keep_limit by fastforce
qed

end
