(* ===== verification/Redis_Store.thy ===== *)
theory Redis_Store
  imports Models Consts
begin

text \<open>
  \<^verbatim>\<open>internal/store/redis.go\<close>: the methods of \<^verbatim>\<open>RedisStore\<close> over one
  keyspace that holds verification tokens, tunnel secrets, the two stacks of released addresses
  and the results the workers leave for the polling handlers. The lemmas give the life of a key of
  each kind; the three result boxes are instances of one locale.
\<close>

section \<open>The keyspace\<close>

text \<open>
  A JSON document is kept as its tree, with the strings as \<^verbatim>\<open>json.Marshal\<close> writes
  them: every byte that is not part of a well-formed rune is replaced by U+FFFD.
\<close>

datatype json = JBool bool | JStr string | JObj "(string \<times> json) list"

definition coerce_rune :: "string \<Rightarrow> string" where
  "coerce_rune r =
     (case r of [c] \<Rightarrow> if (of_char c :: nat) < 128 then r else [CHR 0xEF, CHR 0xBF, CHR 0xBD] | _ \<Rightarrow> r)"

definition coerce_utf8 :: "string \<Rightarrow> string" where
  "coerce_utf8 s = concat (map coerce_rune (runes s))"

datatype content = Text string | Doc json | Items "string list"

record entry =
  val_of :: content
  ttl_hours :: "nat option"

type_synonym keyspace = "string \<Rightarrow> entry option"
type_synonym rds = "keyspace server"

definition wrongtype :: go_error where
  "wrongtype = ErrText ''WRONGTYPE Operation against a key holding the wrong kind of value''"

definition r_set :: "string \<Rightarrow> content \<Rightarrow> nat option \<Rightarrow> keyspace \<Rightarrow> unit res \<times> keyspace" where
  "r_set k c ttl ks = (Ok (), ks(k \<mapsto> \<lparr>val_of = c, ttl_hours = ttl\<rparr>))"

definition r_get :: "string \<Rightarrow> keyspace \<Rightarrow> content res \<times> keyspace" where
  "r_get k ks =
     (case ks k of
        None \<Rightarrow> (Er RedisNil, ks)
      | Some e \<Rightarrow> (case val_of e of Items l \<Rightarrow> (Er wrongtype, ks) | _ \<Rightarrow> (Ok (val_of e), ks)))"

definition r_del :: "string \<Rightarrow> keyspace \<Rightarrow> int res \<times> keyspace" where
  "r_del k ks = (case ks k of None \<Rightarrow> (Ok 0, ks) | Some e \<Rightarrow> (Ok 1, ks(k := None)))"

definition r_lpush :: "string \<Rightarrow> string \<Rightarrow> keyspace \<Rightarrow> unit res \<times> keyspace" where
  "r_lpush k s ks =
     (case ks k of
        None \<Rightarrow> (Ok (), ks(k \<mapsto> \<lparr>val_of = Items [s], ttl_hours = None\<rparr>))
      | Some e \<Rightarrow> (case val_of e of
            Items l \<Rightarrow> (Ok (), ks(k \<mapsto> e\<lparr>val_of := Items (s # l)\<rparr>))
          | _ \<Rightarrow> (Er wrongtype, ks)))"

text \<open>A list that becomes empty is removed with its key.\<close>

definition r_lpop :: "string \<Rightarrow> keyspace \<Rightarrow> string res \<times> keyspace" where
  "r_lpop k ks =
     (case ks k of
        None \<Rightarrow> (Er RedisNil, ks)
      | Some e \<Rightarrow> (case val_of e of
            Items [] \<Rightarrow> (Er RedisNil, ks)
          | Items [s] \<Rightarrow> (Ok s, ks(k := None))
          | Items (s # l) \<Rightarrow> (Ok s, ks(k \<mapsto> e\<lparr>val_of := Items l\<rparr>))
          | _ \<Rightarrow> (Er wrongtype, ks)))"

text \<open>What time does to the keyspace: a key with a time to live may be gone.\<close>

definition r_lapse :: "string \<Rightarrow> keyspace \<Rightarrow> keyspace" where
  "r_lapse k ks =
     (case ks k of None \<Rightarrow> ks | Some e \<Rightarrow> if ttl_hours e = None then ks else ks(k := None))"

lemmas redis_defs = r_set_def r_get_def r_del_def r_lpush_def r_lpop_def r_lapse_def

section \<open>Tokens and secrets\<close>

definition SetEmailToken :: "string \<Rightarrow> string \<Rightarrow> (rds, unit) prog" where
  "SetEmailToken email token = serve (r_set token (Text (''email:'' @ email)) (Some 24))"

text \<open>The error of \<^verbatim>\<open>Del\<close> is dropped; its count is then 0.\<close>

definition DeleteEmailToken :: "string \<Rightarrow> (rds, unit) prog" where
  "DeleteEmailToken token =
     handle (serve (r_del token))
       (\<lambda>e. fail (ErrText ''key expired''))
       (\<lambda>res. if res = 0 then fail (ErrText ''key expired'') else ret ())"

text \<open>
  \<^verbatim>\<open>Get(ctx, token).String()\<close> renders the command together with its result, whichever
  it was. The rendering belongs to the client library, so it is the parameter \<open>cmd_text\<close>, of which
  the code relies on \<open>rendered\<close>.
\<close>

definition GetEmailFromToken :: "(string \<Rightarrow> content res \<Rightarrow> string) \<Rightarrow> string \<Rightarrow> (rds, string) prog" where
  "GetEmailFromToken cmd_text token =
     handle (serve (r_get token)) (\<lambda>e. ret (cmd_text token (Er e))) (\<lambda>c. ret (cmd_text token (Ok c)))"

definition rendered :: "(string \<Rightarrow> content res \<Rightarrow> string) \<Rightarrow> bool" where
  "rendered cmd_text \<longleftrightarrow>
     (\<forall>token v. cmd_text token (Ok (Text v)) = ''get '' @ token @ '': '' @ v)"

definition SetTunnelLogin :: "string \<Rightarrow> int \<Rightarrow> (rds, unit) prog" where
  "SetTunnelLogin secret uid = serve (r_set secret (Text (itoa uid)) (Some 24))"

definition syntax_error :: go_error where
  "syntax_error = ErrText ''strconv.Atoi: parsing: invalid syntax''"

definition atoi_content :: "content \<Rightarrow> int option" where
  "atoi_content c = (case c of Text s \<Rightarrow> atoi s | _ \<Rightarrow> None)"

definition GetUidFromTunnelSecret :: "string \<Rightarrow> (rds, int) prog" where
  "GetUidFromTunnelSecret secret =
     tri (serve (r_get secret))
       (\<lambda>c. case atoi_content c of None \<Rightarrow> fail syntax_error | Some n \<Rightarrow> ret n)"

section \<open>Released addresses\<close>

definition PushFreeIp :: "int \<Rightarrow> string \<Rightarrow> (rds, unit) prog" where
  "PushFreeIp ip key = serve (r_lpush key (itoa ip))"

definition PopFreeIp :: "string \<Rightarrow> (rds, int) prog" where
  "PopFreeIp key =
     handle (serve (r_lpop key))
       (\<lambda>e. if e = RedisNil then fail (ErrText EMPTY_IP_STACK) else fail e)
       (\<lambda>val. case atoi val of None \<Rightarrow> fail syntax_error | Some n \<Rightarrow> ret n)"

section \<open>Results of jobs\<close>

definition marshal_Instance :: "web_Instance \<Rightarrow> json" where
  "marshal_Instance w =
     JObj [(''ContainerID'', JStr (coerce_utf8 (Wi_ContainerID w))), (''Success'', JBool (Wi_Success w)),
           (''Username'', JStr (coerce_utf8 (Wi_Username w))), (''Password'', JStr (coerce_utf8 (Wi_Password w))),
           (''IP'', JStr (coerce_utf8 (Wi_IP w)))]"

definition json_error :: go_error where
  "json_error = ErrText ''json: cannot unmarshal''"

fun unmarshal_field :: "string \<times> json \<Rightarrow> web_Instance \<Rightarrow> web_Instance option" where
  "unmarshal_field (f, JStr s) w =
     (if f = ''ContainerID'' then Some (w\<lparr>Wi_ContainerID := s\<rparr>)
      else if f = ''Username'' then Some (w\<lparr>Wi_Username := s\<rparr>)
      else if f = ''Password'' then Some (w\<lparr>Wi_Password := s\<rparr>)
      else if f = ''IP'' then Some (w\<lparr>Wi_IP := s\<rparr>)
      else if f = ''Success'' then None else Some w)"
| "unmarshal_field (f, JBool b) w =
     (if f = ''Success'' then Some (w\<lparr>Wi_Success := b\<rparr>)
      else if f \<in> {''ContainerID'', ''Username'', ''Password'', ''IP''} then None else Some w)"
| "unmarshal_field (f, JObj fs) w =
     (if f \<in> {''ContainerID'', ''Username'', ''Password'', ''IP'', ''Success''} then None else Some w)"

fun unmarshal_fields :: "(string \<times> json) list \<Rightarrow> web_Instance \<Rightarrow> web_Instance option" where
  "unmarshal_fields [] w = Some w"
| "unmarshal_fields (f # fs) w = Option.bind (unmarshal_field f w) (unmarshal_fields fs)"

text \<open>
  None of the plain texts the program stores (\<^verbatim>\<open>email:...\<close>, a numeral,
  \<^verbatim>\<open>true\<close>, \<^verbatim>\<open>false\<close>) decodes into a struct.
\<close>

definition unmarshal_Instance :: "content \<Rightarrow> web_Instance option" where
  "unmarshal_Instance c = (case c of Doc (JObj fs) \<Rightarrow> unmarshal_fields fs zero_web_Instance | _ \<Rightarrow> None)"

definition deploy_key :: "string \<Rightarrow> string" where
  "deploy_key jobID = ''deploy:result:'' @ jobID"

definition stop_key :: "string \<Rightarrow> string" where
  "stop_key jobID = ''stop:result:'' @ jobID"

definition kill_key :: "string \<Rightarrow> string" where
  "kill_key jobID = ''kill:result:'' @ jobID"

definition PutDeployResult ::
  "string \<Rightarrow> string \<Rightarrow> string \<Rightarrow> string \<Rightarrow> bool \<Rightarrow> string \<Rightarrow> (rds, unit) prog" where
  "PutDeployResult userName jobID password ip success containerID =
     serve (r_set (deploy_key jobID)
       (Doc (marshal_Instance \<lparr>Wi_ContainerID = containerID, Wi_Success = success, Wi_Username = userName,
               Wi_Password = password, Wi_IP = ip\<rparr>)) None)"

text \<open>The first component of the Go results is whether a value was found: here \<open>None\<close> or \<open>Some\<close>.\<close>

definition GetDeployResult :: "string \<Rightarrow> (rds, web_Instance option) prog" where
  "GetDeployResult jobID =
     handle (serve (r_get (deploy_key jobID)))
       (\<lambda>e. if e = RedisNil then ret None else fail e)
       (\<lambda>c. case unmarshal_Instance c of
              None \<Rightarrow> fail json_error
            | Some instance \<Rightarrow> tri (serve (r_del (deploy_key jobID))) (\<lambda>_. ret (Some instance)))"

definition bool_text :: "bool \<Rightarrow> string" where
  "bool_text b = (if b then ''true'' else ''false'')"

definition put_flag :: "(string \<Rightarrow> string) \<Rightarrow> bool \<Rightarrow> string \<Rightarrow> (rds, unit) prog" where
  "put_flag key result jobID = serve (r_set (key jobID) (Text (bool_text result)) None)"

definition get_flag :: "(string \<Rightarrow> string) \<Rightarrow> string \<Rightarrow> (rds, bool option) prog" where
  "get_flag key jobID =
     handle (serve (r_get (key jobID)))
       (\<lambda>e. if e = RedisNil then ret None else fail e)
       (\<lambda>c. tri (serve (r_del (key jobID))) (\<lambda>_. ret (Some (c = Text ''true''))))"

definition PutStopResult :: "bool \<Rightarrow> string \<Rightarrow> (rds, unit) prog" where
  "PutStopResult result jobID = put_flag stop_key result jobID"

definition GetStopResult :: "string \<Rightarrow> (rds, bool option) prog" where
  "GetStopResult jobID = get_flag stop_key jobID"

definition PutKillResult :: "bool \<Rightarrow> string \<Rightarrow> (rds, unit) prog" where
  "PutKillResult result jobID = put_flag kill_key result jobID"

definition GetKillResult :: "string \<Rightarrow> (rds, bool option) prog" where
  "GetKillResult jobID = get_flag kill_key jobID"

lemmas redis_store_defs =
  SetEmailToken_def DeleteEmailToken_def GetEmailFromToken_def SetTunnelLogin_def
  GetUidFromTunnelSecret_def PushFreeIp_def PopFreeIp_def PutDeployResult_def GetDeployResult_def
  PutStopResult_def GetStopResult_def PutKillResult_def GetKillResult_def put_flag_def get_flag_def


section \<open>The result boxes\<close>

text \<open>
  What the workers and the polling handlers rely on: a box per job that a \<open>put\<close> fills, that a
  \<open>get\<close> which finds something empties, and that nobody else touches. \<open>seen v\<close> is what \<open>get\<close> gives
  back for \<open>v\<close>.
\<close>

locale result_box =
  fixes put :: "'v \<Rightarrow> string \<Rightarrow> (rds, unit) prog"
    and get :: "string \<Rightarrow> (rds, 'v option) prog"
    and slot :: "string \<Rightarrow> string"
    and seen :: "'v \<Rightarrow> 'v"
  assumes put_served: "fst (put v job (ks, [])) = Ok ()"
    and get_put: "put v job s = (Ok (), s') \<Longrightarrow> fst (get job (fst s', [])) = Ok (Some (seen v))"
    and put_frame: "k \<noteq> slot job \<Longrightarrow> fst (snd (put v job s)) k = fst s k"
    and get_frame: "k \<noteq> slot job \<Longrightarrow> fst (snd (get job s)) k = fst s k"
    and get_takes: "get job s = (Ok (Some v), s') \<Longrightarrow> fst s' (slot job) = None"
    and get_empty: "fst s (slot job) = None \<Longrightarrow> get job s = (r, s') \<Longrightarrow>
      (\<forall>v. r \<noteq> Ok (Some v)) \<and> fst s' (slot job) = None"
    and slot_inject: "slot job = slot job' \<Longrightarrow> job = job'"

text \<open>The answers a handler gets that polls \<open>n\<close> times.\<close>

fun polls :: "(rds, 'v option) prog \<Rightarrow> nat \<Rightarrow> rds \<Rightarrow> 'v option res list" where
  "polls get 0 s = []"
| "polls get (Suc n) s = (case get s of (r, s') \<Rightarrow> r # polls get n s')"

fun is_result :: "'v option res \<Rightarrow> bool" where
  "is_result (Ok (Some v)) = True"
| "is_result _ = False"

context result_box
begin

lemma polls_empty: "fst s (slot job) = None \<Longrightarrow> filter is_result (polls (get job) n s) = []"
proof (induction n arbitrary: s)
  case 0
  then show ?case by simp
next
  case (Suc n)
  obtain r s1 where g: "get job s = (r, s1)" by (metis prod.exhaust)
  note e = get_empty [OF Suc.prems g]
  then have "\<not> is_result r" by (cases r rule: is_result.cases) auto
  with g e Suc.IH [of s1] show ?case by simp
qed

text \<open>However often the handler polls, it sees the result of a job at most once.\<close>

lemma at_most_once: "length (filter is_result (polls (get job) n s)) \<le> 1"
proof (induction n arbitrary: s)
  case 0
  then show ?case by simp
next
  case (Suc n)
  obtain r s1 where g: "get job s = (r, s1)" by (metis prod.exhaust)
  show ?case
  proof (cases "is_result r")
    case True
    then obtain v where "r = Ok (Some v)" by (cases r rule: is_result.cases) auto
    with g have "fst s1 (slot job) = None" using get_takes by simp
    with g polls_empty show ?thesis by simp
  next
    case False
    with g Suc show ?thesis by simp
  qed
qed

lemma put_polled:
  assumes "put v job s = (Ok (), s')"
  shows "hd (polls (get job) (Suc n) (fst s', [])) = Ok (Some (seen v))"
  using get_put [OF assms] by (cases "get job (fst s', [])") simp

lemma other_job:
  assumes "job' \<noteq> job"
  shows "fst (snd (put v job s)) (slot job') = fst s (slot job')"
    and "fst (snd (get job s)) (slot job') = fst s (slot job')"
  using assms slot_inject put_frame get_frame by metis+

end

text \<open>The facts about single commands from which the laws follow.\<close>

lemma serve_set_state:
  "serve (r_set k c ttl) s = (q, s') \<Longrightarrow>
     fst s' = fst s \<or> fst s' = (fst s)(k \<mapsto> \<lparr>val_of = c, ttl_hours = ttl\<rparr>)"
  using serve_state [of "r_set k c ttl" s] by (simp add: r_set_def)

lemma serve_set_Ok:
  "serve (r_set k c ttl) s = (Ok (), s') \<Longrightarrow> fst s' = (fst s)(k \<mapsto> \<lparr>val_of = c, ttl_hours = ttl\<rparr>)"
  by (cases s) (auto dest!: serve_OkD simp: r_set_def)

lemma serve_get_state: "serve (r_get k) s = (q, s') \<Longrightarrow> fst s' = fst s"
  using serve_state [of "r_get k" s] by (simp add: r_get_def split: option.splits content.splits)

lemma serve_get_Ok:
  "serve (r_get k) s = (Ok c, s') \<Longrightarrow> \<exists>e. fst s k = Some e \<and> val_of e = c \<and> (\<forall>l. c \<noteq> Items l)"
  by (cases s) (auto dest!: serve_OkD simp: r_get_def split: option.splits content.splits)

lemma serve_del_state:
  "serve (r_del k) s = (q, s') \<Longrightarrow> fst s' = fst s \<or> fst s' = (fst s)(k := None)"
  using serve_state [of "r_del k" s] by (auto simp: r_del_def split: option.splits)

lemma serve_del_Ok: "serve (r_del k) s = (Ok n, s') \<Longrightarrow> fst s' k = None"
  by (cases s) (auto dest!: serve_OkD simp: r_del_def fun_eq_iff split: option.splits if_splits)

lemma serve_del_frame: "serve (r_del k) s = (q, s') \<Longrightarrow> j \<noteq> k \<Longrightarrow> fst s' j = fst s j"
  by (auto dest!: serve_del_state)

lemma serve_del_gone: "serve (r_del k) s = (q, s') \<Longrightarrow> fst s k = None \<Longrightarrow> fst s' k = None"
  by (auto dest!: serve_del_state)

lemmas serve_key_dests =
  serve_set_state serve_get_state serve_get_Ok serve_del_Ok serve_del_frame serve_del_gone

lemma flag_frame:
  "k \<noteq> key job \<Longrightarrow> fst (snd (put_flag key v job s)) k = fst s k"
  "k \<noteq> key job \<Longrightarrow> fst (snd (get_flag key job s)) k = fst s k"
proof -
  obtain q s' where "serve (r_set (key job) (Text (bool_text v)) None) s = (q, s')"
    by (metis prod.exhaust)
  then show "k \<noteq> key job \<Longrightarrow> fst (snd (put_flag key v job s)) k = fst s k"
    unfolding put_flag_def by (auto dest!: serve_set_state)
next
  obtain q s' where g: "serve (r_get (key job)) s = (q, s')" by (metis prod.exhaust)
  obtain p s2 where d: "serve (r_del (key job)) s' = (p, s2)" by (metis prod.exhaust)
  assume "k \<noteq> key job"
  with g d serve_get_state [OF g] serve_del_frame [OF d]
  show "fst (snd (get_flag key job s)) k = fst s k"
    by (cases q; cases p) (auto simp: get_flag_def prog_defs)
qed

lemma get_flag_takes: "get_flag key job s = (Ok (Some v), s') \<Longrightarrow> fst s' (key job) = None"
  unfolding get_flag_def
  by (auto simp: prog_defs split: prod.splits res.splits if_splits dest: serve_del_Ok)

lemma get_flag_empty:
  assumes "fst s (key job) = None" and "get_flag key job s = (r, s')"
  shows "(\<forall>v. r \<noteq> Ok (Some v)) \<and> fst s' (key job) = None"
proof -
  obtain q s1 where g: "serve (r_get (key job)) s = (q, s1)" by (metis prod.exhaust)
  with assms(1) have "q \<noteq> Ok c" for c using serve_get_Ok by fastforce
  with g assms serve_get_state [OF g] show ?thesis
    by (cases q) (auto simp: get_flag_def prog_defs split: if_splits)
qed

lemma get_put_flag:
  "put_flag key v job s = (Ok (), s') \<Longrightarrow> fst (get_flag key job (fst s', [])) = Ok (Some v)"
  by (auto simp: put_flag_def get_flag_def r_get_def r_del_def bool_text_def prog_defs
      dest!: serve_set_Ok)

lemma put_flag_served: "fst (put_flag key v job (ks, [])) = Ok ()"
  by (simp add: put_flag_def r_set_def)

lemma flag_box:
  assumes "inj key"
  shows "result_box (put_flag key) (get_flag key) key (\<lambda>v. v)"
  by (unfold_locales; fact put_flag_served get_put_flag flag_frame get_flag_takes get_flag_empty
      injD [OF assms])

lemma result_keys_inj: "inj stop_key" "inj kill_key" "inj deploy_key"
  by (simp_all add: inj_def stop_key_def kill_key_def deploy_key_def)

interpretation stop_box: result_box PutStopResult GetStopResult stop_key "\<lambda>v. v"
  using flag_box [OF result_keys_inj(1)]
  by (simp add: PutStopResult_def [abs_def] GetStopResult_def [abs_def])

interpretation kill_box: result_box PutKillResult GetKillResult kill_key "\<lambda>v. v"
  using flag_box [OF result_keys_inj(2)]
  by (simp add: PutKillResult_def [abs_def] GetKillResult_def [abs_def])


text \<open>The deploy box holds a struct; its strings come back with their ill-formed bytes replaced.\<close>

definition put_deploy :: "web_Instance \<Rightarrow> string \<Rightarrow> (rds, unit) prog" where
  "put_deploy w jobID =
     PutDeployResult (Wi_Username w) jobID (Wi_Password w) (Wi_IP w) (Wi_Success w) (Wi_ContainerID w)"

definition as_read :: "web_Instance \<Rightarrow> web_Instance" where
  "as_read w =
     \<lparr>Wi_ContainerID = coerce_utf8 (Wi_ContainerID w), Wi_Success = Wi_Success w,
      Wi_Username = coerce_utf8 (Wi_Username w), Wi_Password = coerce_utf8 (Wi_Password w),
      Wi_IP = coerce_utf8 (Wi_IP w)\<rparr>"

lemma put_deploy_eq: "put_deploy w job = serve (r_set (deploy_key job) (Doc (marshal_Instance w)) None)"
  by (cases w) (simp add: put_deploy_def PutDeployResult_def)

lemma unmarshal_marshal: "unmarshal_Instance (Doc (marshal_Instance w)) = Some (as_read w)"
  by (simp add: unmarshal_Instance_def marshal_Instance_def as_read_def zero_web_Instance_def)

lemma deploy_frame: "k \<noteq> deploy_key job \<Longrightarrow> fst (snd (GetDeployResult job s)) k = fst s k"
proof -
  obtain q s' where g: "serve (r_get (deploy_key job)) s = (q, s')" by (metis prod.exhaust)
  obtain p s2 where d: "serve (r_del (deploy_key job)) s' = (p, s2)" by (metis prod.exhaust)
  assume "k \<noteq> deploy_key job"
  with g d serve_get_state [OF g] serve_del_frame [OF d]
  show ?thesis by (cases q; cases p) (auto simp: GetDeployResult_def prog_defs split: option.split)
qed

lemma deploy_takes: "GetDeployResult job s = (Ok (Some v), s') \<Longrightarrow> fst s' (deploy_key job) = None"
  unfolding GetDeployResult_def
  by (auto simp: prog_defs split: prod.splits res.splits if_splits option.splits dest: serve_del_Ok)

lemma deploy_empty:
  assumes "fst s (deploy_key job) = None" and "GetDeployResult job s = (r, s')"
  shows "(\<forall>v. r \<noteq> Ok (Some v)) \<and> fst s' (deploy_key job) = None"
proof -
  obtain q s1 where g: "serve (r_get (deploy_key job)) s = (q, s1)" by (metis prod.exhaust)
  with assms(1) have "q \<noteq> Ok c" for c using serve_get_Ok by fastforce
  with g assms serve_get_state [OF g] show ?thesis
    by (cases q) (auto simp: GetDeployResult_def prog_defs split: if_splits)
qed

lemma get_put_deploy:
  "put_deploy w job s = (Ok (), s') \<Longrightarrow> fst (GetDeployResult job (fst s', [])) = Ok (Some (as_read w))"
  by (auto simp: put_deploy_eq GetDeployResult_def r_get_def r_del_def prog_defs marshal_Instance_def
      unmarshal_marshal [unfolded marshal_Instance_def] dest!: serve_set_Ok)

lemma put_deploy_frame: "k \<noteq> deploy_key job \<Longrightarrow> fst (snd (put_deploy w job s)) k = fst s k"
proof -
  obtain q s' where "serve (r_set (deploy_key job) (Doc (marshal_Instance w)) None) s = (q, s')"
    by (metis prod.exhaust)
  then show "k \<noteq> deploy_key job \<Longrightarrow> ?thesis" by (auto simp: put_deploy_eq dest!: serve_set_state)
qed

lemma put_deploy_served: "fst (put_deploy w job (ks, [])) = Ok ()"
  by (simp add: put_deploy_eq r_set_def)

interpretation deploy_box: result_box put_deploy GetDeployResult deploy_key as_read
  by (unfold_locales; fact put_deploy_served get_put_deploy put_deploy_frame deploy_frame deploy_takes
      deploy_empty injD [OF result_keys_inj(3)])

text \<open>C20: a handler that polls for the outcome of a job sees it at most once, for each of the three
  kinds of jobs, however often it polls and however the calls to Redis fail in between.\<close>

theorem results_seen_at_most_once:
  "length (filter is_result (polls (GetDeployResult job) n s)) \<le> 1 \<and>
   length (filter is_result (polls (GetStopResult job) n s)) \<le> 1 \<and>
   length (filter is_result (polls (GetKillResult job) n s)) \<le> 1"
  using deploy_box.at_most_once stop_box.at_most_once kill_box.at_most_once by blast

text \<open>On a Redis that answers, the first poll after \<open>PutDeployResult\<close> gets back the struct that was
  stored, with the strings as JSON transports them, and leaves the keyspace without the box; the
  same holds of the flags of \<open>PutStopResult\<close> and \<open>PutKillResult\<close>. All other keys are as before.\<close>

lemma job_result_roundtrip:
  "tri (PutDeployResult user job pass ip ok cid) (\<lambda>_. GetDeployResult job) (ks, []) =
     (Ok (Some (as_read \<lparr>Wi_ContainerID = cid, Wi_Success = ok, Wi_Username = user, Wi_Password = pass,
            Wi_IP = ip\<rparr>)), (ks(deploy_key job := None), [])) \<and>
   tri (PutStopResult b job) (\<lambda>_. GetStopResult job) (ks, []) = (Ok (Some b), (ks(stop_key job := None), [])) \<and>
   tri (PutKillResult b job) (\<lambda>_. GetKillResult job) (ks, []) = (Ok (Some b), (ks(kill_key job := None), []))"
  by (simp add: redis_store_defs redis_defs prog_defs unmarshal_marshal bool_text_def)

section \<open>What a key can hold\<close>

text \<open>Calls of the store's methods in any order, and the passing of time.\<close>

datatype rds_call =
    CallSetEmail string string
  | CallDelete string
  | CallSetLogin string int
  | CallGetUid string
  | CallPush int string
  | CallPop string
  | CallPutDeploy web_Instance string
  | CallGetDeploy string
  | CallPutStop bool string
  | CallGetStop string
  | CallPutKill bool string
  | CallGetKill string
  | Lapse string

fun run_rds :: "rds_call \<Rightarrow> rds \<Rightarrow> rds" where
  "run_rds (CallSetEmail email token) s = snd (SetEmailToken email token s)"
| "run_rds (CallDelete token) s = snd (DeleteEmailToken token s)"
| "run_rds (CallSetLogin secret uid) s = snd (SetTunnelLogin secret uid s)"
| "run_rds (CallGetUid secret) s = snd (GetUidFromTunnelSecret secret s)"
| "run_rds (CallPush ip key) s = snd (PushFreeIp ip key s)"
| "run_rds (CallPop key) s = snd (PopFreeIp key s)"
| "run_rds (CallPutDeploy w job) s = snd (put_deploy w job s)"
| "run_rds (CallGetDeploy job) s = snd (GetDeployResult job s)"
| "run_rds (CallPutStop b job) s = snd (PutStopResult b job s)"
| "run_rds (CallGetStop job) s = snd (GetStopResult job s)"
| "run_rds (CallPutKill b job) s = snd (PutKillResult b job s)"
| "run_rds (CallGetKill job) s = snd (GetKillResult job s)"
| "run_rds (Lapse key) s = (r_lapse key (fst s), snd s)"

text \<open>\<open>grants P ks\<close>: a key whose content reads as a user id satisfies \<open>P\<close>.\<close>

definition grants :: "(string \<Rightarrow> int \<Rightarrow> bool) \<Rightarrow> keyspace \<Rightarrow> bool" where
  "grants P ks \<longleftrightarrow> (\<forall>k e n. ks k = Some e \<longrightarrow> atoi_content (val_of e) = Some n \<longrightarrow> P k n)"

lemma grants_set:
  "grants P ks \<Longrightarrow> (\<And>n. atoi_content c = Some n \<Longrightarrow> P k n) \<Longrightarrow> grants P (snd (r_set k c ttl ks))"
  by (auto simp: grants_def r_set_def)

lemma grants_get: "grants P ks \<Longrightarrow> grants P (snd (r_get k ks))"
  by (auto simp: r_get_def split: option.split content.split)

lemma grants_del: "grants P ks \<Longrightarrow> grants P (snd (r_del k ks))"
  by (auto simp: grants_def r_del_def split: option.split)

lemma grants_lpush: "grants P ks \<Longrightarrow> grants P (snd (r_lpush k s ks))"
  by (auto simp: grants_def r_lpush_def atoi_content_def split: option.split content.split)

lemma grants_lpop: "grants P ks \<Longrightarrow> grants P (snd (r_lpop k ks))"
  by (auto simp: grants_def r_lpop_def atoi_content_def split: option.splits content.splits list.splits)

lemma grants_lapse: "grants P ks \<Longrightarrow> grants P (r_lapse k ks)"
  by (auto simp: grants_def r_lapse_def split: option.split)

lemma not_a_number:
  "atoi_content (Text (''email:'' @ s)) = None" "atoi_content (Text (bool_text b)) = None"
  "atoi_content (Doc d) = None"
  by (simp_all add: atoi_content_def bool_text_def parse_unsigned_def digit_value_def)

lemma keeps_grants_set:
  "(\<And>n. atoi_content c = Some n \<Longrightarrow> P k n) \<Longrightarrow> keeps (holds (grants P)) (serve (r_set k c ttl))"
  by (rule keeps_serve) (rule grants_set)

lemma keeps_grants_texts:
  "keeps (holds (grants P)) (serve (r_set k (Text (''email:'' @ s)) ttl))"
  "keeps (holds (grants P)) (serve (r_set k (Text (bool_text b)) ttl))"
  "keeps (holds (grants P)) (serve (r_set k (Doc d) ttl))"
  by (rule keeps_grants_set, simp only: not_a_number, simp)+

lemma keeps_grants_uid:
  "(int64_range uid \<Longrightarrow> P k uid) \<Longrightarrow> keeps (holds (grants P)) (serve (r_set k (Text (itoa uid)) ttl))"
  by (rule keeps_grants_set) (simp add: atoi_content_def atoi_itoa_eq in_int64_def split: if_splits)

lemma keeps_option [keeps_intros]:
  "(keeps I m) \<Longrightarrow> (\<And>x. keeps I (k x)) \<Longrightarrow> keeps I (case z of None \<Rightarrow> m | Some x \<Rightarrow> k x)"
  by (cases z) auto

lemma quiet_option [quiet_intros]:
  "quiet m \<Longrightarrow> (\<And>x. quiet (k x)) \<Longrightarrow> quiet (case z of None \<Rightarrow> m | Some x \<Rightarrow> k x)"
  by (cases z) auto

lemma keeps_grants:
  "keeps (holds (grants P)) (serve (r_get k))" "keeps (holds (grants P)) (serve (r_del k))"
  "keeps (holds (grants P)) (serve (r_lpush k v))" "keeps (holds (grants P)) (serve (r_lpop k))"
  by (rule keeps_serve, erule grants_get grants_del grants_lpush grants_lpop)+

lemma redis_store_grants:
  "keeps (holds (grants P)) (SetEmailToken email token)"
  "keeps (holds (grants P)) (DeleteEmailToken token)"
  "keeps (holds (grants P)) (GetEmailFromToken cmd_text token)"
  "(int64_range uid \<Longrightarrow> P secret uid) \<Longrightarrow> keeps (holds (grants P)) (SetTunnelLogin secret uid)"
  "keeps (holds (grants P)) (GetUidFromTunnelSecret secret)"
  "keeps (holds (grants P)) (PushFreeIp ip key)"
  "keeps (holds (grants P)) (PopFreeIp key)"
  "keeps (holds (grants P)) (put_deploy w job)"
  "keeps (holds (grants P)) (GetDeployResult job)"
  "keeps (holds (grants P)) (PutStopResult b job)"
  "keeps (holds (grants P)) (GetStopResult job)"
  "keeps (holds (grants P)) (PutKillResult b job)"
  "keeps (holds (grants P)) (GetKillResult job)"
  unfolding redis_store_defs put_deploy_eq
  by (intro keeps_intros keeps_grants keeps_grants_texts keeps_grants_uid; blast)+

lemma run_rds_grants:
  assumes "holds (grants P) s" and "\<And>secret uid. c = CallSetLogin secret uid \<Longrightarrow> P secret uid"
  shows "holds (grants P) (run_rds c s)"
  using assms redis_store_grants [where P = P, THEN keepsD] grants_lapse
  by (cases "(c, s)" rule: run_rds.cases) (simp_all add: holds_def)

lemma run_rds_calls_grants:
  "holds (grants P) s \<Longrightarrow> (\<And>secret uid. CallSetLogin secret uid \<in> set cs \<Longrightarrow> P secret uid) \<Longrightarrow>
     holds (grants P) (fold run_rds cs s)"
  by (induction cs arbitrary: s) (simp_all add: run_rds_grants)

lemma GetUid_Ok:
  "GetUidFromTunnelSecret secret s = (Ok n, s') \<Longrightarrow>
     \<exists>e. fst s secret = Some e \<and> atoi_content (val_of e) = Some n"
  unfolding GetUidFromTunnelSecret_def
  by (erule tri_OkE) (auto dest!: serve_get_Ok simp: ret_def fail_def split: option.splits)

text \<open>The tunnel login cannot be talked into a user id by anything else the program keeps in
  Redis: whatever calls of the store have been made since the keyspace was empty, with whatever
  failures and expiries, a secret that \<open>GetUidFromTunnelSecret\<close> resolves to a user id was stored
  with that very user id by \<open>SetTunnelLogin\<close>.\<close>

lemma tunnel_secret_was_issued:
  assumes "fst (GetUidFromTunnelSecret secret (fold run_rds cs (Map.empty, as))) = Ok uid"
  shows "CallSetLogin secret uid \<in> set cs"
proof -
  let ?P = "\<lambda>k n. CallSetLogin k n \<in> set cs"
  let ?s = "fold run_rds cs (Map.empty, as)"
  have "holds (grants ?P) (Map.empty, as)" by (simp add: grants_def)
  then have "holds (grants ?P) ?s" by (rule run_rds_calls_grants)
  moreover obtain s' where "GetUidFromTunnelSecret secret ?s = (Ok uid, s')"
    using assms by (metis prod.collapse)
  from GetUid_Ok [OF this] obtain e where "fst ?s secret = Some e" "atoi_content (val_of e) = Some uid"
    by blast
  ultimately show ?thesis unfolding holds_def grants_def by blast
qed

end
