(* ===== verification/Stores.thy ===== *)
theory Stores
  imports Redis_Store Sql_Db
begin

text \<open>
  The two servers every part of the program shares (\<^verbatim>\<open>store.Storage\<close>): Postgres and
  Redis. The record is extended by the components that have state of their own; the methods of
  the stores are lifted to it.
\<close>

record stores =
  pg :: db
  redis :: rds

definition on_pg :: "(db, 'a) prog \<Rightarrow> ('x stores_scheme, 'a) prog" where
  "on_pg = zoom pg (\<lambda>d w. w\<lparr>pg := d\<rparr>)"

definition on_redis :: "(rds, 'a) prog \<Rightarrow> ('x stores_scheme, 'a) prog" where
  "on_redis = zoom redis (\<lambda>r w. w\<lparr>redis := r\<rparr>)"

lemma on_pg_eq: "on_pg m w = (case m (pg w) of (r, d) \<Rightarrow> (r, w\<lparr>pg := d\<rparr>))"
  by (simp add: on_pg_def zoom_def)

lemma on_redis_eq: "on_redis m w = (case m (redis w) of (r, d) \<Rightarrow> (r, w\<lparr>redis := d\<rparr>))"
  by (simp add: on_redis_def zoom_def)

text \<open>Invariants of one server are kept by calls of the other, and lifted from its own calls.\<close>

lemma keeps_pg [keeps_intros]: "keeps I m \<Longrightarrow> keeps (\<lambda>w. I (pg w)) (on_pg m)"
  unfolding on_pg_def by (rule keeps_zoom) simp_all

lemma keeps_redis [keeps_intros]: "keeps I m \<Longrightarrow> keeps (\<lambda>w. I (redis w)) (on_redis m)"
  unfolding on_redis_def by (rule keeps_zoom) simp_all

lemma keeps_pg_other [keeps_intros]: "keeps (\<lambda>w. I (redis w)) (on_pg m)"
  by (auto simp: keeps_def on_pg_eq split: prod.split)

lemma keeps_redis_other [keeps_intros]: "keeps (\<lambda>w. I (pg w)) (on_redis m)"
  by (auto simp: keeps_def on_redis_eq split: prod.split)

lemma quiet_on_pg [quiet_intros]: "quiet m \<Longrightarrow> quiet (on_pg m)"
  unfolding on_pg_def by (rule quiet_zoom)

lemma quiet_on_redis [quiet_intros]: "quiet m \<Longrightarrow> quiet (on_redis m)"
  unfolding on_redis_def by (rule quiet_zoom)

lemma redis_no_crash:
  "fst (r_set k c ttl ks) \<noteq> Crash m" "fst (r_get k ks) \<noteq> Crash m" "fst (r_del k ks) \<noteq> Crash m"
  "fst (r_lpush k v ks) \<noteq> Crash m" "fst (r_lpop k ks) \<noteq> Crash m"
  by (auto simp: redis_defs split: option.split content.split list.split)

lemmas quiet_redis [quiet_intros] = redis_no_crash [THEN quiet_serve]

lemma redis_store_quiet [quiet_intros]:
  "quiet (SetEmailToken email token)" "quiet (DeleteEmailToken token)"
  "quiet (GetEmailFromToken cmd_text token)" "quiet (SetTunnelLogin secret uid)"
  "quiet (GetUidFromTunnelSecret secret)" "quiet (PushFreeIp ip key)" "quiet (PopFreeIp key)"
  "quiet (PutDeployResult user job pass addr ok cid)" "quiet (GetDeployResult job)"
  "quiet (PutStopResult b job)" "quiet (GetStopResult job)" "quiet (PutKillResult b job)"
  "quiet (GetKillResult job)"
  unfolding redis_store_defs by (intro quiet_intros)+

end
