(* ===== verification/Pg_Store.thy ===== *)
theory Pg_Store
  imports Stores
begin

text \<open>
  \<^verbatim>\<open>internal/store/pg_service.go\<close>: the record of the Postgres users and databases a
  user has on the shared service. The lemmas show who can see and remove which rows and that the
  quotas hold as long as calls run one after the other.
\<close>

section \<open>The methods\<close>

definition pg_id_of :: "PGServiceUser \<Rightarrow> tables \<Rightarrow> int res" where
  "pg_id_of u t =
     first_row (\<lambda>r. p_name r = Pg_UserName u \<and> p_pass r = Pg_Password u \<and> p_user r = Pg_Uid u) p_id (pg_users t)"

definition findPID :: "int \<Rightarrow> string \<Rightarrow> string \<Rightarrow> (db, int) prog" where
  "findPID uid userName password = serve (sql_read (pg_id_of (CreatePgServiceUser uid userName password)))"

definition AddUser_pg :: "PGServiceUser \<Rightarrow> (db, int) prog" where
  "AddUser_pg pgUser =
     tri (serve (sql_read (\<lambda>t. Ok (rows_matching (\<lambda>r. p_user r = Pg_Uid pgUser) (pg_users t)))))
       (\<lambda>count.
          if count \<ge> MAX_SERVICE_DB_USERS then fail (ErrText PG_MAX_USER_LIMIT)
          else handle (serve (sql_insert_pg_user (Pg_Uid pgUser) (Pg_UserName pgUser) (Pg_Password pgUser)))
                 (\<lambda>e. if contains (error_text e) ''23505'' then fail (ErrText PG_USER_ALREDAY_EXISTS) else fail e)
                 ret)"

definition AddDatabase :: "PGServiceUser \<Rightarrow> PGServiceDatabase \<Rightarrow> (db, unit) prog" where
  "AddDatabase pgUser pgDatabase =
     tri (findPID (Pg_Uid pgUser) (Pg_UserName pgUser) (Pg_Password pgUser))
       (\<lambda>pid. tri (serve (sql_read (\<lambda>t. Ok (rows_matching (\<lambda>r. pd_pid r = pid) (pg_dbs t)))))
          (\<lambda>dbCount.
             if dbCount \<ge> MAX_SERVICE_DB_DB then fail (ErrText PG_MAX_DB_LIMIT)
             else handle (serve (sql_insert_pg_db pid (Pg_DbName pgDatabase)))
                    (\<lambda>e. if contains (error_text e) ''23505'' then fail (ErrText PG_DB_ALREDAY_EXISTS) else fail e)
                    ret))"

definition RemoveDatabase :: "PGServiceUser \<Rightarrow> PGServiceDatabase \<Rightarrow> (db, unit) prog" where
  "RemoveDatabase pgUser pgDatabase =
     handle (serve (sql_read (pg_id_of pgUser)))
       (\<lambda>e. fail (ErrText PG_USER_NOT_FOUND))
       (\<lambda>pid. tri (serve (sql_delete_pg_db pid (Pg_DbName pgDatabase)))
          (\<lambda>rows. if rows = 0 then fail (ErrText PG_DB_NOT_FOUND) else ret ()))"

definition RemoveUser_pg :: "PGServiceUser \<Rightarrow> (db, unit) prog" where
  "RemoveUser_pg pgUser =
     tri (serve (sql_delete_pg_user (Pg_Uid pgUser) (Pg_UserName pgUser) (Pg_Password pgUser)))
       (\<lambda>rows. if rows = 0 then fail (ErrText PG_USER_NOT_FOUND) else ret ())"

definition GetUserDatabases :: "int \<Rightarrow> string \<Rightarrow> string \<Rightarrow> (db, string list) prog" where
  "GetUserDatabases uid userName password =
     tri (findPID uid userName password)
       (\<lambda>pid. tri (serve_rows (\<lambda>t. map pd_name (filter (\<lambda>r. pd_pid r = pid) (pg_dbs t))))
          (\<lambda>rows. case snd rows of Some e \<Rightarrow> fail e | None \<Rightarrow> ret (fst rows)))"

definition GetUsers :: "int \<Rightarrow> (db, web_User list) prog" where
  "GetUsers uid =
     tri (serve_rows (\<lambda>t. map (\<lambda>r. \<lparr>Wu_Role = ''Limited'', Wu_Username = p_name r, Wu_Password = p_pass r,
                                  Wu_ID = p_id r, Wu_Permissions = []\<rparr>)
                         (filter (\<lambda>r. p_user r = uid) (pg_users t))))
       (\<lambda>rows. ret (fst rows))"

definition joined_dbs :: "int \<Rightarrow> int \<Rightarrow> tables \<Rightarrow> web_Database list" where
  "joined_dbs pid uid t =
     concat (map (\<lambda>u. map (\<lambda>d. \<lparr>Wb_Name = pd_name d, Wb_Owner = p_name u\<rparr>)
                        (filter (\<lambda>d. pd_pid d = p_id u) (pg_dbs t)))
              (filter (\<lambda>u. p_user u = uid \<and> p_id u = pid) (pg_users t)))"

definition GetDatabases :: "int \<Rightarrow> int \<Rightarrow> (db, int \<times> web_Database list) prog" where
  "GetDatabases pid uid =
     tri (serve_rows (joined_dbs pid uid)) (\<lambda>rows. ret (int (length (fst rows)), fst rows))"

definition GetPassword :: "int \<Rightarrow> (db, string) prog" where
  "GetPassword pid = serve (sql_read (\<lambda>t. first_row (\<lambda>r. p_id r = pid) p_pass (pg_users t)))"

lemmas pg_store_defs =
  findPID_def AddUser_pg_def AddDatabase_def RemoveDatabase_def RemoveUser_pg_def GetUserDatabases_def
  GetUsers_def GetDatabases_def GetPassword_def

lemma pg_id_no_crash: "fst (sql_read (pg_id_of u) t) \<noteq> Crash c"
  by (simp add: sql_read_def pg_id_of_def first_row_def split: list.split)

lemma pg_store_schema [keeps_intros]:
  "keeps (holds schema_ok) (findPID uid n p)" "keeps (holds schema_ok) (AddUser_pg u)"
  "keeps (holds schema_ok) (AddDatabase u d)" "keeps (holds schema_ok) (RemoveDatabase u d)"
  "keeps (holds schema_ok) (RemoveUser_pg u)" "keeps (holds schema_ok) (GetUserDatabases uid n p)"
  "keeps (holds schema_ok) (GetUsers uid)" "keeps (holds schema_ok) (GetDatabases pid uid)"
  "keeps (holds schema_ok) (GetPassword pid)"
  unfolding pg_store_defs by (intro keeps_intros schema_keeps; assumption)+

lemma pg_store_quiet [quiet_intros]:
  "quiet (findPID uid n p)" "quiet (AddUser_pg u)" "quiet (AddDatabase u d)" "quiet (RemoveDatabase u d)"
  "quiet (RemoveUser_pg u)" "quiet (GetUserDatabases uid n p)" "quiet (GetUsers uid)"
  "quiet (GetDatabases pid uid)" "quiet (GetPassword pid)"
  unfolding pg_store_defs by (intro quiet_intros quiet_serve sql_no_crash pg_id_no_crash)+

section \<open>Quotas\<close>

definition pg_quota :: "tables \<Rightarrow> bool" where
  "pg_quota t \<longleftrightarrow>
     (\<forall>uid. rows_matching (\<lambda>r. p_user r = uid) (pg_users t) \<le> MAX_SERVICE_DB_USERS) \<and>
     (\<forall>pid. rows_matching (\<lambda>r. pd_pid r = pid) (pg_dbs t) \<le> MAX_SERVICE_DB_DB)"

lemma rows_matching_filter: "rows_matching P (filter Q rs) \<le> rows_matching P rs"
proof -
  have "length (filter P (filter Q rs)) \<le> length (filter P rs)" by (induction rs) auto
  then show ?thesis by (simp add: rows_matching_def del: filter_filter)
qed

lemma rows_matching_snoc: "rows_matching P (rs @ [r]) = rows_matching P rs + (if P r then 1 else 0)"
  by (simp add: rows_matching_def)

lemma quota_insert_user:
  assumes "pg_quota t" and "rows_matching (\<lambda>r. p_user r = uid) (pg_users t) < MAX_SERVICE_DB_USERS"
  shows "pg_quota (snd (sql_insert_pg_user uid name pass t))"
  using assms by (auto simp: pg_quota_def sql_insert_pg_user_def Let_def rows_matching_snoc)

lemma quota_insert_db:
  assumes "pg_quota t" and "rows_matching (\<lambda>r. pd_pid r = pid) (pg_dbs t) < MAX_SERVICE_DB_DB"
  shows "pg_quota (snd (sql_insert_pg_db pid name t))"
  using assms by (auto simp: pg_quota_def sql_insert_pg_db_def rows_matching_snoc)

lemma quota_deletes:
  assumes "pg_quota t"
  shows "pg_quota (snd (sql_delete_pg_db pid name t))" "pg_quota (snd (sql_delete_pg_user uid name pass t))"
  using assms
  by (auto simp: pg_quota_def sql_delete_pg_db_def sql_delete_pg_user_def Let_def
      intro: order_trans [OF rows_matching_filter])

text \<open>A count that is read and then a guarded insert: the shape of both additions.\<close>

lemma counted_insert_keeps:
  fixes cnt :: "tables \<Rightarrow> int"
  assumes "\<And>t. I t \<Longrightarrow> cnt t < limit \<Longrightarrow> I (snd (ins t))" and "\<And>e. keeps (holds I) (h e)"
  shows "keeps (holds I)
    (tri (serve (sql_read (\<lambda>t. Ok (cnt t))))
       (\<lambda>n. if n \<ge> limit then fail e0 else handle (serve ins) h ret))"
proof (rule keepsI)
  fix s assume I: "holds I s"
  obtain t as where s: "s = (t, as)" by (cases s)
  obtain q t1 as1 where c: "serve (sql_read (\<lambda>t. Ok (cnt t))) (t, as) = (q, (t1, as1))" by (metis prod.exhaust)
  have t1: "t1 = t" using serve_read_state [of "\<lambda>t. Ok (cnt t)" "(t, as)"] c by simp
  show "holds I (snd (tri (serve (sql_read (\<lambda>t. Ok (cnt t))))
       (\<lambda>n. if n \<ge> limit then fail e0 else handle (serve ins) h ret) s))"
  proof (cases "q = Ok (cnt t) \<and> cnt t < limit")
    case True
    obtain p s2 where i: "serve ins (t, as1) = (p, s2)" by (metis prod.exhaust)
    have "holds I s2"
      using serve_state [of ins "(t, as1)"] i I s True assms(1) by (auto simp: holds_def)
    moreover from this have "holds I (snd (h e s2))" for e using assms(2) by (rule keepsD [rotated])
    ultimately show ?thesis
      using True c t1 i s by (cases p) (auto simp: tri_eq handle_def ret_def)
  next
    case False
    have "q = Ok n \<Longrightarrow> n = cnt t" for n
      using c by (auto dest!: serve_OkD simp: sql_read_def)
    with False I s c t1 show ?thesis by (cases q) (auto simp: tri_eq fail_def)
  qed
qed

lemma AddUser_quota: "keeps (holds pg_quota) (AddUser_pg u)"
  unfolding AddUser_pg_def
  by (intro counted_insert_keeps keeps_intros quota_insert_user; assumption)

lemma findPID_keeps [keeps_intros]: "keeps (holds I) (findPID uid n p)"
  unfolding findPID_def by (intro keeps_intros)

lemma AddDatabase_quota: "keeps (holds pg_quota) (AddDatabase u d)"
  unfolding AddDatabase_def
  by (intro keeps_tri findPID_keeps counted_insert_keeps keeps_intros quota_insert_db; assumption)

lemma removals_quota: "keeps (holds pg_quota) (RemoveDatabase u d)" "keeps (holds pg_quota) (RemoveUser_pg u)"
  unfolding RemoveDatabase_def RemoveUser_pg_def
  by (intro keeps_intros keeps_serve quota_deletes; assumption)+

datatype pg_call = CallAddUser PGServiceUser | CallAddDb PGServiceUser PGServiceDatabase
  | CallDropDb PGServiceUser PGServiceDatabase | CallDropUser PGServiceUser

fun run_pg :: "pg_call \<Rightarrow> db \<Rightarrow> db" where
  "run_pg (CallAddUser u) s = snd (AddUser_pg u s)"
| "run_pg (CallAddDb u d) s = snd (AddDatabase u d s)"
| "run_pg (CallDropDb u d) s = snd (RemoveDatabase u d s)"
| "run_pg (CallDropUser u) s = snd (RemoveUser_pg u s)"

lemma run_pg_inv:
  "holds schema_ok s \<Longrightarrow> holds pg_quota s \<Longrightarrow> holds schema_ok (run_pg c s) \<and> holds pg_quota (run_pg c s)"
  using pg_store_schema [THEN keepsD] AddUser_quota [THEN keepsD] AddDatabase_quota [THEN keepsD]
    removals_quota [THEN keepsD]
  by (cases "(c, s)" rule: run_pg.cases) simp_all

lemma run_pgs_inv:
  "holds schema_ok s \<Longrightarrow> holds pg_quota s \<Longrightarrow>
     holds schema_ok (fold run_pg cs s) \<and> holds pg_quota (fold run_pg cs s)"
  by (induction cs arbitrary: s) (simp_all add: run_pg_inv)

text \<open>Calls of the Postgres record that run one after the other, whatever fails, keep every user
  within five service users and every service user within ten databases, the names of service
  users unique, and every recorded database with an existing owner.\<close>

lemma pg_calls_keep_quota:
  assumes "schema_ok t" and "pg_quota t"
  shows "let t' = fst (fold run_pg cs (t, as))
         in pg_quota t' \<and> distinct (map p_name (pg_users t')) \<and>
            pd_pid ` set (pg_dbs t') \<subseteq> p_id ` set (pg_users t')"
proof -
  obtain t' as' where r: "fold run_pg cs (t, as) = (t', as')" by (metis prod.exhaust)
  have "schema_ok t' \<and> pg_quota t'" using run_pgs_inv [of "(t, as)" cs] assms r by simp
  with r show ?thesis by (auto simp: schema_ok_def pg_users_ok_def pg_dbs_ok_def)
qed

lemma pg_calls_keep_quota_witness:
  "let t' = fst (fold run_pg [CallAddUser (CreatePgServiceUser 1 ''a'' ''b'')] (empty_tables, []))
   in pg_quota t' \<and> distinct (map p_name (pg_users t')) \<and> pd_pid ` set (pg_dbs t') \<subseteq> p_id ` set (pg_users t')"
  by (rule pg_calls_keep_quota [OF schema_ok_empty])
     (simp add: pg_quota_def empty_tables_def rows_matching_def)

section \<open>Who can read and remove what\<close>

lemma pg_id_of_Ok:
  "pg_id_of u t = Ok pid \<Longrightarrow>
     \<exists>r \<in> set (pg_users t). p_id r = pid \<and> p_user r = Pg_Uid u \<and> p_name r = Pg_UserName u \<and> p_pass r = Pg_Password u"
proof -
  assume "pg_id_of u t = Ok pid"
  then obtain r rest where "filter (\<lambda>r. p_name r = Pg_UserName u \<and> p_pass r = Pg_Password u \<and> p_user r = Pg_Uid u)
      (pg_users t) = r # rest" and "pid = p_id r"
    by (auto simp: pg_id_of_def first_row_def split: list.splits)
  then have "r \<in> set (pg_users t)" "p_user r = Pg_Uid u" "p_name r = Pg_UserName u" "p_pass r = Pg_Password u"
    by (auto simp: filter_eq_Cons_iff)
  with \<open>pid = p_id r\<close> show ?thesis by blast
qed

text \<open>\<open>RemoveDatabase\<close> removes nothing but the named database of a service user that belongs to the
  caller and whose name and password the caller gave: every other row of the table survives, whatever
  fails.\<close>

lemma RemoveDatabase_only_own:
  assumes "RemoveDatabase u d (t, as) = (r, (t', as'))" and "x \<in> set (pg_dbs t)" and "x \<notin> set (pg_dbs t')"
  shows "pd_name x = Pg_DbName d \<and>
    (\<exists>own \<in> set (pg_users t). p_id own = pd_pid x \<and> p_user own = Pg_Uid u \<and> p_name own = Pg_UserName u \<and> p_pass own = Pg_Password u)"
proof -
  obtain q t1 as1 where f: "serve (sql_read (pg_id_of u)) (t, as) = (q, (t1, as1))" by (metis prod.exhaust)
  have t1: "t1 = t" using serve_read_state [of "pg_id_of u" "(t, as)"] f by simp
  show ?thesis
  proof (cases q)
    case (Ok pid)
    with f have pid: "pg_id_of u t = Ok pid" by (auto dest!: serve_OkD simp: sql_read_def)
    obtain p t2 as2 where del: "serve (sql_delete_pg_db pid (Pg_DbName d)) (t, as1) = (p, (t2, as2))"
      by (metis prod.exhaust)
    have "t2 = t \<or> t2 = snd (sql_delete_pg_db pid (Pg_DbName d) t)"
      using serve_state [of "sql_delete_pg_db pid (Pg_DbName d)" "(t, as1)"] del by simp
    moreover have "t' = t2" using assms(1) f t1 Ok del
      by (cases p) (auto simp: RemoveDatabase_def prog_defs split: if_splits)
    ultimately show ?thesis using assms(2,3) pg_id_of_Ok [OF pid] by (auto simp: sql_delete_pg_db_def)
  qed (use assms f t1 in \<open>auto simp: RemoveDatabase_def prog_defs\<close>)
qed

end
