(* ===== verification/Domain_Store.thy ===== *)
theory Domain_Store
  imports Stores
begin

text \<open>
  \<^verbatim>\<open>internal/store/domains.go\<close> and \<^verbatim>\<open>internal/store/tunnels.go\<close>: the
  domain names under which containers and tunnels are published. The lemmas bound the number of
  domains a user can register and show that the registered names stay unique.
\<close>

section \<open>Domains\<close>

definition AddDomain :: "Domain \<Rightarrow> (db, unit) prog" where
  "AddDomain domain =
     handle (serve (sql_insert_domain (Dom_Uid domain) (Dom_Name domain) (Dom_Port domain) True))
       (\<lambda>e. if pg_code_is ''23505'' e then fail (ErrText DOMAIN_ALREADY_EXISTS) else fail e)
       ret"

definition RemoveDomain :: "Domain \<Rightarrow> (db, unit) prog" where
  "RemoveDomain domain = tri (serve (sql_delete_domain (Dom_Uid domain) (Dom_Name domain))) (\<lambda>_. ret ())"

text \<open>The loop over the rows does not look at \<^verbatim>\<open>rows.Err()\<close>.\<close>

definition GetUserDomains :: "Domain \<Rightarrow> (db, web_Domain list) prog" where
  "GetUserDomains domain =
     tri (serve_rows (\<lambda>t. map (\<lambda>r. \<lparr>Wd_Name = d_name r, Wd_Port = d_port r, Wd_Status = ''Active''\<rparr>)
                         (filter (\<lambda>r. d_user r = Dom_Uid domain \<and> d_code r = False) (domains t))))
       (\<lambda>rows. ret (fst rows))"

definition AddUserDomain_store :: "Domain \<Rightarrow> (db, unit) prog" where
  "AddUserDomain_store domain =
     tri (serve (sql_read (\<lambda>t. Ok (rows_matching (\<lambda>r. d_user r = Dom_Uid domain) (domains t)))))
       (\<lambda>count.
          if count \<ge> USER_DOMAIN_LIMIT then fail (ErrText DOMAIN_LIMIT_EXCEEDED)
          else serve (sql_insert_domain (Dom_Uid domain) (Dom_Name domain) (Dom_Port domain) False))"

definition RemoveUserDomain_store :: "Domain \<Rightarrow> (db, unit) prog" where
  "RemoveUserDomain_store domain =
     tri (serve (sql_delete_domain (Dom_Uid domain) (Dom_Name domain))) (\<lambda>_. ret ())"

definition DeleteUserDomains :: "Domain \<Rightarrow> (db, unit) prog" where
  "DeleteUserDomains domain = tri (serve (sql_delete_user_domains (Dom_Uid domain))) (\<lambda>_. ret ())"

section \<open>Tunnels\<close>

definition CreateTunnel_store :: "Tunnels \<Rightarrow> (db, unit) prog" where
  "CreateTunnel_store tunnel =
     handle (serve (sql_insert_tunnel (Tun_UID tunnel) (Tun_Domain tunnel) (Tun_IsCustom tunnel) (Tun_Name tunnel)))
       (\<lambda>e. if contains (error_text e) ''23505'' then fail (ErrText ''Tunnel entry already exists'') else fail e)
       ret"

text \<open>The error of the DELETE is logged and dropped.\<close>

definition DestroyTunnel_store :: "Tunnels \<Rightarrow> (db, unit) prog" where
  "DestroyTunnel_store tunnel =
     handle (serve (sql_delete_tunnel (Tun_Name tunnel) (Tun_UID tunnel))) (\<lambda>e. ret ()) (\<lambda>_. ret ())"

definition GetDomainFromTunnel :: "Tunnels \<Rightarrow> (db, string) prog" where
  "GetDomainFromTunnel tunnel =
     handle (serve (sql_read (\<lambda>t. first_row (\<lambda>r. t_name r = Tun_Name tunnel \<and> t_user r = Tun_UID tunnel)
                                 t_domain (tunnels t))))
       (\<lambda>e. fail (ErrText NO_DOMAIN_FOR_TUNNEL)) ret"

lemmas domain_store_defs =
  AddDomain_def RemoveDomain_def GetUserDomains_def AddUserDomain_store_def RemoveUserDomain_store_def
  DeleteUserDomains_def CreateTunnel_store_def DestroyTunnel_store_def GetDomainFromTunnel_def

lemma domain_store_schema [keeps_intros]:
  "keeps (holds schema_ok) (AddDomain d)" "keeps (holds schema_ok) (RemoveDomain d)"
  "keeps (holds schema_ok) (GetUserDomains d)" "keeps (holds schema_ok) (AddUserDomain_store d)"
  "keeps (holds schema_ok) (RemoveUserDomain_store d)" "keeps (holds schema_ok) (DeleteUserDomains d)"
  "keeps (holds schema_ok) (CreateTunnel_store t)" "keeps (holds schema_ok) (DestroyTunnel_store t)"
  "keeps (holds schema_ok) (GetDomainFromTunnel t)"
  unfolding domain_store_defs by (intro keeps_intros schema_keeps; assumption)+

lemma domain_store_quiet [quiet_intros]:
  "quiet (AddDomain d)" "quiet (RemoveDomain d)" "quiet (GetUserDomains d)" "quiet (AddUserDomain_store d)"
  "quiet (RemoveUserDomain_store d)" "quiet (DeleteUserDomains d)" "quiet (CreateTunnel_store t)"
  "quiet (DestroyTunnel_store t)" "quiet (GetDomainFromTunnel t)"
  unfolding domain_store_defs by (intro quiet_intros sql_no_crash)+

section \<open>How many domains a user can have\<close>

text \<open>
  Names the user registered (\<open>is_code\<close> false) and the name of the code server count together
  against the limit, but only \<open>AddUserDomain\<close> checks it.
\<close>

definition own_domains :: "int \<Rightarrow> tables \<Rightarrow> domain_row list" where
  "own_domains uid t = filter (\<lambda>r. d_user r = uid \<and> \<not> d_code r) (domains t)"

definition domain_limit :: "tables \<Rightarrow> bool" where
  "domain_limit t \<longleftrightarrow> (\<forall>uid. int (length (own_domains uid t)) \<le> USER_DOMAIN_LIMIT)"

lemma own_le_all: "length (own_domains uid t) \<le> length (filter (\<lambda>r. d_user r = uid) (domains t))"
proof -
  have "length (filter (\<lambda>r. d_user r = uid \<and> \<not> d_code r) rs) \<le> length (filter (\<lambda>r. d_user r = uid) rs)"
    for rs by (induction rs) auto
  then show ?thesis by (simp add: own_domains_def)
qed

lemma domain_insert_limit:
  assumes "domain_limit t" and "rows_matching (\<lambda>r. d_user r = uid) (domains t) < USER_DOMAIN_LIMIT"
  shows "domain_limit (snd (sql_insert_domain uid name port code t))"
proof -
  have "int (length (own_domains uid t)) < 3"
    using own_le_all [of uid t] assms(2) by (simp add: rows_matching_def)
  with assms(1) show ?thesis
    by (auto simp: domain_limit_def own_domains_def sql_insert_domain_def)
qed

lemma domain_insert_code_limit:
  "domain_limit t \<Longrightarrow> domain_limit (snd (sql_insert_domain uid name port True t))"
  by (simp add: domain_limit_def own_domains_def sql_insert_domain_def)

lemma domain_delete_limit:
  assumes "domain_limit t"
  shows "domain_limit (snd (sql_delete_domain uid name t))" "domain_limit (snd (sql_delete_user_domains uid t))"
proof -
  have le: "length (filter P (filter Q rs)) \<le> length (filter P rs)" for P Q and rs :: "domain_row list"
    by (induction rs) auto
  have "int (length (filter P (filter Q rs))) \<le> 3" if "int (length (filter P rs)) \<le> 3"
    for P Q and rs :: "domain_row list"
    using that le [of P Q rs] by linarith
  then show "domain_limit (snd (sql_delete_domain uid name t))" "domain_limit (snd (sql_delete_user_domains uid t))"
    using assms by (simp_all add: domain_limit_def own_domains_def sql_delete_domain_def
        sql_delete_user_domains_def del: filter_filter)
qed

lemma AddUserDomain_limit: "keeps (holds domain_limit) (AddUserDomain_store d)"
proof (rule keepsI)
  fix s assume I: "holds domain_limit s"
  obtain t as where s: "s = (t, as)" by (cases s)
  let ?cnt = "\<lambda>t. Ok (rows_matching (\<lambda>r. d_user r = Dom_Uid d) (domains t))"
  let ?ins = "sql_insert_domain (Dom_Uid d) (Dom_Name d) (Dom_Port d) False"
  obtain q t1 as1 where c: "serve (sql_read ?cnt) (t, as) = (q, (t1, as1))" by (metis prod.exhaust)
  have t1: "t1 = t" using serve_read_state [of ?cnt "(t, as)"] c by simp
  show "holds domain_limit (snd (AddUserDomain_store d s))"
  proof (cases q)
    case (Ok n)
    with c have n: "n = rows_matching (\<lambda>r. d_user r = Dom_Uid d) (domains t)"
      by (auto dest!: serve_OkD simp: sql_read_def)
    show ?thesis
    proof (cases "n \<ge> USER_DOMAIN_LIMIT")
      case True
      with I s c t1 Ok show ?thesis by (simp add: AddUserDomain_store_def tri_eq fail_def)
    next
      case False
      with n I s have "domain_limit (snd (?ins t))" by (intro domain_insert_limit) simp_all
      with I s c t1 Ok False serve_state [of ?ins "(t, as1)"] show ?thesis
        by (auto simp: AddUserDomain_store_def tri_eq holds_def)
    qed
  qed (use I s c t1 in \<open>auto simp: AddUserDomain_store_def tri_eq\<close>)
qed

lemma domain_store_limit:
  "keeps (holds domain_limit) (AddDomain d)" "keeps (holds domain_limit) (RemoveDomain d)"
  "keeps (holds domain_limit) (RemoveUserDomain_store d)" "keeps (holds domain_limit) (DeleteUserDomains d)"
  unfolding domain_store_defs
  by (intro keeps_intros keeps_serve domain_insert_code_limit domain_delete_limit; assumption)+

datatype domain_call = CallAddCode Domain | CallAddUser Domain | CallRemove Domain | CallRemoveUser Domain | CallClear Domain

fun run_domain :: "domain_call \<Rightarrow> db \<Rightarrow> db" where
  "run_domain (CallAddCode d) s = snd (AddDomain d s)"
| "run_domain (CallAddUser d) s = snd (AddUserDomain_store d s)"
| "run_domain (CallRemove d) s = snd (RemoveDomain d s)"
| "run_domain (CallRemoveUser d) s = snd (RemoveUserDomain_store d s)"
| "run_domain (CallClear d) s = snd (DeleteUserDomains d s)"

lemma run_domain_inv:
  assumes "holds schema_ok s" and "holds domain_limit s"
  shows "holds schema_ok (run_domain c s) \<and> holds domain_limit (run_domain c s)"
  using assms domain_store_schema [THEN keepsD] domain_store_limit [THEN keepsD]
    AddUserDomain_limit [THEN keepsD]
  by (cases "(c, s)" rule: run_domain.cases) simp_all

lemma run_domains_inv:
  "holds schema_ok s \<Longrightarrow> holds domain_limit s \<Longrightarrow>
     holds schema_ok (fold run_domain cs s) \<and> holds domain_limit (fold run_domain cs s)"
  by (induction cs arbitrary: s) (simp_all add: run_domain_inv)

text \<open>Calls of the domain store that run one after the other, whatever fails, leave no user with more
  than three names of his own and no name registered twice.\<close>

lemma domain_calls_keep_limit:
  assumes "schema_ok t" and "domain_limit t"
  shows "let t' = fst (fold run_domain cs (t, as))
         in domain_limit t' \<and> distinct (map d_name (domains t'))"
  using run_domains_inv [of "(t, as)" cs] assms
  by (simp add: holds_def schema_ok_def domains_ok_def Let_def)

lemma domain_calls_keep_limit_witness:
  "let t' = fst (fold run_domain [CallAddUser \<lparr>Dom_Uid = 1, Dom_Name = ''a'', Dom_Port = 80\<rparr>] (empty_tables, []))
   in domain_limit t' \<and> distinct (map d_name (domains t'))"
  by (rule domain_calls_keep_limit [OF schema_ok_empty])
     (simp add: domain_limit_def own_domains_def empty_tables_def)

end
