(* ===== verification/Quota_Race.thy ===== *)
theory Quota_Race
  imports Pg_Store Domain_Store
begin

text \<open>
  Additions that overlap, for the three quotas that are counted with a comparison: published names
  (\<^verbatim>\<open>internal/store/domains.go\<close>), service users and service databases
  (\<^verbatim>\<open>internal/store/pg_service.go\<close>). As for devices, the count and the insertion are two statements
  without a transaction around them. Here the damage is bounded: a quota can be exceeded by at most one less than
  the number of additions that overlap.
\<close>

section \<open>Additions\<close>

text \<open>What is counted together; a service database is counted under the id its service user was found to have.\<close>

datatype quota_key = Names int | Service_users int | Service_dbs int

datatype addition = Publish Domain | Service_user PGServiceUser | Service_db int PGServiceDatabase

fun addition_key :: "addition \<Rightarrow> quota_key" where
  "addition_key (Publish d) = Names (Dom_Uid d)"
| "addition_key (Service_user u) = Service_users (Pg_Uid u)"
| "addition_key (Service_db pid d) = Service_dbs pid"

fun quota :: "quota_key \<Rightarrow> int" where
  "quota (Names uid) = USER_DOMAIN_LIMIT"
| "quota (Service_users uid) = MAX_SERVICE_DB_USERS"
| "quota (Service_dbs pid) = MAX_SERVICE_DB_DB"

text \<open>What the statements count: for names also the one of the code server, which has no quota.\<close>

fun counted :: "quota_key \<Rightarrow> tables \<Rightarrow> int" where
  "counted (Names uid) t = rows_matching (\<lambda>r. d_user r = uid) (domains t)"
| "counted (Service_users uid) t = rows_matching (\<lambda>r. p_user r = uid) (pg_users t)"
| "counted (Service_dbs pid) t = rows_matching (\<lambda>r. pd_pid r = pid) (pg_dbs t)"

definition room_left :: "quota_key \<Rightarrow> (db, bool) prog" where
  "room_left k = tri (serve (sql_read (\<lambda>t. Ok (counted k t)))) (\<lambda>n. ret (n < quota k))"

fun finish_addition :: "addition \<Rightarrow> (db, unit) prog" where
  "finish_addition (Publish d) = serve (sql_insert_domain (Dom_Uid d) (Dom_Name d) (Dom_Port d) False)"
| "finish_addition (Service_user u) =
     handle (serve (sql_insert_pg_user (Pg_Uid u) (Pg_UserName u) (Pg_Password u)))
       (\<lambda>e. if contains (error_text e) ''23505'' then fail (ErrText PG_USER_ALREDAY_EXISTS) else fail e)
       (\<lambda>_. ret ())"
| "finish_addition (Service_db pid d) =
     handle (serve (sql_insert_pg_db pid (Pg_DbName d)))
       (\<lambda>e. if contains (error_text e) ''23505'' then fail (ErrText PG_DB_ALREDAY_EXISTS) else fail e)
       ret"

lemma additions_in_two_steps:
  "AddUserDomain_store d s = tri (room_left (Names (Dom_Uid d)))
     (\<lambda>ok. if ok then finish_addition (Publish d) else fail (ErrText DOMAIN_LIMIT_EXCEEDED)) s"
  "tri (AddUser_pg u) (\<lambda>_. ret ()) s = tri (room_left (Service_users (Pg_Uid u)))
     (\<lambda>ok. if ok then finish_addition (Service_user u) else fail (ErrText PG_MAX_USER_LIMIT)) s"
  "AddDatabase u db s = tri (findPID (Pg_Uid u) (Pg_UserName u) (Pg_Password u))
     (\<lambda>pid. tri (room_left (Service_dbs pid))
        (\<lambda>ok. if ok then finish_addition (Service_db pid db) else fail (ErrText PG_MAX_DB_LIMIT))) s"
  by (auto simp: AddUserDomain_store_def AddUser_pg_def AddDatabase_def room_left_def tri_eq handle_def fail_def ret_def
      split: prod.split res.split)

text \<open>The other calls that change the three tables.\<close>

datatype other_call = Code_name Domain | Withdraw Domain | Withdraw_code Domain | Withdraw_all Domain
  | Drop_db PGServiceUser PGServiceDatabase | Drop_user PGServiceUser

fun run_other :: "other_call \<Rightarrow> (db, unit) prog" where
  "run_other (Code_name d) = AddDomain d"
| "run_other (Withdraw d) = RemoveUserDomain_store d"
| "run_other (Withdraw_code d) = RemoveDomain d"
| "run_other (Withdraw_all d) = DeleteUserDomains d"
| "run_other (Drop_db u d) = RemoveDatabase u d"
| "run_other (Drop_user u) = RemoveUser_pg u"

record adding =
  adding_db :: tables
  under_way :: "addition list"

inductive adding_step :: "nat \<Rightarrow> adding \<Rightarrow> adding \<Rightarrow> bool" for cap where
  room: "room_left (addition_key a) (adding_db s, as) = (Ok True, d) \<Longrightarrow>
    length (filter (\<lambda>b. addition_key b = addition_key a) (under_way s)) < cap \<Longrightarrow>
    adding_step cap s (s\<lparr>under_way := a # under_way s\<rparr>)"
| insert: "a \<in> set (under_way s) \<Longrightarrow> finish_addition a (adding_db s, as) = (r, d) \<Longrightarrow>
    adding_step cap s \<lparr>adding_db = fst d, under_way = remove1 a (under_way s)\<rparr>"
| other: "run_other c (adding_db s, as) = (r, d) \<Longrightarrow> adding_step cap s (s\<lparr>adding_db := fst d\<rparr>)"

section \<open>How far a quota can be exceeded\<close>

text \<open>What the quota is about: for names those the user has published.\<close>

fun recorded :: "quota_key \<Rightarrow> tables \<Rightarrow> int" where
  "recorded (Names uid) t = int (length (own_domains uid t))"
| "recorded k t = counted k t"

lemma recorded_counted: "recorded k t \<le> counted k t"
  using own_le_all by (cases k) (simp_all add: rows_matching_def)

lemma room_left_Ok: "room_left k (t, as) = (Ok True, d) \<Longrightarrow> recorded k t < quota k"
  using recorded_counted [of k t]
  by (auto simp: room_left_def ret_def sql_read_def elim!: tri_OkE dest!: serve_OkD)

lemma inserts_record:
  "recorded k (snd (sql_insert_domain uid n p False t)) \<le> recorded k t + (if k = Names uid then 1 else 0)"
  "recorded k (snd (sql_insert_pg_user uid n pw t)) \<le> recorded k t + (if k = Service_users uid then 1 else 0)"
  "recorded k (snd (sql_insert_pg_db pid n t)) \<le> recorded k t + (if k = Service_dbs pid then 1 else 0)"
  by (cases k; simp add: sql_insert_domain_def sql_insert_pg_user_def sql_insert_pg_db_def own_domains_def
      rows_matching_snoc Let_def)+

fun statement_of :: "addition \<Rightarrow> tables \<Rightarrow> tables" where
  "statement_of (Publish d) t = snd (sql_insert_domain (Dom_Uid d) (Dom_Name d) (Dom_Port d) False t)"
| "statement_of (Service_user u) t = snd (sql_insert_pg_user (Pg_Uid u) (Pg_UserName u) (Pg_Password u) t)"
| "statement_of (Service_db pid d) t = snd (sql_insert_pg_db pid (Pg_DbName d) t)"

lemma finish_state:
  assumes "finish_addition a (t, as) = (r, d)"
  shows "fst d = t \<or> fst d = statement_of a t"
proof -
  have plain: "fst (snd (handle m (\<lambda>e. if P e then fail e1 else fail e) (\<lambda>_. ret ()) s)) = fst (snd (m s))"
    for m :: "(db, 'b) prog" and P e1 s
    by (auto simp: handle_def fail_def ret_def split: prod.split res.split)
  have plain_ret: "fst (snd (handle m (\<lambda>e. if P e then fail e1 else fail e) ret s)) = fst (snd (m s))"
    for m :: "(db, 'b) prog" and P e1 s
    by (auto simp: handle_def fail_def ret_def split: prod.split res.split)
  have "d = snd (finish_addition a (t, as))" using assms by simp
  then show ?thesis
    using serve_state [of "sql_insert_domain uid n p False" "(t, as)" for uid n p]
      serve_state [of "sql_insert_pg_user uid n pw" "(t, as)" for uid n pw]
      serve_state [of "sql_insert_pg_db pid n" "(t, as)" for pid n]
    by (cases a) (simp_all add: plain plain_ret)
qed

lemma finish_records:
  assumes "finish_addition a (t, as) = (r, d)"
  shows "recorded k (fst d) \<le> recorded k t + (if addition_key a = k then 1 else 0)"
proof -
  have "recorded k (statement_of a t) \<le> recorded k t + (if k = addition_key a then 1 else 0)"
    by (cases a) (simp_all only: statement_of.simps addition_key.simps inserts_record)
  with finish_state [OF assms] show ?thesis by (auto split: if_splits)
qed

lemma deletes_record:
  "recorded k (snd (sql_delete_domain uid n t)) \<le> recorded k t"
  "recorded k (snd (sql_delete_user_domains uid t)) \<le> recorded k t"
  "recorded k (snd (sql_delete_pg_db pid n t)) \<le> recorded k t"
  "recorded k (snd (sql_delete_pg_user uid n pw t)) \<le> recorded k t"
  "recorded k (snd (sql_insert_domain uid n p True t)) \<le> recorded k t"
proof -
  have le: "length (filter P (filter Q rs)) \<le> length (filter P rs)" for P Q and rs :: "domain_row list"
    by (induction rs) auto
  show "recorded k (snd (sql_delete_domain uid n t)) \<le> recorded k t"
    "recorded k (snd (sql_delete_user_domains uid t)) \<le> recorded k t"
    using le by (cases k; simp add: sql_delete_domain_def sql_delete_user_domains_def own_domains_def rows_matching_filter
        del: filter_filter)+
  show "recorded k (snd (sql_delete_pg_db pid n t)) \<le> recorded k t"
    "recorded k (snd (sql_delete_pg_user uid n pw t)) \<le> recorded k t"
    by (cases k; simp add: sql_delete_pg_db_def sql_delete_pg_user_def own_domains_def rows_matching_filter Let_def)+
  show "recorded k (snd (sql_insert_domain uid n p True t)) \<le> recorded k t"
    by (cases k; simp add: sql_insert_domain_def own_domains_def)
qed

lemma other_records:
  assumes "run_other c (t, as) = (r, d)"
  shows "recorded k (fst d) \<le> recorded k t"
proof -
  have "keeps (holds (\<lambda>u. recorded k u \<le> recorded k t)) (run_other c)"
    by (cases c; simp add: AddDomain_def RemoveUserDomain_store_def RemoveDomain_def DeleteUserDomains_def
        RemoveDatabase_def RemoveUser_pg_def; intro keeps_intros keeps_serve)
      (auto intro: order_trans [OF deletes_record(1)] order_trans [OF deletes_record(2)] order_trans [OF deletes_record(3)]
        order_trans [OF deletes_record(4)] order_trans [OF deletes_record(5)] simp: sql_read_def)
  from keeps_run [OF this _ assms] show ?thesis by (simp add: holds_def)
qed


definition quota_slack :: "nat \<Rightarrow> adding \<Rightarrow> bool" where
  "quota_slack cap s \<longleftrightarrow>
     (\<forall>k. recorded k (adding_db s) + int (length (filter (\<lambda>b. addition_key b = k) (under_way s))) < quota k + int cap)"

lemma filter_remove1_length:
  "a \<in> set as \<Longrightarrow> length (filter P as) = length (filter P (remove1 a as)) + (if P a then 1 else 0)"
  by (induction as) auto

lemma slack_step: "adding_step cap s s' \<Longrightarrow> quota_slack cap s \<Longrightarrow> quota_slack cap s'"
proof (induction rule: adding_step.induct)
  case (room a s as d)
  then have "recorded (addition_key a) (adding_db s) < quota (addition_key a)" by (blast intro: room_left_Ok)
  with room(2,3) show ?case by (auto simp: quota_slack_def)
next
  case (insert a s as r d)
  have "recorded k (fst d) + int (length (filter (\<lambda>b. addition_key b = k) (remove1 a (under_way s)))) < quota k + int cap" for k
  proof -
    have "recorded k (adding_db s) + int (length (filter (\<lambda>b. addition_key b = k) (under_way s))) < quota k + int cap"
      using insert(3) by (simp add: quota_slack_def)
    with finish_records [OF insert(2), of k] filter_remove1_length [OF insert(1), of "\<lambda>b. addition_key b = k"]
    show ?thesis by (simp split: if_splits)
  qed
  then show ?case by (simp add: quota_slack_def)
next
  case (other c s as r d)
  have "recorded k (fst d) + int (length (filter (\<lambda>b. addition_key b = k) (under_way s))) < quota k + int cap" for k
    using other_records [OF other(1), of k] other(2) by (auto simp: quota_slack_def dest!: spec [of _ k])
  then show ?case by (simp add: quota_slack_def)
qed

lemma slack_reach: "(adding_step cap)\<^sup>*\<^sup>* s s' \<Longrightarrow> quota_slack cap s \<Longrightarrow> quota_slack cap s'"
  by (induction rule: rtranclp_induct) (blast intro: slack_step)+

text \<open>C14: publications of names and creations of service users and service databases may interleave in any way, with
  withdrawals and removals in between and whatever the database answers: if at most \<open>cap\<close> additions to one quota
  are under way at once, the quota is exceeded by less than \<open>cap\<close>. For one at a time these are the quotas
  themselves.\<close>

theorem overlapping_additions_bounded:
  assumes "(adding_step cap)\<^sup>*\<^sup>* \<lparr>adding_db = t, under_way = []\<rparr> s" and "domain_limit t" and "pg_quota t" and "0 < cap"
  shows "int (length (own_domains uid (adding_db s))) < USER_DOMAIN_LIMIT + int cap \<and>
    rows_matching (\<lambda>r. p_user r = uid) (pg_users (adding_db s)) < MAX_SERVICE_DB_USERS + int cap \<and>
    rows_matching (\<lambda>r. pd_pid r = pid) (pg_dbs (adding_db s)) < MAX_SERVICE_DB_DB + int cap"
proof -
  have le: "recorded k t \<le> quota k" for k
    using assms(2,3) by (cases k) (simp_all add: domain_limit_def pg_quota_def)
  have "recorded k t < quota k + int cap" for k
  proof -
    from le [of k] assms(4) show ?thesis by linarith
  qed
  then have "quota_slack cap \<lparr>adding_db = t, under_way = []\<rparr>" by (simp add: quota_slack_def)
  with assms(1) have slack: "quota_slack cap s" by (rule slack_reach)
  have "recorded k (adding_db s) < quota k + int cap" for k
    using slack by (auto simp: quota_slack_def dest!: spec [of _ k])
  from this [of "Names uid"] this [of "Service_users uid"] this [of "Service_dbs pid"] show ?thesis by simp
qed


text \<open>The bound is reached: a user with two names and two publications that overlap.\<close>

definition two_names :: tables where
  "two_names = empty_tables
     \<lparr>users := [\<lparr>u_id = 1, u_first = [], u_last = [], u_email = [], u_hash = [], u_name = [], u_verified = True\<rparr>],
      domains := map (\<lambda>n. \<lparr>d_user = 1, d_name = n, d_port = 80, d_code = False\<rparr>) [''a'', ''b'']\<rparr>"

definition publish :: "string \<Rightarrow> addition" where
  "publish n = Publish \<lparr>Dom_Uid = 1, Dom_Name = n, Dom_Port = 80\<rparr>"

definition after_names :: "string list \<Rightarrow> tables" where
  "after_names ns = fold (\<lambda>n. statement_of (publish n)) ns two_names"

lemma publish_runs:
  "finish_addition (publish n) (t, []) = (fst (finish_addition (publish n) (t, [])), (statement_of (publish n) t, []))"
  by (simp add: publish_def split: prod.split)

lemma publish_step:
  "publish n \<in> set as \<Longrightarrow> adding_step 2 \<lparr>adding_db = t, under_way = as\<rparr>
     \<lparr>adding_db = statement_of (publish n) t, under_way = remove1 (publish n) as\<rparr>"
  using adding_step.insert [of "publish n" "\<lparr>adding_db = t, under_way = as\<rparr>" "[]", OF _ publish_runs] publish_runs
  by simp

lemma two_publications:
  "(adding_step 2)\<^sup>*\<^sup>* \<lparr>adding_db = two_names, under_way = []\<rparr> \<lparr>adding_db = after_names [''c'', ''d''], under_way = []\<rparr>"
proof -
  have "adding_step 2 \<lparr>adding_db = two_names, under_way = []\<rparr> \<lparr>adding_db = two_names, under_way = [publish ''c'']\<rparr>"
    using adding_step.room [of "publish ''c''" "\<lparr>adding_db = two_names, under_way = []\<rparr>" "[]" "(two_names, [])" 2]
    by (simp add: room_left_def tri_eq sql_read_def ret_def publish_def two_names_def rows_matching_def)
  moreover have "adding_step 2 \<lparr>adding_db = two_names, under_way = [publish ''c'']\<rparr>
      \<lparr>adding_db = two_names, under_way = [publish ''d'', publish ''c'']\<rparr>"
    using adding_step.room [of "publish ''d''" "\<lparr>adding_db = two_names, under_way = [publish ''c'']\<rparr>" "[]" "(two_names, [])" 2]
    by (simp add: room_left_def tri_eq sql_read_def ret_def publish_def two_names_def rows_matching_def)
  moreover have "adding_step 2 \<lparr>adding_db = two_names, under_way = [publish ''d'', publish ''c'']\<rparr>
      \<lparr>adding_db = after_names [''c''], under_way = [publish ''d'']\<rparr>"
    using publish_step [of "''c''" "[publish ''d'', publish ''c'']" two_names]
    by (simp add: after_names_def publish_def)
  moreover have "adding_step 2 \<lparr>adding_db = after_names [''c''], under_way = [publish ''d'']\<rparr>
      \<lparr>adding_db = after_names [''c'', ''d''], under_way = []\<rparr>"
    using publish_step [of "''d''" "[publish ''d'']" "after_names [''c'']"]
    by (simp add: after_names_def publish_def)
  ultimately show ?thesis by (meson converse_rtranclp_into_rtranclp rtranclp.rtrancl_refl)
qed

theorem overlapping_additions_bounded_witness:
  "length (own_domains 1 (after_names [''c'', ''d''])) = 4 \<and>
   int (length (own_domains 1 (after_names [''c'', ''d'']))) < USER_DOMAIN_LIMIT + int 2 \<and>
   rows_matching (\<lambda>r. p_user r = 1) (pg_users (after_names [''c'', ''d''])) < MAX_SERVICE_DB_USERS + int 2 \<and>
   rows_matching (\<lambda>r. pd_pid r = 1) (pg_dbs (after_names [''c'', ''d''])) < MAX_SERVICE_DB_DB + int 2"
proof -
  have "domain_limit two_names" "pg_quota two_names"
    by (simp_all add: domain_limit_def own_domains_def pg_quota_def rows_matching_def two_names_def empty_tables_def)
  from overlapping_additions_bounded [OF two_publications this] have
    "int (length (own_domains 1 (after_names [''c'', ''d'']))) < USER_DOMAIN_LIMIT + int 2 \<and>
     rows_matching (\<lambda>r. p_user r = 1) (pg_users (after_names [''c'', ''d''])) < MAX_SERVICE_DB_USERS + int 2 \<and>
     rows_matching (\<lambda>r. pd_pid r = 1) (pg_dbs (after_names [''c'', ''d''])) < MAX_SERVICE_DB_DB + int 2"
    by simp
  moreover have "length (own_domains 1 (after_names [''c'', ''d''])) = 4" by code_simp
  ultimately show ?thesis by blast
qed

end
