(* ===== verification/Instance_Store.thy ===== *)
theory Instance_Store
  imports Alloc_Tx Models
begin

text \<open>
  \<^verbatim>\<open>internal/store/instance.go\<close>: the methods of \<^verbatim>\<open>InstanceStore\<close> over the
  tables \<^verbatim>\<open>instance\<close> (one row per user with a container) and \<^verbatim>\<open>userip\<close> (one
  address per user). The life cycle of a user's instance row is stated abstractly (absent,
  stopped, running) and the four methods that change it are shown to refine it for every script.
\<close>

section \<open>The methods\<close>

definition instance_row_of :: "int \<Rightarrow> string \<Rightarrow> string \<Rightarrow> string \<Rightarrow> instance_row" where
  "instance_row_of uid userName insUser insPassword =
     (let ins = CreateInstanceType uid userName
      in \<lparr>i_user = Ins_Uid ins, i_login = insUser, i_pass = insPassword, i_volume = VolumeName ins,
          i_container = ContainerName ins, i_type = InstanceType ins, i_running = True\<rparr>)"

definition CreateInstance_store :: "int \<Rightarrow> string \<Rightarrow> string \<Rightarrow> string \<Rightarrow> (db, unit) prog" where
  "CreateInstance_store uid userName insUser insPassword =
     serve (sql_insert_instance (instance_row_of uid userName insUser insPassword))"

definition StartInstance :: "int \<Rightarrow> (db, unit) prog" where
  "StartInstance uid =
     tri (serve (sql_read (\<lambda>t. first_row (\<lambda>r. i_user r = uid) i_running (instances t))))
       (\<lambda>isRunning.
          if isRunning then fail (ErrText CONTAINER_ALREADY_RUNNING)
          else tri (serve (sql_set_running uid True))
                 (\<lambda>rows. if rows = 0 then fail (ErrText CONTAINER_START_FAILED) else ret ()))"

definition RemoveInstance :: "int \<Rightarrow> (db, unit) prog" where
  "RemoveInstance uid =
     tri (serve (sql_delete_instance uid))
       (\<lambda>rows. if rows = 0 then fail (ErrText CONTAINER_STOP_FAILED) else ret ())"

definition StopInstance_store :: "int \<Rightarrow> (db, unit) prog" where
  "StopInstance_store uid =
     tri (serve (sql_set_running uid False))
       (\<lambda>rows. if rows = 0 then fail (ErrText CONTAINER_DELETE_FAILED) else ret ())"

definition Exists_store :: "int \<Rightarrow> (db, bool) prog" where
  "Exists_store uid =
     tri (serve (sql_read (\<lambda>t. Ok (rows_matching (\<lambda>r. i_user r = uid) (instances t)))))
       (\<lambda>c. if c \<noteq> 1 then ret False else ret True)"

definition zero_InsData :: InsData where
  "zero_InsData =
     \<lparr>Id_ContainerName = [], Id_Username = [], Id_InstanceStatus = [], Id_Active = [],
      Id_Instance = zero_web_Instance\<rparr>"

definition GetData :: "int \<Rightarrow> (db, InsData) prog" where
  "GetData uid =
     handle (serve (sql_read (\<lambda>t. first_row (\<lambda>r. i_user r = uid) (\<lambda>r. r) (instances t))))
       (\<lambda>e. if e = ErrNoRows
            then ret (zero_InsData\<lparr>Id_InstanceStatus := ''inactive'', Id_Active := ''no''\<rparr>)
            else fail e)
       (\<lambda>r. let insData = zero_InsData
                    \<lparr>Id_Instance := zero_web_Instance\<lparr>Wi_Username := i_login r, Wi_Password := i_pass r\<rparr>,
                     Id_ContainerName := i_container r\<rparr>
            in if i_running r
               then ret (insData\<lparr>Id_InstanceStatus := ''active'', Id_Active := ''exists''\<rparr>)
               else ret (insData\<lparr>Id_InstanceStatus := ''stopped'', Id_Active := ''exists''\<rparr>))"

definition AddIP :: "int \<Rightarrow> int \<Rightarrow> (db, unit) prog" where
  "AddIP uid ip = serve (sql_insert_userip uid ip)"

definition RemoveIP :: "int \<Rightarrow> (db, int) prog" where
  "RemoveIP uid =
     handle (serve (sql_delete_userip uid))
       (\<lambda>e. if e = ErrNoRows then fail (ErrText PEER_DOES_NOT_EXIST) else fail e)
       ret"

definition ip_column :: "tables \<Rightarrow> int list" where
  "ip_column t = map ip_addr (userips t)"

definition AllocateNextFreeIP_lxc :: "int \<Rightarrow> int \<Rightarrow> (db, int) prog" where
  "AllocateNextFreeIP_lxc maxHostNumber uid =
     tx_loop maxRetries (tx_attempt ip_column (sql_insert_userip uid) maxHostNumber) 0"

text \<open>Every error of the query is answered with the address -1 and a nil error.\<close>

definition GetIPFromUID :: "int \<Rightarrow> (db, int) prog" where
  "GetIPFromUID uid =
     handle (serve (sql_read (\<lambda>t. first_row (\<lambda>r. ip_user r = uid) ip_addr (userips t))))
       (\<lambda>e. ret (- 1)) ret"

lemmas instance_store_defs =
  CreateInstance_store_def StartInstance_def RemoveInstance_def StopInstance_store_def
  Exists_store_def GetData_def AddIP_def RemoveIP_def AllocateNextFreeIP_lxc_def GetIPFromUID_def

section \<open>What the methods keep\<close>

lemma instance_store_schema [keeps_intros]:
  "keeps (holds schema_ok) (CreateInstance_store uid userName insUser insPassword)"
  "keeps (holds schema_ok) (StartInstance uid)"
  "keeps (holds schema_ok) (RemoveInstance uid)"
  "keeps (holds schema_ok) (StopInstance_store uid)"
  "keeps (holds schema_ok) (Exists_store uid)"
  "keeps (holds schema_ok) (GetData uid)"
  "keeps (holds schema_ok) (AddIP uid ip)"
  "keeps (holds schema_ok) (RemoveIP uid)"
  "keeps (holds schema_ok) (AllocateNextFreeIP_lxc m uid)"
  "keeps (holds schema_ok) (GetIPFromUID uid)"
  unfolding instance_store_defs Let_def by (intro keeps_intros schema_keeps; assumption)+

lemma instance_store_quiet [quiet_intros]:
  "quiet (CreateInstance_store uid userName insUser insPassword)"
  "quiet (StartInstance uid)" "quiet (RemoveInstance uid)" "quiet (StopInstance_store uid)"
  "quiet (Exists_store uid)" "quiet (GetData uid)" "quiet (AddIP uid ip)" "quiet (RemoveIP uid)"
  "quiet (AllocateNextFreeIP_lxc m uid)" "quiet (GetIPFromUID uid)"
  unfolding instance_store_defs Let_def by (intro quiet_intros quiet_tx_loop sql_no_crash)+

section \<open>The life cycle of an instance row\<close>

datatype ins_status = Absent | Stopped | Running

definition status_of :: "tables \<Rightarrow> int \<Rightarrow> ins_status" where
  "status_of t uid =
     (case filter (\<lambda>r. i_user r = uid) (instances t) of
        [] \<Rightarrow> Absent
      | r # _ \<Rightarrow> if i_running r then Running else Stopped)"

datatype ins_op = Create string string string | Start | Halt | Remove

fun run_ins_op :: "ins_op \<Rightarrow> int \<Rightarrow> (db, unit) prog" where
  "run_ins_op (Create name user pass) uid = CreateInstance_store uid name user pass"
| "run_ins_op Start uid = StartInstance uid"
| "run_ins_op Halt uid = StopInstance_store uid"
| "run_ins_op Remove uid = RemoveInstance uid"

text \<open>The abstract transition of each operation; \<open>None\<close> where it is not possible.\<close>

fun abs_ins_op :: "ins_op \<Rightarrow> ins_status \<Rightarrow> ins_status option" where
  "abs_ins_op (Create name user pass) Absent = Some Running"
| "abs_ins_op (Create name user pass) _ = None"
| "abs_ins_op Start Stopped = Some Running"
| "abs_ins_op Start _ = None"
| "abs_ins_op Halt Absent = None"
| "abs_ins_op Halt _ = Some Stopped"
| "abs_ins_op Remove Absent = None"
| "abs_ins_op Remove _ = Some Absent"

lemma status_Absent: "status_of t uid = Absent \<longleftrightarrow> uid \<notin> i_user ` set (instances t)"
proof -
  have "status_of t uid = Absent \<longleftrightarrow> filter (\<lambda>r. i_user r = uid) (instances t) = []"
    by (auto simp: status_of_def split: list.split)
  then show ?thesis by (auto simp: filter_empty_conv)
qed

lemma filter_running_other:
  "v \<noteq> uid \<Longrightarrow> filter (\<lambda>r. i_user r = v) (map (\<lambda>r. if i_user r = uid then r\<lparr>i_running := b\<rparr> else r) rs) =
     filter (\<lambda>r. i_user r = v) rs"
  by (induction rs) auto

lemma filter_running_same:
  "filter (\<lambda>r. i_user r = uid) (map (\<lambda>r. if i_user r = uid then r\<lparr>i_running := b\<rparr> else r) rs) =
     map (\<lambda>r. r\<lparr>i_running := b\<rparr>) (filter (\<lambda>r. i_user r = uid) rs)"
  by (induction rs) auto

text \<open>The effect of one statement on the statuses.\<close>

lemma status_set_running:
  "status_of (snd (sql_set_running uid b t)) v =
     (if v = uid \<and> status_of t uid \<noteq> Absent then if b then Running else Stopped else status_of t v)"
proof (cases "v = uid")
  case True
  then show ?thesis
    by (simp add: status_of_def sql_set_running_def filter_running_same split: list.split)
next
  case False
  then show ?thesis by (simp add: status_of_def sql_set_running_def filter_running_other)
qed

lemma status_delete:
  "status_of (snd (sql_delete_instance uid t)) v = (if v = uid then Absent else status_of t v)"
proof (cases "v = uid")
  case True
  then show ?thesis by (simp add: status_of_def sql_delete_instance_def)
next
  case False
  then have "(\<lambda>r::instance_row. i_user r \<noteq> uid \<and> i_user r = v) = (\<lambda>r. i_user r = v)" by auto
  with False show ?thesis by (simp add: status_of_def sql_delete_instance_def)
qed

lemma rows_matching_zero: "rows_matching (\<lambda>r. i_user r = uid) (instances t) = 0 \<longleftrightarrow> status_of t uid = Absent"
  by (auto simp: rows_matching_def status_of_def split: list.split)

lemma status_insert:
  assumes "sql_insert_instance r t = (q, t')"
  shows "q = Ok () \<Longrightarrow> status_of t (i_user r) = Absent"
    and "q = Ok () \<Longrightarrow> status_of t' v = (if v = i_user r then if i_running r then Running else Stopped else status_of t v)"
    and "q \<noteq> Ok () \<Longrightarrow> t' = t"
proof -
  show absent: "status_of t (i_user r) = Absent" if "q = Ok ()"
    using assms that by (auto simp: sql_insert_instance_def list_ex_iff status_Absent split: if_splits)
  show "status_of t' v = (if v = i_user r then if i_running r then Running else Stopped else status_of t v)"
    if "q = Ok ()"
  proof -
    from assms that have "instances t' = instances t @ [r]"
      by (auto simp: sql_insert_instance_def split: if_splits)
    moreover have "filter (\<lambda>q. i_user q = i_user r) (instances t) = []"
      using absent [OF that] by (auto simp: status_of_def split: list.splits if_splits)
    ultimately show ?thesis by (simp add: status_of_def)
  qed
  show "t' = t" if "q \<noteq> Ok ()"
    using assms that by (auto simp: sql_insert_instance_def split: if_splits)
qed

definition refines_step :: "ins_op \<Rightarrow> int \<Rightarrow> tables \<Rightarrow> tables \<Rightarrow> bool" where
  "refines_step opn uid t t' \<longleftrightarrow>
     abs_ins_op opn (status_of t uid) = Some (status_of t' uid) \<and> (\<forall>v. v \<noteq> uid \<longrightarrow> status_of t' v = status_of t v)"

lemma refine_Create:
  assumes "run_ins_op (Create n u p) uid (t, as) = (r, (t', as'))"
  shows "(r = Ok () \<longrightarrow> refines_step (Create n u p) uid t t') \<and>
    (r \<noteq> Ok () \<longrightarrow> t' = t \<or> refines_step (Create n u p) uid t t')"
proof -
  define row where "row = instance_row_of uid n u p"
  have row: "i_user row = uid" "i_running row"
    by (simp_all add: row_def instance_row_of_def CreateInstanceType_def Let_def)
  have s: "serve (sql_insert_instance row) (t, as) = (r, (t', as'))"
    using assms by (simp add: CreateInstance_store_def row_def)
  obtain q t1 where i: "sql_insert_instance row t = (q, t1)" by (metis prod.exhaust)
  note st = status_insert [OF i]
  have step: "q = Ok () \<Longrightarrow> refines_step (Create n u p) uid t t1"
    using st(1,2) row by (simp add: refines_step_def)
  from serve_effect [OF s] i step st(3) show ?thesis by auto
qed

lemma refine_Remove:
  assumes "run_ins_op Remove uid (t, as) = (r, (t', as'))"
  shows "(r = Ok () \<longrightarrow> refines_step Remove uid t t') \<and>
    (r \<noteq> Ok () \<longrightarrow> status_of t' = status_of t \<or> refines_step Remove uid t t')"
proof -
  obtain q t1 as1 where s: "serve (sql_delete_instance uid) (t, as) = (q, (t1, as1))"
    by (metis prod.exhaust)
  let ?t = "snd (sql_delete_instance uid t)"
  have t1: "t1 = t \<or> t1 = ?t" using serve_state [of "sql_delete_instance uid" "(t, as)"] s by simp
  have abs: "status_of t uid \<noteq> Absent \<Longrightarrow> refines_step Remove uid t ?t"
    by (cases "status_of t uid") (simp_all add: refines_step_def status_delete)
  have idle: "status_of t uid = Absent \<Longrightarrow> status_of ?t = status_of t"
    by (auto simp: fun_eq_iff status_delete)
  show ?thesis
  proof (cases q)
    case (Ok rows)
    with s have "(rows, t1) = (rows_matching (\<lambda>r. i_user r = uid) (instances t), ?t)"
      by (auto dest!: serve_OkD simp: sql_delete_instance_def)
    with Ok s assms abs idle show ?thesis
      by (auto simp: RemoveInstance_def tri_eq ret_def fail_def rows_matching_zero split: if_splits)
  next
    case (Er e)
    with s assms t1 abs idle show ?thesis by (auto simp: RemoveInstance_def tri_eq)
  next
    case (Crash c)
    with s assms t1 abs idle show ?thesis by (auto simp: RemoveInstance_def tri_eq)
  qed
qed

lemma refine_Halt:
  assumes "run_ins_op Halt uid (t, as) = (r, (t', as'))"
  shows "(r = Ok () \<longrightarrow> refines_step Halt uid t t') \<and>
    (r \<noteq> Ok () \<longrightarrow> status_of t' = status_of t \<or> refines_step Halt uid t t')"
proof -
  obtain q t1 as1 where s: "serve (sql_set_running uid False) (t, as) = (q, (t1, as1))"
    by (metis prod.exhaust)
  let ?t = "snd (sql_set_running uid False t)"
  have t1: "t1 = t \<or> t1 = ?t" using serve_state [of "sql_set_running uid False" "(t, as)"] s by simp
  have abs: "status_of t uid \<noteq> Absent \<Longrightarrow> refines_step Halt uid t ?t"
    by (cases "status_of t uid") (simp_all add: refines_step_def status_set_running)
  have idle: "status_of t uid = Absent \<Longrightarrow> status_of ?t = status_of t"
    by (auto simp: fun_eq_iff status_set_running)
  show ?thesis
  proof (cases q)
    case (Ok rows)
    with s have "(rows, t1) = (rows_matching (\<lambda>r. i_user r = uid) (instances t), ?t)"
      by (auto dest!: serve_OkD simp: sql_set_running_def)
    with Ok s assms abs idle show ?thesis
      by (auto simp: StopInstance_store_def tri_eq ret_def fail_def rows_matching_zero split: if_splits)
  next
    case (Er e)
    with s assms t1 abs idle show ?thesis by (auto simp: StopInstance_store_def tri_eq)
  next
    case (Crash c)
    with s assms t1 abs idle show ?thesis by (auto simp: StopInstance_store_def tri_eq)
  qed
qed


definition running_read :: "int \<Rightarrow> tables \<Rightarrow> bool res" where
  "running_read uid t = first_row (\<lambda>r. i_user r = uid) i_running (instances t)"

lemma running_read_status:
  "running_read uid t =
     (case status_of t uid of Absent \<Rightarrow> Er ErrNoRows | Stopped \<Rightarrow> Ok False | Running \<Rightarrow> Ok True)"
  by (simp add: running_read_def first_row_def status_of_def split: list.split)

lemma StartInstance_eq:
  "StartInstance uid =
     tri (serve (sql_read (running_read uid)))
       (\<lambda>isRunning.
          if isRunning then fail (ErrText CONTAINER_ALREADY_RUNNING)
          else tri (serve (sql_set_running uid True))
                 (\<lambda>rows. if rows = 0 then fail (ErrText CONTAINER_START_FAILED) else ret ()))"
  by (simp add: StartInstance_def running_read_def [abs_def])

lemma refine_Start:
  assumes "run_ins_op Start uid (t, as) = (r, (t', as'))"
  shows "(r = Ok () \<longrightarrow> refines_step Start uid t t') \<and>
    (r \<noteq> Ok () \<longrightarrow> status_of t' = status_of t \<or> refines_step Start uid t t')"
proof -
  obtain q t1 as1 where q: "serve (sql_read (running_read uid)) (t, as) = (q, (t1, as1))"
    by (metis prod.exhaust)
  have t1: "t1 = t" using serve_read_state [of "running_read uid" "(t, as)"] q by simp
  obtain b t2 as2 where b: "serve (sql_set_running uid True) (t, as1) = (b, (t2, as2))"
    by (metis prod.exhaust)
  let ?t = "snd (sql_set_running uid True t)"
  have step: "status_of t uid = Stopped \<Longrightarrow> refines_step Start uid t ?t"
    by (simp add: refines_step_def status_set_running)
  show ?thesis
  proof (cases "q = Ok False")
    case True
    with q have "status_of t uid = Stopped"
      by (auto dest!: serve_OkD simp: sql_read_def running_read_status split: ins_status.splits)
    moreover from this have "rows_matching (\<lambda>r. i_user r = uid) (instances t) \<noteq> 0"
      by (simp add: rows_matching_zero)
    ultimately show ?thesis
      using assms q b True t1 step serve_effect [OF b]
      by (auto simp: StartInstance_eq tri_eq ret_def fail_def sql_set_running_def
          split: res.splits if_splits)
  next
    case False
    with assms q t1 show ?thesis
      by (cases q) (auto simp: StartInstance_eq tri_eq fail_def)
  qed
qed

lemma refine_op:
  assumes "run_ins_op opn uid (t, as) = (r, (t', as'))"
  shows "(r = Ok () \<longrightarrow> refines_step opn uid t t') \<and>
    (r \<noteq> Ok () \<longrightarrow> status_of t' = status_of t \<or> refines_step opn uid t t')"
proof (cases opn)
  case (Create n u p)
  with assms refine_Create show ?thesis by blast
qed (use assms refine_Start refine_Halt refine_Remove in blast)+

text \<open>C8: the four methods of \<open>InstanceStore\<close> that change a row refine the abstract life cycle
  absent, stopped, running, for every way the database can answer: a method that returns nil has
  moved exactly its own user's instance along the transition of that method (so it was allowed);
  one that returns an error has moved it along that same transition or changed no status at all.
  In particular no failure of the database takes an instance to a third state.\<close>

theorem instance_lifecycle_refinement:
  assumes "run_ins_op opn uid (t, as) = (r, (t', as'))"
  shows "(r = Ok () \<longrightarrow> refines_step opn uid t t') \<and>
    (r \<noteq> Ok () \<longrightarrow> status_of t' = status_of t \<or> refines_step opn uid t t')"
  by (rule refine_op [OF assms])

definition sample_tables :: tables where
  "sample_tables = empty_tables
     \<lparr>users := [\<lparr>u_id = 1, u_first = ''Ann'', u_last = ''Lee'', u_email = ''ann@gmail.com'',
                 u_hash = ''h1'', u_name = ''ann.lee'', u_verified = True\<rparr>,
                \<lparr>u_id = 2, u_first = ''Bob'', u_last = ''Ray'', u_email = ''bob@gmail.com'',
                 u_hash = ''h2'', u_name = ''bob_ray'', u_verified = True\<rparr>],
      next_user_id := 3\<rparr>"

lemma create_on_sample:
  "run_ins_op (Create ''ann.lee'' ''ann'' ''pw'') 1 (sample_tables, []) =
     (Ok (), (sample_tables\<lparr>instances := [instance_row_of 1 ''ann.lee'' ''ann'' ''pw'']\<rparr>, []))"
  by code_simp

theorem instance_lifecycle_refinement_witness:
  "refines_step (Create ''ann.lee'' ''ann'' ''pw'') 1 sample_tables
     (sample_tables\<lparr>instances := [instance_row_of 1 ''ann.lee'' ''ann'' ''pw'']\<rparr>)"
  using instance_lifecycle_refinement [OF create_on_sample] by simp

section \<open>What the methods answer\<close>

lemma StartInstance_served:
  "fst (StartInstance uid (t, [])) =
     (case status_of t uid of
        Absent \<Rightarrow> Er ErrNoRows | Running \<Rightarrow> Er (ErrText CONTAINER_ALREADY_RUNNING) | Stopped \<Rightarrow> Ok ())"
proof -
  have "status_of t uid = Stopped \<Longrightarrow> rows_matching (\<lambda>r. i_user r = uid) (instances t) \<noteq> 0"
    by (simp add: rows_matching_zero)
  then show ?thesis
    by (simp add: StartInstance_eq tri_eq sql_read_def running_read_status fail_def ret_def
        sql_set_running_def split: ins_status.split)
qed

lemma StartInstance_refused:
  assumes "status_of t uid \<noteq> Stopped"
  shows "\<exists>e. StartInstance uid (t, []) = (Er e, (t, [])) \<and> error_text e \<noteq> CONTAINER_START_FAILED"
  using assms
  by (cases "status_of t uid") (simp_all add: StartInstance_eq tri_eq sql_read_def running_read_status fail_def)

lemma Exists_served: "Exists_store uid (t, []) = (Ok (rows_matching (\<lambda>r. i_user r = uid) (instances t) = 1), (t, []))"
  by (simp add: Exists_store_def tri_eq sql_read_def ret_def)

text \<open>On a database that answers, each life-cycle method fails exactly outside its domain, and
  with the error the code names: starting a missing row is \<^verbatim>\<open>ErrNoRows\<close> (never
  \<open>CONTAINER_START_FAILED\<close>, the error the deploy worker looks for) and starting a running one
  \<open>CONTAINER_ALREADY_RUNNING\<close>; removing a missing row is \<open>CONTAINER_STOP_FAILED\<close> and stopping one
  \<open>CONTAINER_DELETE_FAILED\<close> (the two texts are exchanged in the code); stopping a stopped row
  succeeds.\<close>

lemma instance_methods_answers:
  "fst (StartInstance uid (t, [])) =
     (case status_of t uid of
        Absent \<Rightarrow> Er ErrNoRows | Running \<Rightarrow> Er (ErrText CONTAINER_ALREADY_RUNNING) | Stopped \<Rightarrow> Ok ()) \<and>
   fst (RemoveInstance uid (t, [])) =
     (if status_of t uid = Absent then Er (ErrText CONTAINER_STOP_FAILED) else Ok ()) \<and>
   fst (StopInstance_store uid (t, [])) =
     (if status_of t uid = Absent then Er (ErrText CONTAINER_DELETE_FAILED) else Ok ())"
  using StartInstance_served
  by (simp add: RemoveInstance_def StopInstance_store_def tri_eq sql_delete_instance_def
      sql_set_running_def rows_matching_zero fail_def ret_def)

section \<open>Addresses\<close>

lemma insert_userip_Ok:
  assumes "sql_insert_userip uid ip t = (Ok (), t')"
  shows "userips t' = userips t @ [\<lparr>ip_user = uid, ip_addr = ip\<rparr>]"
    and "uid \<notin> ip_user ` set (userips t)"
  using assms by (auto simp: sql_insert_userip_def list_ex_iff split: if_splits)

lemma plain_insert_userip: "plain_insert (sql_insert_userip uid)"
  by (auto simp: plain_insert_def sql_insert_userip_def violation_defs serialization_failure_def
      split: if_splits)

lemma AllocateNextFreeIP_lxc_committed:
  assumes "AllocateNextFreeIP_lxc m uid (t, as) = (Ok ip, (t', as'))" and "conflicts as < maxRetries"
  shows "ip \<notin> set (ip_column t) \<and> (2 \<le> m \<longrightarrow> ip \<le> m) \<and>
    \<lparr>ip_user = uid, ip_addr = ip\<rparr> \<in> set (userips t')"
proof -
  define I where "I = (\<lambda>u. set (ip_column t) \<subseteq> set (ip_column u))"
  let ?ins = "sql_insert_userip uid"
  have step: "I u \<Longrightarrow> attempt_insert ip_column ?ins m u k u' \<Longrightarrow> I u'" for u k u'
    using insert_userip_Ok(1) by (fastforce simp: I_def attempt_insert_def ip_column_def)
  have "I t" by (simp add: I_def)
  with step plain_insert_userip assms have "\<exists>u. I u \<and> attempt_insert ip_column ?ins m u ip t'"
    unfolding AllocateNextFreeIP_lxc_def by (rule tx_loop_committed)
  then obtain u where u: "I u" "attempt_insert ip_column ?ins m u ip t'" by blast
  then have "ip \<notin> set (ip_column u)" by (simp add: attempt_insert_def next_ip_not_in)
  moreover have "2 \<le> m \<longrightarrow> ip \<le> m" using u(2) by (auto simp: attempt_insert_def next_ip_def)
  moreover have "\<lparr>ip_user = uid, ip_addr = ip\<rparr> \<in> set (userips t')"
    using insert_userip_Ok(1) [OF attempt_insertD [OF u(2)]] by simp
  ultimately show ?thesis using u(1) by (auto simp: I_def)
qed

text \<open>On a database that answers, the address of the user's row comes back.\<close>

lemma RemoveIP_served:
  assumes "\<lparr>ip_user = uid, ip_addr = ip\<rparr> \<in> set (userips t)" and "distinct (map ip_user (userips t))"
  shows "RemoveIP uid (t, []) = (Ok ip, (t\<lparr>userips := filter (\<lambda>r. ip_user r \<noteq> uid) (userips t)\<rparr>, []))"
proof -
  obtain r rs where f: "filter (\<lambda>r. ip_user r = uid) (userips t) = r # rs"
    using assms(1) by (cases "filter (\<lambda>r. ip_user r = uid) (userips t)") (auto simp: filter_empty_conv)
  then have "r \<in> set (filter (\<lambda>r. ip_user r = uid) (userips t))" by simp
  then have r: "r \<in> set (userips t)" "ip_user r = uid" by auto
  have "inj_on ip_user (set (userips t))" using assms(2) by (simp add: distinct_map)
  from inj_onD [OF this _ r(1) assms(1)] r(2) have "ip_addr r = ip" by (metis ip_row.select_convs)
  with f show ?thesis by (simp add: RemoveIP_def sql_delete_userip_def prog_defs)
qed

text \<open>When fewer than five of the database's answers are serialization failures, an address that
  the LXC \<open>AllocateNextFreeIP\<close> returns was unused when the call began, is within the bound, and its
  row is committed for the user, whatever else went wrong on the way.\<close>

lemma lxc_allocation_committed:
  assumes "AllocateNextFreeIP_lxc m uid (t, as) = (Ok ip, (t', as'))" and "conflicts as < maxRetries"
    and "2 \<le> m"
  shows "ip \<notin> set (ip_column t) \<and> ip \<le> m \<and> \<lparr>ip_user = uid, ip_addr = ip\<rparr> \<in> set (userips t')"
  using AllocateNextFreeIP_lxc_committed [OF assms(1,2)] assms(3) by simp

definition conflict_now :: answer where
  "conflict_now = Refused (SqlErr serialization_failure ''could not serialize access'')"

text \<open>C19: the allocation loop reports success after five serialization failures in a row: it returns the address of its last
  try and a nil error, and no row is in the table. Whoever asks next gets the same address, and so two containers are
  configured with it.\<close>

theorem lxc_allocation_phantom:
  assumes "known_user t u" and "known_user t v" and "{u, v} \<inter> ip_user ` set (userips t) = {}"
    and "ip_column t = [] \<or> next_ip (ip_column t) \<le> m"
  shows "let (r, s) = AllocateNextFreeIP_lxc m u (t, concat (replicate 5 [Served, Served, Served, conflict_now]));
      (r', s') = AllocateNextFreeIP_lxc m v s
    in r = Ok (next_ip (ip_column t)) \<and> r' = r \<and> userips (fst s') = userips t @ [\<lparr>ip_user = v, ip_addr = next_ip (ip_column t)\<rparr>]"
proof -
  let ?ip = "next_ip (ip_column t)"
  have ins: "sql_insert_userip x ?ip t = (Ok (), t\<lparr>userips := userips t @ [\<lparr>ip_user = x, ip_addr = ?ip\<rparr>]\<rparr>)" if "x \<in> {u, v}" for x
    using that assms(1-3) by (auto simp: sql_insert_userip_def list_ex_iff)
  have five: "maxRetries = Suc 4" "maxRetries = 5" by (simp_all add: maxRetries_def)
  have "AllocateNextFreeIP_lxc m u (t, concat (replicate 5 [Served, Served, Served, conflict_now]) @ []) = (Ok ?ip, (t, []))"
    unfolding AllocateNextFreeIP_lxc_def five(2) conflict_now_def
    by (subst tx_loop_conflicts [where col = ip_column and ins = "sql_insert_userip u", OF assms(4) ins [of u]]) (simp_all add: maxRetries_def)
  moreover have "AllocateNextFreeIP_lxc m v (t, []) = (Ok ?ip, (t\<lparr>userips := userips t @ [\<lparr>ip_user = v, ip_addr = ?ip\<rparr>]\<rparr>, []))"
    unfolding AllocateNextFreeIP_lxc_def five(1)
    by (rule tx_loop_served [where col = ip_column and ins = "sql_insert_userip v", OF assms(4) ins]) simp
  ultimately show ?thesis by (simp only: append_Nil2) simp
qed

theorem lxc_allocation_phantom_witness:
  "let (r, s) = AllocateNextFreeIP_lxc 254 1 (sample_tables, concat (replicate 5 [Served, Served, Served, conflict_now]));
      (r', s') = AllocateNextFreeIP_lxc 254 2 s
    in r = Ok 2 \<and> r' = r \<and> userips (fst s') = [\<lparr>ip_user = 2, ip_addr = 2\<rparr>]"
proof -
  have n: "next_ip (ip_column sample_tables) = 2" "userips sample_tables = []"
    by (simp_all add: next_ip_def ip_column_def sample_tables_def empty_tables_def)
  have "known_user sample_tables 1" "known_user sample_tables 2" by code_simp+
  then show ?thesis
    using lxc_allocation_phantom [of sample_tables 1 2 254] by (simp only: n) (simp add: n ip_column_def)
qed

end
