(* ===== verification/Ip_Allocator.thy ===== *)
theory Ip_Allocator
  imports Stores Wireguard_Store Instance_Store
begin

text \<open>
  \<^verbatim>\<open>internal/wg/ip_allocator.go\<close>: addresses for WireGuard peers and for containers.
  Each of the two pools is a Redis stack of released host numbers in front of a database column
  of taken ones. The lemmas of this theory are about the address texts a host number is turned into; what the
  pools guarantee is in \<open>Ip_Pool\<close> and \<open>Ip_Calls\<close>.
\<close>

section \<open>The allocator\<close>

record IPAllocator =
  CidrValue :: int

definition CreateIpAllocator :: "int \<Rightarrow> IPAllocator res" where
  "CreateIpAllocator cidr =
     (if cidr > 24 \<or> cidr < 8 \<or> go_mod cidr 8 \<noteq> 0 then Er (ErrText INVALID_CIDR)
      else Ok \<lparr>CidrValue = cidr\<rparr>)"

text \<open>\<^verbatim>\<open>int(math.Pow(2, float64(32-cidr)))\<close>; a negative exponent truncates to 0.\<close>

definition FindNoOfUsableHosts :: "IPAllocator \<Rightarrow> int" where
  "FindNoOfUsableHosts al = (if CidrValue al \<le> 32 then 2 ^ nat (32 - CidrValue al) else 0)"

definition FindNoOfUsableHostsDocker :: "IPAllocator \<Rightarrow> int" where
  "FindNoOfUsableHostsDocker al = (if CidrValue al \<le> 32 then 2 ^ nat (32 - CidrValue al) else 0) - 2"

definition dotted :: "string \<Rightarrow> int list \<Rightarrow> string" where
  "dotted prefix ns = prefix @ concat (map (\<lambda>n. ''.'' @ itoa n) ns)"

definition GenerateIP :: "int \<Rightarrow> string" where
  "GenerateIP hostNumber =
     (let c = go_div hostNumber 256
      in if c < 256 then dotted ''10'' [0, c, go_mod hostNumber 256]
         else dotted ''10'' [go_div c 256, go_mod c 256, go_mod hostNumber 256])"

definition GenerateIPLXC :: "int \<Rightarrow> string" where
  "GenerateIPLXC hostNumber =
     (let c = go_div hostNumber 256
      in if c < 256 then dotted ''172.30'' [c, go_mod hostNumber 256]
         else dotted ''172.30'' [go_mod c 256, go_mod hostNumber 256])"

definition AllocateFreeIp :: "IPAllocator \<Rightarrow> int \<Rightarrow> string \<Rightarrow> ('x stores_scheme, string) prog" where
  "AllocateFreeIp al uid pubKey =
     handle (on_redis (PopFreeIp STACK_KEY))
       (\<lambda>e. if error_text e \<noteq> EMPTY_IP_STACK then fail e
            else tri (on_pg (AllocateNextFreeIP_wg (FindNoOfUsableHosts al) uid
                       \<lparr>PublicKey = pubKey, IpAddress = 0\<rparr>))
                   (\<lambda>ipAddr. ret (GenerateIP ipAddr)))
       (\<lambda>ipAddr. tri (on_pg (AddPeer_store uid \<lparr>PublicKey = pubKey, IpAddress = ipAddr\<rparr>))
                    (\<lambda>_. ret (GenerateIP ipAddr)))"

definition AllocateFreeLXCIp :: "IPAllocator \<Rightarrow> int \<Rightarrow> ('x stores_scheme, string) prog" where
  "AllocateFreeLXCIp al uid =
     handle (on_redis (PopFreeIp LXC_IP))
       (\<lambda>e. if error_text e \<noteq> EMPTY_IP_STACK then fail e
            else tri (on_pg (AllocateNextFreeIP_lxc (FindNoOfUsableHostsDocker al) uid))
                   (\<lambda>ipAddr. ret (GenerateIPLXC ipAddr)))
       (\<lambda>ipAddr. tri (on_pg (AddIP uid ipAddr)) (\<lambda>_. ret (GenerateIPLXC ipAddr)))"

definition DeAllocateIP :: "string \<Rightarrow> int \<Rightarrow> ('x stores_scheme, unit) prog" where
  "DeAllocateIP pubKey uid =
     tri (on_pg (RemovePeer_store pubKey uid)) (\<lambda>ipAddr. on_redis (PushFreeIp ipAddr STACK_KEY))"

definition DeAllocateLXCIP :: "int \<Rightarrow> ('x stores_scheme, unit) prog" where
  "DeAllocateLXCIP uid =
     tri (on_pg (RemoveIP uid)) (\<lambda>ipAddr. on_redis (PushFreeIp ipAddr LXC_IP))"

section \<open>Address texts\<close>

lemma itoa_dot_inject:
  assumes "itoa m @ ''.'' @ xs = itoa n @ ''.'' @ ys"
  shows "m = n \<and> xs = ys"
  using split_at_sep [of "itoa m" "CHR ''.''" xs "itoa n" ys] assms itoa_no_dot itoa_inject by auto

lemma dotted_2_inject: "dotted p [a, b] = dotted p [c, d] \<longleftrightarrow> a = c \<and> b = d"
proof
  assume "dotted p [a, b] = dotted p [c, d]"
  then have "itoa a @ ''.'' @ itoa b = itoa c @ ''.'' @ itoa d" by (simp add: dotted_def)
  from itoa_dot_inject [OF this] show "a = c \<and> b = d" by (simp add: itoa_inject)
qed simp

lemma dotted_3_inject: "dotted p [a, b, x] = dotted p [c, d, y] \<longleftrightarrow> a = c \<and> b = d \<and> x = y"
proof
  assume "dotted p [a, b, x] = dotted p [c, d, y]"
  then have "itoa a @ ''.'' @ (itoa b @ ''.'' @ itoa x) = itoa c @ ''.'' @ (itoa d @ ''.'' @ itoa y)"
    by (simp add: dotted_def)
  from itoa_dot_inject [OF this] have "a = c" "itoa b @ ''.'' @ itoa x = itoa d @ ''.'' @ itoa y"
    by blast+
  with itoa_dot_inject [OF this(2)] show "a = c \<and> b = d \<and> x = y" by (simp add: itoa_inject)
qed simp

lemma div_65536: "(n::int) div 65536 = n div 256 div 256"
  using zdiv_zmult2_eq [of 256 n 256] by simp

lemma base_256: "(n::int) = n div 65536 * 65536 + n div 256 mod 256 * 256 + n mod 256"
  using div_mult_mod_eq [of n 256] div_mult_mod_eq [of "n div 256" 256] div_65536 [of n] by linarith

text \<open>Below \<open>2 ^ 24\<close> the three numbers are the host number in base 256.\<close>

lemma GenerateIP_digits:
  assumes "0 \<le> n" and "n < 2 ^ 24"
  shows "GenerateIP n = dotted ''10'' [n div 65536, n div 256 mod 256, n mod 256]"
proof -
  have d: "n div 65536 = n div 256 div 256" by (rule div_65536)
  show ?thesis
  proof (cases "n div 256 < 256")
    case True
    then have "n div 256 div 256 = 0" "n div 256 mod 256 = n div 256" using assms(1) by auto
    with True assms(1) d show ?thesis by (simp add: GenerateIP_def Let_def)
  next
    case False
    with assms(1) d show ?thesis by (simp add: GenerateIP_def Let_def)
  qed
qed

text \<open>For every allocator the constructor lets through (a /8, a /16 or a /24), two different host
  numbers below the number of usable hosts give different WireGuard addresses, and the three numbers
  of an address are octets.\<close>

lemma GenerateIP_inject:
  assumes "0 \<le> m" and "m < 2 ^ 24" and "0 \<le> n" and "n < 2 ^ 24"
  shows "(GenerateIP m = GenerateIP n \<longleftrightarrow> m = n) \<and>
    (\<exists>a b c. GenerateIP m = dotted ''10'' [a, b, c] \<and> {a, b, c} \<subseteq> {0..255})"
proof -
  have "m div 65536 < 256" "0 \<le> m div 65536" using assms(1,2) by simp_all
  moreover have "k mod 256 \<le> 255" for k :: int using pos_mod_bound [of 256 k] by linarith
  ultimately have "{m div 65536, m div 256 mod 256, m mod 256} \<subseteq> {0..255}" by simp
  moreover have "GenerateIP m = GenerateIP n \<longleftrightarrow> m = n"
    unfolding GenerateIP_digits [OF assms(1,2)] GenerateIP_digits [OF assms(3,4)] dotted_3_inject
    by (metis base_256)
  ultimately show ?thesis using GenerateIP_digits [OF assms(1,2)] by blast
qed

lemma GenerateIPLXC_digits:
  assumes "0 \<le> n"
  shows "GenerateIPLXC n = dotted ''172.30'' [n div 256 mod 256, n mod 256]"
  using assms by (simp add: GenerateIPLXC_def Let_def)

lemma GenerateIPLXC_eq_iff:
  assumes "0 \<le> m" and "0 \<le> n"
  shows "GenerateIPLXC m = GenerateIPLXC n \<longleftrightarrow> m mod 65536 = n mod 65536"
proof -
  have "k mod 65536 = k div 256 mod 256 * 256 + k mod 256" for k :: int
    using base_256 [of k] div_mult_mod_eq [of k 65536] by linarith
  moreover have "k div 256 mod 256 = k mod 65536 div 256" "k mod 256 = k mod 65536 mod 256" for k :: int
    using zmod_zmult2_eq [of 256 k 256] by (simp_all add: mod_mod_cancel)
  ultimately show ?thesis
    unfolding GenerateIPLXC_digits [OF assms(1)] GenerateIPLXC_digits [OF assms(2)] dotted_2_inject by metis
qed

text \<open>Container addresses have two free octets, so two host numbers give the same address exactly
  when they agree modulo \<open>2 ^ 16\<close>: different for the /24 and the /16 pool, but in the /8 pool, whose
  bound is \<open>2 ^ 24 - 2\<close>, host 65538 gets the address of host 2.\<close>

lemma GenerateIPLXC_collisions:
  assumes "0 \<le> m" and "0 \<le> n"
  shows "(GenerateIPLXC m = GenerateIPLXC n \<longleftrightarrow> m mod 65536 = n mod 65536) \<and>
    (\<forall>al. CreateIpAllocator 8 = Ok al \<longrightarrow>
       65538 \<le> FindNoOfUsableHostsDocker al \<and> GenerateIPLXC 65538 = GenerateIPLXC 2)"
  using GenerateIPLXC_eq_iff [OF assms]
  by (auto simp: CreateIpAllocator_def FindNoOfUsableHostsDocker_def GenerateIPLXC_eq_iff)

end
