(* ===== verification/Ip_Pool.thy ===== *)
theory Ip_Pool
  imports Ip_Allocator
begin

text \<open>
  The two address pools. \<open>free_stack\<close> is what the allocator relies on in Redis, \<open>ip_pool\<close> adds
  what it relies on in the database; the WireGuard pool and the container pool are
  interpretations. The invariant of a pool is that taken and free host numbers are pairwise
  different and lie between 2 and the bound.
\<close>

section \<open>The stack of released addresses\<close>

text \<open>
  The allocator recognises an empty stack by the text of the error. A script is \<open>honest\<close> if no
  failure of Redis itself has that text.
\<close>

fun honest_answer :: "answer \<Rightarrow> bool" where
  "honest_answer Served = True"
| "honest_answer (Refused e) = (error_text (srv_err e) \<noteq> EMPTY_IP_STACK)"
| "honest_answer (Unheard e) = (error_text (srv_err e) \<noteq> EMPTY_IP_STACK)"
| "honest_answer (Broken n e) = (error_text (srv_err e) \<noteq> EMPTY_IP_STACK)"

definition free_ips :: "string \<Rightarrow> rds \<Rightarrow> int list" where
  "free_ips key s =
     (case fst s key of
        None \<Rightarrow> []
      | Some e \<Rightarrow> (case val_of e of Items l \<Rightarrow> map (\<lambda>v. the (atoi v)) l | _ \<Rightarrow> []))"

definition stack_ok :: "string \<Rightarrow> rds \<Rightarrow> bool" where
  "stack_ok key s \<longleftrightarrow> list_all honest_answer (snd s) \<and>
     (case fst s key of
        None \<Rightarrow> True
      | Some e \<Rightarrow> (case val_of e of Items l \<Rightarrow> list_all (\<lambda>v. atoi v \<noteq> None) l | _ \<Rightarrow> False))"

locale free_stack =
  fixes push :: "int \<Rightarrow> (rds, unit) prog"
    and pop :: "(rds, int) prog"
    and free :: "rds \<Rightarrow> int list"
    and good :: "rds \<Rightarrow> bool"
  assumes pop_Ok: "good s \<Longrightarrow> pop s = (Ok ip, s') \<Longrightarrow> good s' \<and> free s = ip # free s'"
    and pop_Er: "good s \<Longrightarrow> pop s = (Er e, s') \<Longrightarrow> good s' \<and> (\<exists>lost. free s = lost @ free s') \<and>
      (error_text e = EMPTY_IP_STACK \<longrightarrow> free s = [])"
    and push: "good s \<Longrightarrow> int64_range ip \<Longrightarrow> push ip s = (r, s') \<Longrightarrow>
      good s' \<and> (free s' = ip # free s \<or> r \<noteq> Ok () \<and> free s' = free s)"
    and no_crash: "quiet pop" "quiet (push ip)"

lemma serve_script:
  "serve f (t, as) = (r, (t', as')) \<Longrightarrow> as' = as \<or> (\<exists>a. as = a # as')"
  by (cases "(f, (t, as))" rule: serve.cases) (auto split: prod.splits)

text \<open>Where an error comes from: the server's own answer, or the script.\<close>

lemma serve_Er_origin:
  "serve f (t, as) = (Er e, (t', as')) \<Longrightarrow> list_all honest_answer as \<Longrightarrow>
     f t = (Er e, t') \<or> error_text e \<noteq> EMPTY_IP_STACK \<and> (\<exists>d. e = srv_err d)"
  by (cases "(f, (t, as))" rule: serve.cases) (auto split: prod.splits)

lemma stack_cases:
  assumes "stack_ok key s"
  obtains "fst s key = None" "free_ips key s = []"
  | e where "fst s key = Some e" "val_of e = Items []" "free_ips key s = []"
  | e v n l where "fst s key = Some e" "val_of e = Items (v # l)" "atoi v = Some n"
      "list_all (\<lambda>v. atoi v \<noteq> None) l" "free_ips key s = n # map (\<lambda>v. the (atoi v)) l"
proof (cases "fst s key")
  case None
  with that(1) show thesis by (simp add: free_ips_def)
next
  case (Some e)
  with assms obtain l where l: "val_of e = Items l" "list_all (\<lambda>v. atoi v \<noteq> None) l"
    by (auto simp: stack_ok_def split: content.splits)
  show thesis
  proof (cases l)
    case Nil
    with Some l that(2) show thesis by (simp add: free_ips_def)
  next
    case (Cons v vs)
    with l(2) obtain n where "atoi v = Some n" by auto
    with Some l Cons that(3) show thesis by (simp add: free_ips_def)
  qed
qed

text \<open>The effect of the two list commands on a well-formed stack.\<close>

lemma lpop_effect:
  assumes "stack_ok key (ks, as)" and "list_all honest_answer as'"
  shows "stack_ok key (snd (r_lpop key ks), as')"
    and "fst (r_lpop key ks) = Ok v \<Longrightarrow> \<exists>n. atoi v = Some n \<and>
      free_ips key (ks, as) = n # free_ips key (snd (r_lpop key ks), as')"
    and "fst (r_lpop key ks) = Er e \<Longrightarrow> e = RedisNil \<and> free_ips key (ks, as) = [] \<and> snd (r_lpop key ks) = ks"
  using assms
  by (cases rule: stack_cases [OF assms(1)];
      auto simp: r_lpop_def stack_ok_def free_ips_def split: list.splits)+

lemma lpush_effect:
  assumes "stack_ok key (ks, as)" and "list_all honest_answer as'" and "int64_range ip"
  shows "stack_ok key (snd (r_lpush key (itoa ip) ks), as')"
    and "free_ips key (snd (r_lpush key (itoa ip) ks), as') = ip # free_ips key (ks, as)"
    and "fst (r_lpush key (itoa ip) ks) = Ok ()"
  using assms
  by (cases rule: stack_cases [OF assms(1)];
      auto simp: r_lpush_def stack_ok_def free_ips_def atoi_itoa)+

lemma stack_ok_script: "stack_ok key (ks, as) \<Longrightarrow> list_all honest_answer as' \<Longrightarrow> stack_ok key (ks, as')"
  by (simp add: stack_ok_def)

lemma free_ips_script: "free_ips key (ks, as') = free_ips key (ks, as)"
  by (simp add: free_ips_def)

lemma serve_honest:
  "serve f (t, as) = (r, (t', as')) \<Longrightarrow> list_all honest_answer as \<Longrightarrow> list_all honest_answer as'"
  using serve_script by fastforce

lemma pop_cases:
  assumes ok: "stack_ok key (ks, as)" and p: "PopFreeIp key (ks, as) = (r, (ks', as'))"
  shows "stack_ok key (ks', as') \<and>
    (case r of
       Ok ip \<Rightarrow> free_ips key (ks, as) = ip # free_ips key (ks', as')
     | Er e \<Rightarrow> (\<exists>lost. free_ips key (ks, as) = lost @ free_ips key (ks', as')) \<and>
         (error_text e = EMPTY_IP_STACK \<longrightarrow> free_ips key (ks, as) = [])
     | Crash c \<Rightarrow> False)"
proof -
  obtain q ks1 as1 where s: "serve (r_lpop key) (ks, as) = (q, (ks1, as1))" by (metis prod.exhaust)
  have h: "list_all honest_answer as" using ok by (simp add: stack_ok_def)
  have h1: "list_all honest_answer as1" using serve_honest [OF s h] .
  note eff = lpop_effect [OF ok h1]
  have ks1: "ks1 = ks \<or> ks1 = snd (r_lpop key ks)" using serve_state [of "r_lpop key" "(ks, as)"] s by simp
  have ok1: "stack_ok key (ks1, as1)" using ks1 eff(1) stack_ok_script [OF ok h1] by blast
  have lost: "\<exists>lost. free_ips key (ks, as) = lost @ free_ips key (ks1, as1)"
  proof (cases "ks1 = ks")
    case True
    then show ?thesis using free_ips_script [of key ks as1 as] by (intro exI [of _ "[]"]) simp
  next
    case False
    with ks1 have k: "ks1 = snd (r_lpop key ks)" by blast
    show ?thesis
    proof (cases "fst (r_lpop key ks)")
      case (Ok v)
      with eff(2) k obtain n where "free_ips key (ks, as) = [n] @ free_ips key (ks1, as1)" by fastforce
      then show ?thesis by blast
    next
      case (Er e)
      with eff(3) k False show ?thesis by blast
    next
      case (Crash c)
      with redis_no_crash(5) show ?thesis by blast
    qed
  qed
  show ?thesis
  proof (cases q)
    case (Ok v)
    then have f: "r_lpop key ks = (Ok v, ks1)" using serve_OkD s by fastforce
    with eff(2) obtain n where "atoi v = Some n" "free_ips key (ks, as) = n # free_ips key (ks1, as1)"
      by fastforce
    with p s Ok ok1 show ?thesis by (auto simp: PopFreeIp_def prog_defs)
  next
    case (Er e)
    from serve_Er_origin [OF s [unfolded Er] h] consider "e = RedisNil" "free_ips key (ks, as) = []"
      | d where "error_text e \<noteq> EMPTY_IP_STACK" "e = srv_err d"
      using eff(3) [of e] by auto
    then show ?thesis
      using p s Er ok1 lost by cases (auto simp: PopFreeIp_def prog_defs split: if_splits)
  next
    case (Crash c)
    then show ?thesis using quiet_result [OF quiet_redis(5) s] by simp
  qed
qed

lemma push_cases:
  assumes ok: "stack_ok key (ks, as)" and "int64_range ip"
    and p: "PushFreeIp ip key (ks, as) = (r, (ks', as'))"
  shows "stack_ok key (ks', as') \<and>
    (free_ips key (ks', as') = ip # free_ips key (ks, as) \<or>
     r \<noteq> Ok () \<and> free_ips key (ks', as') = free_ips key (ks, as))"
proof -
  have h: "list_all honest_answer as" using ok by (simp add: stack_ok_def)
  have s: "serve (r_lpush key (itoa ip)) (ks, as) = (r, (ks', as'))" using p by (simp add: PushFreeIp_def)
  have h1: "list_all honest_answer as'" using serve_honest [OF s h] .
  note eff = lpush_effect [OF ok h1 assms(2)]
  consider "ks' = snd (r_lpush key (itoa ip) ks)" | "r \<noteq> Ok ()" "ks' = ks"
    using serve_effect [OF s] by auto
  then show ?thesis
    using eff stack_ok_script [OF ok h1] free_ips_script [of key ks as' as] by cases auto
qed

lemma redis_free_stack:
  "free_stack (\<lambda>ip. PushFreeIp ip key) (PopFreeIp key) (free_ips key) (stack_ok key)"
proof
  fix s s' :: rds and ip
  assume g: "stack_ok key s"
  obtain ks as where s: "s = (ks, as)" by (cases s)
  obtain ks' as' where s': "s' = (ks', as')" by (cases s')
  show "PopFreeIp key s = (Ok ip, s') \<Longrightarrow> stack_ok key s' \<and> free_ips key s = ip # free_ips key s'"
    using pop_cases [of key ks as "Ok ip" ks' as'] g s s' by simp
  show "PopFreeIp key s = (Er e, s') \<Longrightarrow> stack_ok key s' \<and> (\<exists>lost. free_ips key s = lost @ free_ips key s') \<and>
      (error_text e = EMPTY_IP_STACK \<longrightarrow> free_ips key s = [])" for e
    using pop_cases [of key ks as "Er e" ks' as'] g s s' by simp
  show "int64_range ip \<Longrightarrow> PushFreeIp ip key s = (r, s') \<Longrightarrow> stack_ok key s' \<and>
      (free_ips key s' = ip # free_ips key s \<or> r \<noteq> Ok () \<and> free_ips key s' = free_ips key s)" for r
    using push_cases [of key ks as ip r ks' as'] g s s' by simp
qed (intro redis_store_quiet)+

interpretation wg_stack: free_stack "\<lambda>ip. PushFreeIp ip STACK_KEY" "PopFreeIp STACK_KEY"
    "free_ips STACK_KEY" "stack_ok STACK_KEY"
  by (rule redis_free_stack)

interpretation lxc_stack: free_stack "\<lambda>ip. PushFreeIp ip LXC_IP" "PopFreeIp LXC_IP"
    "free_ips LXC_IP" "stack_ok LXC_IP"
  by (rule redis_free_stack)


section \<open>Pools\<close>

text \<open>Host numbers of a pool: pairwise different, between 2 and the bound.\<close>

definition pool_col :: "int \<Rightarrow> int list \<Rightarrow> bool" where
  "pool_col m ips \<longleftrightarrow> distinct ips \<and> (\<forall>ip \<in> set ips. 2 \<le> ip \<and> ip \<le> m)"

lemma pool_col_next:
  assumes "pool_col m ips" and "2 \<le> m" and "ips = [] \<or> next_ip ips \<le> m"
  shows "pool_col m (ips @ [next_ip ips])"
proof -
  have "2 \<le> next_ip ips" using assms(1) by (intro next_ip_ge_2) (simp add: pool_col_def)
  moreover have "next_ip ips \<le> m" using assms(2,3) by (auto simp: next_ip_def)
  ultimately show ?thesis using assms(1) next_ip_not_in by (auto simp: pool_col_def)
qed

definition pool_ok ::
  "(rds \<Rightarrow> bool) \<Rightarrow> (rds \<Rightarrow> int list) \<Rightarrow> (tables \<Rightarrow> int list) \<Rightarrow> int \<Rightarrow> 'x stores_scheme \<Rightarrow> bool" where
  "pool_ok good free taken m w \<longleftrightarrow> good (redis w) \<and> pool_col m (free (redis w) @ taken (fst (pg w)))"

definition take_address ::
  "(rds, int) prog \<Rightarrow> (int \<Rightarrow> (db, unit) prog) \<Rightarrow> (db, int) prog \<Rightarrow> (int \<Rightarrow> string) \<Rightarrow>
     ('x stores_scheme, string) prog" where
  "take_address pop occupy grow show_ip =
     handle (on_redis pop)
       (\<lambda>e. if error_text e \<noteq> EMPTY_IP_STACK then fail e
            else tri (on_pg grow) (\<lambda>ip. ret (show_ip ip)))
       (\<lambda>ip. tri (on_pg (occupy ip)) (\<lambda>_. ret (show_ip ip)))"

definition give_address ::
  "(int \<Rightarrow> (rds, unit) prog) \<Rightarrow> (db, int) prog \<Rightarrow> ('x stores_scheme, unit) prog" where
  "give_address push vacate = tri (on_pg vacate) (\<lambda>ip. on_redis (push ip))"

locale ip_pool = free_stack push pop free good
  for push :: "int \<Rightarrow> (rds, unit) prog" and pop :: "(rds, int) prog"
    and free :: "rds \<Rightarrow> int list" and good :: "rds \<Rightarrow> bool" +
  fixes occupy :: "'c \<Rightarrow> int \<Rightarrow> (db, unit) prog"
    and grow :: "int \<Rightarrow> 'c \<Rightarrow> (db, int) prog"
    and vacate :: "'d \<Rightarrow> (db, int) prog"
    and taken :: "tables \<Rightarrow> int list"
  assumes occupy: "ip \<notin> set (taken (fst d)) \<Longrightarrow> occupy c ip d = (r, d') \<Longrightarrow>
      taken (fst d') = taken (fst d) @ [ip] \<or> r \<noteq> Ok () \<and> taken (fst d') = taken (fst d)"
    and grow: "pool_col m (taken (fst d)) \<Longrightarrow> 2 \<le> m \<Longrightarrow> grow m c d = (i, d') \<Longrightarrow>
      pool_col m (taken (fst d'))"
    and grow_Ok: "grow m c d = (Ok ip, d') \<Longrightarrow> conflicts (snd d) < maxRetries \<Longrightarrow>
      ip \<notin> set (taken (fst d)) \<and> ip \<in> set (taken (fst d'))"
    and vacate: "distinct (taken (fst d)) \<Longrightarrow> vacate k d = (i, d') \<Longrightarrow>
      distinct (taken (fst d')) \<and> set (taken (fst d')) \<subseteq> set (taken (fst d)) \<and>
      (\<forall>ip. i = Ok ip \<longrightarrow> ip \<in> set (taken (fst d)) \<and> ip \<notin> set (taken (fst d')))"
    and db_quiet: "quiet (occupy c ip)" "quiet (grow m c)" "quiet (vacate k)"
begin

lemma take_keeps:
  assumes "2 \<le> m"
  shows "keeps (pool_ok good free taken m) (take_address pop (occupy c) (grow m c) show_ip)"
proof (rule keepsI)
  fix w :: "'x stores_scheme" assume ok: "pool_ok good free taken m w"
  then have g: "good (redis w)" and col: "pool_col m (free (redis w) @ taken (fst (pg w)))"
    by (simp_all add: pool_ok_def)
  obtain q s1 where p: "pop (redis w) = (q, s1)" by (metis prod.exhaust)
  show "pool_ok good free taken m (snd (take_address pop (occupy c) (grow m c) show_ip w))"
  proof (cases q)
    case (Ok ip)
    with pop_Ok g p have g1: "good s1" and fr: "free (redis w) = ip # free s1" by blast+
    obtain r d1 where o: "occupy c ip (pg w) = (r, d1)" by (metis prod.exhaust)
    have "ip \<notin> set (taken (fst (pg w)))" using col fr by (simp add: pool_col_def)
    from occupy [OF this o] col fr have "pool_col m (free s1 @ taken (fst d1))"
      by (auto simp: pool_col_def)
    with g1 p Ok o show ?thesis
      by (cases r) (simp_all add: take_address_def prog_defs on_pg_eq on_redis_eq pool_ok_def)
  next
    case (Er e)
    note er = pop_Er [OF g p [unfolded Er]]
    then have g1: "good s1" and col1: "pool_col m (free s1 @ taken (fst (pg w)))"
      using col by (auto simp: pool_col_def)
    show ?thesis
    proof (cases "error_text e = EMPTY_IP_STACK")
      case True
      with er have fr: "free s1 = []" by auto
      obtain r d1 where x: "grow m c (pg w) = (r, d1)" by (metis prod.exhaust)
      from grow [OF _ assms x] col1 fr have "pool_col m (free s1 @ taken (fst d1))" by simp
      with g1 p Er True x show ?thesis
        by (cases r) (simp_all add: take_address_def prog_defs on_pg_eq on_redis_eq pool_ok_def)
    next
      case False
      with g1 col1 p Er show ?thesis
        by (simp add: take_address_def prog_defs on_pg_eq on_redis_eq pool_ok_def)
    qed
  next
    case (Crash k)
    then show ?thesis using quiet_result [OF no_crash(1) p] by simp
  qed
qed

lemma give_keeps:
  assumes "m < 2 ^ 63"
  shows "keeps (pool_ok good free taken m) (give_address push (vacate k))"
proof (rule keepsI)
  fix w :: "'x stores_scheme" assume ok: "pool_ok good free taken m w"
  then have g: "good (redis w)" and col: "pool_col m (free (redis w) @ taken (fst (pg w)))"
    by (simp_all add: pool_ok_def)
  obtain q d1 where v: "vacate k (pg w) = (q, d1)" by (metis prod.exhaust)
  have "distinct (taken (fst (pg w)))" using col by (simp add: pool_col_def)
  note vac = vacate [OF this v]
  have col1: "pool_col m (free (redis w) @ taken (fst d1))" using vac col by (auto simp: pool_col_def)
  show "pool_ok good free taken m (snd (give_address push (vacate k) w))"
  proof (cases q)
    case (Ok ip)
    obtain r s1 where p: "push ip (redis w) = (r, s1)" by (metis prod.exhaust)
    have ip: "ip \<in> set (taken (fst (pg w)))" "ip \<notin> set (taken (fst d1))" using vac Ok by auto
    then have "2 \<le> ip" "ip \<le> m" "ip \<notin> set (free (redis w))" using col by (auto simp: pool_col_def)
    moreover from this have "int64_range ip" using assms by (simp add: int64_range_def)
    note push [OF g this p]
    ultimately have "good s1" "pool_col m (free s1 @ taken (fst d1))"
      using col1 ip by (auto simp: pool_col_def)
    with v Ok p show ?thesis
      by (cases r) (simp_all add: give_address_def prog_defs on_pg_eq on_redis_eq pool_ok_def)
  next
    case (Er e)
    with v g col1 show ?thesis by (simp add: give_address_def prog_defs on_pg_eq pool_ok_def)
  next
    case (Crash c)
    then show ?thesis using quiet_result [OF db_quiet(3) v] by simp
  qed
qed

text \<open>An address that comes back was not taken, and is now.\<close>

lemma take_Ok:
  assumes "pool_ok good free taken m w" and "conflicts (snd (pg w)) < maxRetries"
    and "take_address pop (occupy c) (grow m c) show_ip w = (Ok a, w')"
  shows "\<exists>ip. a = show_ip ip \<and> ip \<notin> set (taken (fst (pg w))) \<and> ip \<in> set (taken (fst (pg w')))"
proof -
  have g: "good (redis w)" and col: "pool_col m (free (redis w) @ taken (fst (pg w)))"
    using assms(1) by (simp_all add: pool_ok_def)
  obtain q s1 where p: "pop (redis w) = (q, s1)" by (metis prod.exhaust)
  show ?thesis
  proof (cases q)
    case (Ok ip)
    with pop_Ok g p have fr: "free (redis w) = ip # free s1" by blast
    then have ip: "ip \<notin> set (taken (fst (pg w)))" using col by (simp add: pool_col_def)
    obtain r d1 where o: "occupy c ip (pg w) = (r, d1)" by (metis prod.exhaust)
    with assms(3) p Ok have "r = Ok ()" "a = show_ip ip" "pg w' = d1"
      by (cases r; auto simp: take_address_def prog_defs on_pg_eq on_redis_eq)+
    with occupy [OF ip o] ip show ?thesis by auto
  next
    case (Er e)
    obtain r d1 where x: "grow m c (pg w) = (r, d1)" by (metis prod.exhaust)
    with assms(3) p Er obtain ip where "r = Ok ip" "a = show_ip ip" "pg w' = d1"
      by (cases r) (auto simp: take_address_def prog_defs on_pg_eq on_redis_eq split: if_splits)
    with grow_Ok [of m c "pg w" ip d1] x assms(2) show ?thesis by blast
  next
    case (Crash k)
    then show ?thesis using quiet_result [OF no_crash(1) p] by simp
  qed
qed

lemma pool_quiet:
  "quiet (take_address pop (occupy c) (grow m c) show_ip)" "quiet (give_address push (vacate k))"
  unfolding take_address_def give_address_def by (intro quiet_intros no_crash db_quiet)+

end


section \<open>The two pools of the program\<close>

lemma AddPeer_column:
  assumes "ip \<notin> set (wg_column (fst d))" and "AddPeer_store uid \<lparr>PublicKey = key, IpAddress = ip\<rparr> d = (r, d')"
  shows "wg_column (fst d') = wg_column (fst d) @ [ip] \<or> r \<noteq> Ok () \<and> wg_column (fst d') = wg_column (fst d)"
proof -
  obtain t as where d: "d = (t, as)" by (cases d)
  obtain t' as' where d': "d' = (t', as')" by (cases d')
  obtain q t1 as1 where h: "HitMaxLimit uid (t, as) = (q, (t1, as1))" by (metis prod.exhaust)
  then have t1: "t1 = t" by (rule HitMaxLimit_state)
  let ?ins = "sql_insert_wgpeer uid key ip"
  have eff: "wg_column (snd (?ins t)) = (if fst (?ins t) = Ok () then wg_column t @ [ip] else wg_column t)"
    by (simp add: sql_insert_wgpeer_def wg_column_def)
  show ?thesis
  proof (cases "q = Ok False")
    case True
    with assms(2) d d' h t1 have "serve ?ins (t, as1) = (r, (t', as'))"
      by (simp add: AddPeer_store_def tri_eq)
    from serve_effect [OF this] eff d d' show ?thesis by auto
  next
    case False
    with assms(2) d d' h t1 show ?thesis
      by (cases q) (auto simp: AddPeer_store_def prog_defs)
  qed
qed

lemma attempt_wg_column:
  "attempt_insert wg_column (sql_insert_wgpeer uid key) m t ip t' \<Longrightarrow>
     wg_column t' = wg_column t @ [next_ip (wg_column t)] \<and> (wg_column t = [] \<or> next_ip (wg_column t) \<le> m)"
  using devices_insert(1) by (fastforce simp: attempt_insert_def wg_column_def)

lemma attempt_ip_column:
  "attempt_insert ip_column (sql_insert_userip uid) m t ip t' \<Longrightarrow>
     ip_column t' = ip_column t @ [next_ip (ip_column t)] \<and> (ip_column t = [] \<or> next_ip (ip_column t) \<le> m)"
  using insert_userip_Ok(1) by (fastforce simp: attempt_insert_def ip_column_def)

lemma attempt_pool:
  "pool_col m (wg_column t) \<Longrightarrow> 2 \<le> m \<Longrightarrow> attempt_insert wg_column (sql_insert_wgpeer uid key) m t ip t' \<Longrightarrow>
     pool_col m (wg_column t')"
  "pool_col m (ip_column t) \<Longrightarrow> 2 \<le> m \<Longrightarrow> attempt_insert ip_column (sql_insert_userip uid) m t ip t' \<Longrightarrow>
     pool_col m (ip_column t')"
  using attempt_wg_column attempt_ip_column pool_col_next by metis+

lemma grow_wg_column:
  assumes "2 \<le> m"
  shows "keeps (holds (\<lambda>t. pool_col m (wg_column t))) (AllocateNextFreeIP_wg m uid wg)"
  unfolding AllocateNextFreeIP_wg_def HitMaxLimit_def
  using assms by (intro keeps_intros tx_loop_keeps) (rule attempt_pool(1))

lemma grow_ip_column:
  assumes "2 \<le> m"
  shows "keeps (holds (\<lambda>t. pool_col m (ip_column t))) (AllocateNextFreeIP_lxc m uid)"
  unfolding AllocateNextFreeIP_lxc_def
  using assms by (intro tx_loop_keeps) (rule attempt_pool(2))

text \<open>A DELETE that returns the address of a row takes it out of a column of distinct addresses.\<close>

lemma delete_column:
  assumes "distinct (map f rs)"
  shows "distinct (map f (filter (\<lambda>r. \<not> P r) rs))"
    and "f ` set (filter (\<lambda>r. \<not> P r) rs) \<subseteq> f ` set rs"
    and "filter P rs = r # rest \<Longrightarrow> f r \<in> f ` set rs \<and> f r \<notin> f ` set (filter (\<lambda>r. \<not> P r) rs)"
proof -
  show "distinct (map f (filter (\<lambda>r. \<not> P r) rs))" using assms by (rule distinct_map_filter)
  show "f ` set (filter (\<lambda>r. \<not> P r) rs) \<subseteq> f ` set rs" by auto
  assume "filter P rs = r # rest"
  then have "r \<in> set (filter P rs)" by simp
  then show "f r \<in> f ` set rs \<and> f r \<notin> f ` set (filter (\<lambda>r. \<not> P r) rs)"
    using assms by (auto simp: distinct_map inj_on_def)
qed

lemma sql_delete_wgpeer_column:
  assumes "distinct (wg_column t)"
  shows "distinct (wg_column (snd (sql_delete_wgpeer key uid t)))"
    and "set (wg_column (snd (sql_delete_wgpeer key uid t))) \<subseteq> set (wg_column t)"
    and "fst (sql_delete_wgpeer key uid t) = Ok ip \<Longrightarrow>
      ip \<in> set (wg_column t) \<and> ip \<notin> set (wg_column (snd (sql_delete_wgpeer key uid t)))"
  using delete_column [of wg_ip "wgpeers t" "\<lambda>r. wg_key r = key \<and> wg_user r = uid"] assms
  by (auto simp: sql_delete_wgpeer_def wg_column_def Let_def split: list.splits)

lemma sql_delete_userip_column:
  assumes "distinct (ip_column t)"
  shows "distinct (ip_column (snd (sql_delete_userip uid t)))"
    and "set (ip_column (snd (sql_delete_userip uid t))) \<subseteq> set (ip_column t)"
    and "fst (sql_delete_userip uid t) = Ok ip \<Longrightarrow>
      ip \<in> set (ip_column t) \<and> ip \<notin> set (ip_column (snd (sql_delete_userip uid t)))"
  using delete_column [of ip_addr "userips t" "\<lambda>r. ip_user r = uid"] assms
  by (auto simp: sql_delete_userip_def ip_column_def split: list.splits)

lemma vacate_effect:
  assumes "handle (serve f) (\<lambda>e. if e = ErrNoRows then fail (ErrText PEER_DOES_NOT_EXIST) else fail e) ret d = (r, d')"
    and "\<And>t. distinct (col t) \<Longrightarrow> distinct (col (snd (f t))) \<and> set (col (snd (f t))) \<subseteq> set (col t)"
    and "\<And>t ip. distinct (col t) \<Longrightarrow> fst (f t) = Ok ip \<Longrightarrow> ip \<in> set (col t) \<and> ip \<notin> set (col (snd (f t)))"
    and "distinct (col (fst d))"
  shows "distinct (col (fst d')) \<and> set (col (fst d')) \<subseteq> set (col (fst d)) \<and>
    (\<forall>ip. r = Ok ip \<longrightarrow> ip \<in> set (col (fst d)) \<and> ip \<notin> set (col (fst d')))"
proof -
  obtain t as where d: "d = (t, as)" by (cases d)
  obtain q t1 as1 where s: "serve f (t, as) = (q, (t1, as1))" by (metis prod.exhaust)
  from assms(1) d s have d': "d' = (t1, as1)" and r: "\<And>ip. r = Ok ip \<Longrightarrow> q = Ok ip"
    by (cases q; auto simp: prog_defs split: if_splits)+
  from serve_effect [OF s] assms(2-4) d d' r show ?thesis by fastforce
qed

lemma RemovePeer_column:
  "distinct (wg_column (fst d)) \<Longrightarrow> RemovePeer_store key uid d = (r, d') \<Longrightarrow>
     distinct (wg_column (fst d')) \<and> set (wg_column (fst d')) \<subseteq> set (wg_column (fst d)) \<and>
     (\<forall>ip. r = Ok ip \<longrightarrow> ip \<in> set (wg_column (fst d)) \<and> ip \<notin> set (wg_column (fst d')))"
  unfolding RemovePeer_store_def
  by (rule vacate_effect) (auto simp: sql_delete_wgpeer_column dest: subsetD [OF sql_delete_wgpeer_column(2)])

lemma RemoveIP_column:
  "distinct (ip_column (fst d)) \<Longrightarrow> RemoveIP uid d = (r, d') \<Longrightarrow>
     distinct (ip_column (fst d')) \<and> set (ip_column (fst d')) \<subseteq> set (ip_column (fst d)) \<and>
     (\<forall>ip. r = Ok ip \<longrightarrow> ip \<in> set (ip_column (fst d)) \<and> ip \<notin> set (ip_column (fst d')))"
  unfolding RemoveIP_def
  by (rule vacate_effect) (auto simp: sql_delete_userip_column dest: subsetD [OF sql_delete_userip_column(2)])

lemma AddIP_column:
  assumes "ip \<notin> set (ip_column (fst d))" and "AddIP uid ip d = (r, d')"
  shows "ip_column (fst d') = ip_column (fst d) @ [ip] \<or> r \<noteq> Ok () \<and> ip_column (fst d') = ip_column (fst d)"
proof -
  obtain t as where d: "d = (t, as)" by (cases d)
  obtain t' as' where d': "d' = (t', as')" by (cases d')
  have "serve (sql_insert_userip uid ip) (t, as) = (r, (t', as'))" using assms(2) d d' by (simp add: AddIP_def)
  moreover have "ip_column (snd (sql_insert_userip uid ip t)) =
      (if fst (sql_insert_userip uid ip t) = Ok () then ip_column t @ [ip] else ip_column t)"
    by (simp add: sql_insert_userip_def ip_column_def)
  ultimately show ?thesis using serve_effect [of "sql_insert_userip uid ip" t as r t' as'] d d' by auto
qed

interpretation wg_pool: ip_pool "\<lambda>ip. PushFreeIp ip STACK_KEY" "PopFreeIp STACK_KEY"
    "free_ips STACK_KEY" "stack_ok STACK_KEY"
    "\<lambda>(uid, key) ip. AddPeer_store uid \<lparr>PublicKey = key, IpAddress = ip\<rparr>"
    "\<lambda>m (uid, key). AllocateNextFreeIP_wg m uid \<lparr>PublicKey = key, IpAddress = 0\<rparr>"
    "\<lambda>(key, uid). RemovePeer_store key uid" wg_column
proof
  fix ip and d :: db and c :: "int \<times> string" and r d'
  assume "ip \<notin> set (wg_column (fst d))"
    and "(case c of (uid, key) \<Rightarrow> \<lambda>ip. AddPeer_store uid \<lparr>PublicKey = key, IpAddress = ip\<rparr>) ip d = (r, d')"
  then show "wg_column (fst d') = wg_column (fst d) @ [ip] \<or> r \<noteq> Ok () \<and> wg_column (fst d') = wg_column (fst d)"
    by (cases c) (auto dest: AddPeer_column)
next
  fix m and d :: db and c :: "int \<times> string" and i d'
  assume "pool_col m (wg_column (fst d))" "2 \<le> m"
    and "(case c of (uid, key) \<Rightarrow> AllocateNextFreeIP_wg m uid \<lparr>PublicKey = key, IpAddress = 0\<rparr>) d = (i, d')"
  then show "pool_col m (wg_column (fst d'))"
    using keeps_run [OF grow_wg_column] by (cases c) (fastforce simp: holds_def)
next
  fix m and d :: db and c :: "int \<times> string" and ip d'
  assume "(case c of (uid, key) \<Rightarrow> AllocateNextFreeIP_wg m uid \<lparr>PublicKey = key, IpAddress = 0\<rparr>) d = (Ok ip, d')"
    and "conflicts (snd d) < maxRetries"
  then show "ip \<notin> set (wg_column (fst d)) \<and> ip \<in> set (wg_column (fst d'))"
    by (cases c; cases d; cases d') (auto dest!: AllocateNextFreeIP_wg_committed simp: wg_column_def intro: rev_image_eqI)
next
  fix d :: db and k :: "string \<times> int" and i d'
  assume "distinct (wg_column (fst d))"
    and "(case k of (key, uid) \<Rightarrow> RemovePeer_store key uid) d = (i, d')"
  then show "distinct (wg_column (fst d')) \<and> set (wg_column (fst d')) \<subseteq> set (wg_column (fst d)) \<and>
      (\<forall>ip. i = Ok ip \<longrightarrow> ip \<in> set (wg_column (fst d)) \<and> ip \<notin> set (wg_column (fst d')))"
    using RemovePeer_column by (cases k) simp
qed (auto intro: quiet_intros)

interpretation lxc_pool: ip_pool "\<lambda>ip. PushFreeIp ip LXC_IP" "PopFreeIp LXC_IP"
    "free_ips LXC_IP" "stack_ok LXC_IP" AddIP AllocateNextFreeIP_lxc RemoveIP ip_column
proof
  fix m and d :: db and uid ip d'
  assume "AllocateNextFreeIP_lxc m uid d = (Ok ip, d')" and "conflicts (snd d) < maxRetries"
  then show "ip \<notin> set (ip_column (fst d)) \<and> ip \<in> set (ip_column (fst d'))"
    by (cases d; cases d') (auto dest!: AllocateNextFreeIP_lxc_committed simp: ip_column_def intro: rev_image_eqI)
next
  fix m and d :: db and uid i d'
  assume "pool_col m (ip_column (fst d))" "2 \<le> m" "AllocateNextFreeIP_lxc m uid d = (i, d')"
  then show "pool_col m (ip_column (fst d'))"
    using keeps_run [OF grow_ip_column] by (fastforce simp: holds_def)
qed (use AddIP_column RemoveIP_column in \<open>auto intro: quiet_intros\<close>)

end
