(* ===== verification/Ip_Calls.thy ===== *)
theory Ip_Calls
  imports Ip_Pool
begin

text \<open>
  Sequences of calls of the allocator. Both pools keep their invariant under every call of either,
  so addresses in use are pairwise different; a released address is the next one given out; an
  address popped for an insert that fails is lost.
\<close>

section \<open>Calls of the allocator as operations of a pool\<close>

lemma AllocateFreeIp_pool:
  "AllocateFreeIp al uid key =
     take_address (PopFreeIp STACK_KEY)
       ((\<lambda>(uid, key) ip. AddPeer_store uid \<lparr>PublicKey = key, IpAddress = ip\<rparr>) (uid, key))
       ((\<lambda>m (uid, key). AllocateNextFreeIP_wg m uid \<lparr>PublicKey = key, IpAddress = 0\<rparr>)
          (FindNoOfUsableHosts al) (uid, key)) GenerateIP"
  by (simp add: AllocateFreeIp_def take_address_def)

lemma AllocateFreeLXCIp_pool:
  "AllocateFreeLXCIp al uid =
     take_address (PopFreeIp LXC_IP) (AddIP uid)
       (AllocateNextFreeIP_lxc (FindNoOfUsableHostsDocker al) uid) GenerateIPLXC"
  by (simp add: AllocateFreeLXCIp_def take_address_def)

lemma DeAllocateIP_pool:
  "DeAllocateIP key uid =
     give_address (\<lambda>ip. PushFreeIp ip STACK_KEY) ((\<lambda>(key, uid). RemovePeer_store key uid) (key, uid))"
  by (simp add: DeAllocateIP_def give_address_def)

lemma DeAllocateLXCIP_pool:
  "DeAllocateLXCIP uid = give_address (\<lambda>ip. PushFreeIp ip LXC_IP) (RemoveIP uid)"
  by (simp add: DeAllocateLXCIP_def give_address_def)

definition wg_pool_ok :: "int \<Rightarrow> 'x stores_scheme \<Rightarrow> bool" where
  "wg_pool_ok = pool_ok (stack_ok STACK_KEY) (free_ips STACK_KEY) wg_column"

definition lxc_pool_ok :: "int \<Rightarrow> 'x stores_scheme \<Rightarrow> bool" where
  "lxc_pool_ok = pool_ok (stack_ok LXC_IP) (free_ips LXC_IP) ip_column"

lemma allocator_bounds:
  assumes "CreateIpAllocator cidr = Ok al"
  shows "256 \<le> FindNoOfUsableHosts al" and "FindNoOfUsableHosts al \<le> 2 ^ 24"
    and "FindNoOfUsableHostsDocker al = FindNoOfUsableHosts al - 2" and "CidrValue al = cidr"
    and "16 \<le> cidr \<Longrightarrow> FindNoOfUsableHosts al \<le> 65536"
proof -
  have cidr: "8 \<le> cidr" "cidr \<le> 24" and al: "CidrValue al = cidr"
    using assms by (auto simp: CreateIpAllocator_def split: if_splits)
  then have n: "FindNoOfUsableHosts al = 2 ^ nat (32 - cidr)" by (simp add: FindNoOfUsableHosts_def)
  have "(2::int) ^ 8 \<le> 2 ^ nat (32 - cidr)" using cidr by (intro power_increasing) auto
  with n show "256 \<le> FindNoOfUsableHosts al" by simp
  have "(2::int) ^ nat (32 - cidr) \<le> 2 ^ 24" using cidr by (intro power_increasing) auto
  with n show "FindNoOfUsableHosts al \<le> 2 ^ 24" by simp
  show "FindNoOfUsableHostsDocker al = FindNoOfUsableHosts al - 2"
    by (simp add: FindNoOfUsableHosts_def FindNoOfUsableHostsDocker_def)
  show "CidrValue al = cidr" by (rule al)
  assume "16 \<le> cidr"
  then have "(2::int) ^ nat (32 - cidr) \<le> 2 ^ 16" by (intro power_increasing) auto
  with n show "FindNoOfUsableHosts al \<le> 65536" by simp
qed

section \<open>A call of one pool does not touch the other\<close>

lemma keeps_conj: "keeps I m \<Longrightarrow> keeps J m \<Longrightarrow> keeps (\<lambda>s. I s \<and> J s) m"
  by (simp add: keeps_def)

definition stack_is :: "string \<Rightarrow> int list \<Rightarrow> rds \<Rightarrow> bool" where
  "stack_is key ips s \<longleftrightarrow> stack_ok key s \<and> free_ips key s = ips"

lemma stack_is_frame:
  assumes "\<And>ks. snd (f ks) key = ks key"
  shows "keeps (stack_is key ips) (serve f)"
proof (rule keepsI)
  fix s assume "stack_is key ips s"
  moreover obtain ks as where s: "s = (ks, as)" by (cases s)
  moreover obtain r ks' as' where r: "serve f (ks, as) = (r, (ks', as'))" by (metis prod.exhaust)
  moreover have "ks' key = ks key" using serve_state [of f "(ks, as)"] r assms by auto
  moreover have "list_all honest_answer as \<Longrightarrow> list_all honest_answer as'" using serve_honest [OF r] .
  ultimately show "stack_is key ips (snd (serve f s))"
    by (simp add: stack_is_def stack_ok_def free_ips_def)
qed

lemma list_commands_frame:
  "key \<noteq> k \<Longrightarrow> snd (r_lpop k ks) key = ks key" "key \<noteq> k \<Longrightarrow> snd (r_lpush k v ks) key = ks key"
  by (auto simp: r_lpop_def r_lpush_def split: option.split content.split list.split)

lemma stack_calls_frame:
  assumes "key \<noteq> k"
  shows "keeps (stack_is key ips) (PopFreeIp k)" "keeps (stack_is key ips) (PushFreeIp ip k)"
  unfolding PopFreeIp_def PushFreeIp_def
  using assms by (intro keeps_intros stack_is_frame list_commands_frame; simp)+

lemma wg_calls_ip_column:
  "keeps (holds (\<lambda>t. ip_column t = c)) (AddPeer_store uid wg)"
  "keeps (holds (\<lambda>t. ip_column t = c)) (AllocateNextFreeIP_wg m uid wg)"
  "keeps (holds (\<lambda>t. ip_column t = c)) (RemovePeer_store key uid)"
  unfolding wg_store_defs
  by (intro keeps_intros keeps_serve tx_loop_keeps;
      auto simp: sql_insert_wgpeer_def sql_delete_wgpeer_def ip_column_def attempt_insert_def Let_def
        split: if_splits list.split)+

lemma lxc_calls_wg_column:
  "keeps (holds (\<lambda>t. wg_column t = c)) (AddIP uid ip)"
  "keeps (holds (\<lambda>t. wg_column t = c)) (AllocateNextFreeIP_lxc m uid)"
  "keeps (holds (\<lambda>t. wg_column t = c)) (RemoveIP uid)"
  unfolding instance_store_defs
  by (intro keeps_intros keeps_serve tx_loop_keeps;
      auto simp: sql_insert_userip_def sql_delete_userip_def wg_column_def attempt_insert_def
        split: if_splits list.split)+

lemma pool_ok_frame:
  assumes "\<And>ips c. keeps (\<lambda>w. stack_is key ips (redis w) \<and> holds (\<lambda>t. col t = c) (pg w)) p"
  shows "keeps (pool_ok (stack_ok key) (free_ips key) col m) (p :: ('x stores_scheme, 'b) prog)"
proof (rule keepsI)
  fix w :: "'x stores_scheme" assume ok: "pool_ok (stack_ok key) (free_ips key) col m w"
  let ?I = "\<lambda>v. stack_is key (free_ips key (redis w)) (redis v) \<and> holds (\<lambda>t. col t = col (fst (pg w))) (pg v)"
  have "keeps ?I p" by (rule assms)
  moreover have "?I w" using ok by (simp add: pool_ok_def stack_is_def holds_def)
  ultimately have "?I (snd (p w))" by (simp add: keeps_def)
  with ok show "pool_ok (stack_ok key) (free_ips key) col m (snd (p w))"
    by (simp add: pool_ok_def stack_is_def holds_def)
qed

lemma wg_calls_lxc_pool:
  "keeps (lxc_pool_ok m) (AllocateFreeIp al uid key)" "keeps (lxc_pool_ok m) (DeAllocateIP key uid)"
  unfolding lxc_pool_ok_def AllocateFreeIp_def DeAllocateIP_def
  by (intro pool_ok_frame keeps_conj keeps_intros stack_calls_frame wg_calls_ip_column; simp)+

lemma lxc_calls_wg_pool:
  "keeps (wg_pool_ok m) (AllocateFreeLXCIp al uid)" "keeps (wg_pool_ok m) (DeAllocateLXCIP uid)"
  unfolding wg_pool_ok_def AllocateFreeLXCIp_def DeAllocateLXCIP_def
  by (intro pool_ok_frame keeps_conj keeps_intros stack_calls_frame lxc_calls_wg_column; simp)+

lemma wg_calls_wg_pool:
  "2 \<le> FindNoOfUsableHosts al \<Longrightarrow> keeps (wg_pool_ok (FindNoOfUsableHosts al)) (AllocateFreeIp al uid key)"
  "m < 2 ^ 63 \<Longrightarrow> keeps (wg_pool_ok m) (DeAllocateIP key uid)"
  unfolding AllocateFreeIp_pool DeAllocateIP_pool wg_pool_ok_def
  by (rule wg_pool.take_keeps, assumption) (rule wg_pool.give_keeps)

lemma lxc_calls_lxc_pool:
  "2 \<le> FindNoOfUsableHostsDocker al \<Longrightarrow>
     keeps (lxc_pool_ok (FindNoOfUsableHostsDocker al)) (AllocateFreeLXCIp al uid)"
  "m < 2 ^ 63 \<Longrightarrow> keeps (lxc_pool_ok m) (DeAllocateLXCIP uid)"
  unfolding AllocateFreeLXCIp_pool DeAllocateLXCIP_pool lxc_pool_ok_def
  by (rule lxc_pool.take_keeps, assumption) (rule lxc_pool.give_keeps)

section \<open>Any sequence of calls\<close>

datatype alloc_call = TakeWg int string | GiveWg string int | TakeLxc int | GiveLxc int

fun run_alloc :: "IPAllocator \<Rightarrow> alloc_call \<Rightarrow> 'x stores_scheme \<Rightarrow> 'x stores_scheme" where
  "run_alloc al (TakeWg uid key) w = snd (AllocateFreeIp al uid key w)"
| "run_alloc al (GiveWg key uid) w = snd (DeAllocateIP key uid w)"
| "run_alloc al (TakeLxc uid) w = snd (AllocateFreeLXCIp al uid w)"
| "run_alloc al (GiveLxc uid) w = snd (DeAllocateLXCIP uid w)"

definition pools_ok :: "IPAllocator \<Rightarrow> 'x stores_scheme \<Rightarrow> bool" where
  "pools_ok al w \<longleftrightarrow>
     wg_pool_ok (FindNoOfUsableHosts al) w \<and> lxc_pool_ok (FindNoOfUsableHostsDocker al) w"

lemma run_alloc_pools:
  assumes al: "CreateIpAllocator cidr = Ok al" and ok: "pools_ok al w"
  shows "pools_ok al (run_alloc al c w)"
proof -
  note b = allocator_bounds(1-3) [OF al]
  have m: "2 \<le> FindNoOfUsableHosts al" "2 \<le> FindNoOfUsableHostsDocker al"
    "FindNoOfUsableHosts al < 2 ^ 63" "FindNoOfUsableHostsDocker al < 2 ^ 63"
    using b by simp_all
  note own = wg_calls_wg_pool(1) [OF m(1)] wg_calls_wg_pool(2) [OF m(3)]
    lxc_calls_lxc_pool(1) [OF m(2)] lxc_calls_lxc_pool(2) [OF m(4)]
  have "wg_pool_ok (FindNoOfUsableHosts al) w" "lxc_pool_ok (FindNoOfUsableHostsDocker al) w"
    using ok by (simp_all add: pools_ok_def)
  then show ?thesis
    by (cases c) (simp_all add: pools_ok_def own [THEN keepsD] lxc_calls_wg_pool [THEN keepsD]
        wg_calls_lxc_pool [THEN keepsD])
qed

lemma run_allocs_pools:
  "CreateIpAllocator cidr = Ok al \<Longrightarrow> pools_ok al w \<Longrightarrow> pools_ok al (fold (run_alloc al) cs w)"
  by (induction cs arbitrary: w) (simp_all add: run_alloc_pools)


lemma pool_colD: "pool_col m (xs @ ys) \<Longrightarrow> ip \<in> set ys \<Longrightarrow> 2 \<le> ip \<and> ip \<le> m"
  by (simp add: pool_col_def)

lemma GenerateIP_inj_on: "inj_on GenerateIP {0..<2 ^ 24}"
  by (rule inj_onI) (metis GenerateIP_digits atLeastLessThan_iff base_256 dotted_3_inject)

lemma GenerateIPLXC_inj_on: "inj_on GenerateIPLXC {0..<65536}"
  by (rule inj_onI) (simp add: GenerateIPLXC_eq_iff)

definition fresh_stores :: stores where
  "fresh_stores = \<lparr>pg = (sample_tables, []), redis = (Map.empty, [])\<rparr>"

definition al24 :: IPAllocator where
  "al24 = \<lparr>CidrValue = 24\<rparr>"

lemma al24: "CreateIpAllocator 24 = Ok al24"
  by (simp add: CreateIpAllocator_def al24_def)

lemma fresh_stores_ok: "pools_ok al24 fresh_stores"
  by (simp add: pools_ok_def wg_pool_ok_def lxc_pool_ok_def pool_ok_def stack_ok_def free_ips_def
      pool_col_def fresh_stores_def wg_column_def ip_column_def sample_tables_def empty_tables_def)

text \<open>C18: an address text that \<open>AllocateFreeIp\<close> or \<open>AllocateFreeLXCIp\<close> returns belongs to a host number
  nobody held before the call and that is recorded in the table after it, provided the pool was in
  order and fewer than five serialization failures lie ahead.\<close>

theorem allocated_address_is_new:
  assumes "pools_ok al w" and "conflicts (snd (pg w)) < maxRetries"
  shows "(\<forall>a w'. AllocateFreeIp al uid key w = (Ok a, w') \<longrightarrow>
      (\<exists>ip. a = GenerateIP ip \<and> ip \<notin> set (wg_column (fst (pg w))) \<and> ip \<in> set (wg_column (fst (pg w'))))) \<and>
    (\<forall>a w'. AllocateFreeLXCIp al uid w = (Ok a, w') \<longrightarrow>
      (\<exists>ip. a = GenerateIPLXC ip \<and> ip \<notin> set (ip_column (fst (pg w))) \<and> ip \<in> set (ip_column (fst (pg w')))))"
  using assms wg_pool.take_Ok lxc_pool.take_Ok
  unfolding AllocateFreeIp_pool AllocateFreeLXCIp_pool pools_ok_def wg_pool_ok_def lxc_pool_ok_def
  by blast

theorem allocated_address_is_new_witness:
  "\<exists>ip. ''172.30.0.2'' = GenerateIPLXC ip \<and> ip \<notin> set (ip_column (fst (pg fresh_stores)))"
proof -
  have "fst (AllocateFreeLXCIp al24 1 fresh_stores) = Ok ''172.30.0.2''" by code_simp
  then obtain w' where "AllocateFreeLXCIp al24 1 fresh_stores = (Ok ''172.30.0.2'', w')"
    by (metis prod.collapse)
  moreover have "conflicts (snd (pg fresh_stores)) < maxRetries" by code_simp
  ultimately show ?thesis using allocated_address_is_new [OF fresh_stores_ok] by blast
qed

text \<open>Released addresses are reused last in, first out: on servers that answer, the address a user
  gives back is the very one the next user gets (who must be known and not yet have an address).\<close>

lemma released_address_is_reused:
  assumes "DeAllocateLXCIP u w = (Ok (), w')" and "lxc_pool_ok m w" and "m < 2 ^ 63"
    and "pg w' = (t, [])" and "redis w' = (ks, [])" and "known_user t v" and "v \<notin> ip_user ` set (userips t)"
  shows "\<exists>ip. \<lparr>ip_user = u, ip_addr = ip\<rparr> \<in> set (userips (fst (pg w))) \<and>
    fst (AllocateFreeLXCIp al v w') = Ok (GenerateIPLXC ip)"
proof -
  obtain t0 as0 where w0: "pg w = (t0, as0)" by (cases "pg w")
  obtain q d1 where v: "RemoveIP u (pg w) = (q, d1)" by (metis prod.exhaust)
  with assms(1) obtain ip where q: "q = Ok ip" and pu: "PushFreeIp ip LXC_IP (redis w) = (Ok (), (ks, []))"
    and d1: "d1 = (t, [])"
    using assms(4,5) by (cases q) (auto simp: DeAllocateLXCIP_def prog_defs on_pg_eq on_redis_eq split: prod.splits)
  from v q w0 have "sql_delete_userip u t0 = (Ok ip, t)"
    using d1 by (auto simp: RemoveIP_def prog_defs dest!: serve_OkD split: prod.splits res.splits if_splits)
  then have row: "\<lparr>ip_user = u, ip_addr = ip\<rparr> \<in> set (userips t0)"
    by (fastforce simp: sql_delete_userip_def filter_eq_Cons_iff split: list.splits)
  have ok: "stack_ok LXC_IP (redis w)" and col: "pool_col m (ip_column t0)"
    using assms(2) w0 by (auto simp: lxc_pool_ok_def pool_ok_def pool_col_def)
  have "int64_range ip"
    using row col assms(3) by (auto simp: pool_col_def ip_column_def int64_range_def)
  from lxc_stack.push [OF ok this pu] have st: "stack_ok LXC_IP (ks, [])" "free_ips LXC_IP (ks, []) \<noteq> []"
    and hd: "hd (free_ips LXC_IP (ks, [])) = ip"
    by auto
  obtain r s1 where p: "PopFreeIp LXC_IP (ks, []) = (r, s1)" by (metis prod.exhaust)
  have "r = Ok ip"
    using st hd p by (cases rule: stack_cases [OF st(1)])
      (auto simp: PopFreeIp_def r_lpop_def prog_defs split: list.splits)
  then have "fst (AllocateFreeLXCIp al v w') = Ok (GenerateIPLXC ip)"
    using p assms(4-7) by (simp add: AllocateFreeLXCIp_def on_pg_eq on_redis_eq prog_defs AddIP_def
        sql_insert_userip_def list_ex_iff image_iff split: if_splits) blast
  with row w0 show ?thesis by auto
qed


lemma pair_of: "fst p = a \<Longrightarrow> snd p = b \<Longrightarrow> p = (a, b)"
  by (cases p) simp

text \<open>The allocator pops a released address before it inserts the row, and does not put it back when
  the insert fails. So a second request of a user who already holds an address (as the retry of a
  deployment that failed after this step) returns the unique violation and takes the top address out
  of the pool for good: it is then neither free nor in any row.\<close>

lemma popped_address_is_lost:
  assumes "stack_ok LXC_IP (ks, [])" and "free_ips LXC_IP (ks, []) = ip # rest"
    and "uid \<in> ip_user ` set (userips t)" and "ip \<notin> set (ip_column t)"
    and "AllocateFreeLXCIp al uid \<lparr>pg = (t, []), redis = (ks, [])\<rparr> = (r, w')"
  shows "r = Er unique_violation \<and> free_ips LXC_IP (redis w') = rest \<and> fst (pg w') = t"
proof -
  obtain q s1 where p: "PopFreeIp LXC_IP (ks, []) = (q, s1)" by (metis prod.exhaust)
  have "q = Ok ip" "free_ips LXC_IP s1 = rest"
    using p assms(2) by (cases rule: stack_cases [OF assms(1)];
      auto simp: PopFreeIp_def r_lpop_def prog_defs free_ips_def split: list.splits)+
  moreover have "list_ex (\<lambda>q. ip_user q = uid) (userips t)" using assms(3) by (auto simp: list_ex_iff)
  ultimately show ?thesis
    using p assms(5) by (auto simp: AllocateFreeLXCIp_def on_pg_eq on_redis_eq prog_defs AddIP_def sql_insert_userip_def)
qed

definition one_free :: keyspace where
  "one_free = [LXC_IP \<mapsto> \<lparr>val_of = Items [''3''], ttl_hours = None\<rparr>]"

definition one_row :: tables where
  "one_row = sample_tables\<lparr>userips := [\<lparr>ip_user = 1, ip_addr = 2\<rparr>]\<rparr>"

lemma popped_address_is_lost_witness:
  "free_ips LXC_IP (redis (snd (AllocateFreeLXCIp al24 1 \<lparr>pg = (one_row, []), redis = (one_free, [])\<rparr>))) = []"
  using popped_address_is_lost [of one_free 3 "[]" 1 one_row al24, OF _ _ _ _ prod.collapse [symmetric]]
  by (simp add: stack_ok_def free_ips_def one_free_def one_row_def ip_column_def parse_unsigned_def
      digit_value_def in_int64_def int64_range_def)

text \<open>The WireGuard pool of the /24 the server runs with counts 256 usable hosts, so it hands out the
  broadcast address and then, as host 256, an address outside the network of its interface.\<close>

lemma wg_pool_leaves_subnet:
  "FindNoOfUsableHosts al24 = 256 \<and> GenerateIP 255 = ''10.0.0.255'' \<and> GenerateIP 256 = ''10.0.1.0'' \<and>
   AllocateNextFreeIP_wg (FindNoOfUsableHosts al24) 1 \<lparr>PublicKey = ''k'', IpAddress = 0\<rparr>
     (sample_tables\<lparr>wgpeers := [\<lparr>wg_user = 2, wg_key = ''j'', wg_ip = 255\<rparr>]\<rparr>, []) =
   (Ok 256, (sample_tables\<lparr>wgpeers := [\<lparr>wg_user = 2, wg_key = ''j'', wg_ip = 255\<rparr>,
       \<lparr>wg_user = 1, wg_key = ''k'', wg_ip = 256\<rparr>]\<rparr>, []))"
  by code_simp

end
