(* ===== verification/Address_Race.thy ===== *)
theory Address_Race
  imports Ip_Calls
begin

text \<open>
  Allocations and releases of container addresses that overlap. An allocation pops the stack and then inserts a row, or,
  when the stack is empty, inserts the next free number in a transaction; a release deletes the row and then pushes the
  number. Jobs run in goroutines of their own, so between the two halves of one call others run. Each half is a step
  here; the numbers popped and not yet inserted, or deleted and not yet pushed, are in flight. The lemmas show that no
  step makes a number out of nothing except the transaction, that the pool is safe as long as the transaction runs with
  nothing in flight, and that otherwise two containers can get one address.
\<close>

section \<open>Halves of calls\<close>

datatype half =
    Occupying int int
  | Growing int
  | Returning int

text \<open>The second half of an allocation, with the number that was popped, or without one when the stack was empty.\<close>

definition finish_alloc :: "IPAllocator \<Rightarrow> int \<Rightarrow> int option \<Rightarrow> ('x stores_scheme, string) prog" where
  "finish_alloc al uid popped =
     (case popped of
        Some ip \<Rightarrow> tri (on_pg (AddIP uid ip)) (\<lambda>_. ret (GenerateIPLXC ip))
      | None \<Rightarrow> tri (on_pg (AllocateNextFreeIP_lxc (FindNoOfUsableHostsDocker al) uid)) (\<lambda>ip. ret (GenerateIPLXC ip)))"

text \<open>The calls of the allocator are the two halves, one after the other.\<close>

lemma calls_are_halves:
  "AllocateFreeLXCIp al uid =
     handle (on_redis (PopFreeIp LXC_IP))
       (\<lambda>e. if error_text e \<noteq> EMPTY_IP_STACK then fail e else finish_alloc al uid None)
       (\<lambda>ip. finish_alloc al uid (Some ip))"
  "DeAllocateLXCIP uid = tri (on_pg (RemoveIP uid)) (\<lambda>ip. on_redis (PushFreeIp ip LXC_IP))"
  by (simp_all add: AllocateFreeLXCIp_def DeAllocateLXCIP_def finish_alloc_def cong: if_cong)

fun half_ips :: "half \<Rightarrow> int list" where
  "half_ips (Occupying uid ip) = [ip]"
| "half_ips (Growing uid) = []"
| "half_ips (Returning ip) = [ip]"

fun growing :: "half \<Rightarrow> bool" where
  "growing (Growing uid) = True"
| "growing _ = False"

record pool_state =
  rows :: tables
  keys :: keyspace
  halves :: "half list"

text \<open>
  \<open>m\<close> is the number of usable hosts. With \<open>lone\<close>, a request that found the stack empty runs while nothing else is in
  flight.
\<close>

inductive pool_step :: "int \<Rightarrow> bool \<Rightarrow> pool_state \<Rightarrow> pool_state \<Rightarrow> bool" for m lone where
  pop: "PopFreeIp LXC_IP (keys s, as) = (Ok ip, d) \<Longrightarrow> list_all honest_answer as \<Longrightarrow>
    lone \<longrightarrow> list_all (\<lambda>f. \<not> growing f) (halves s) \<Longrightarrow>
    pool_step m lone s (s\<lparr>keys := fst d, halves := Occupying uid ip # halves s\<rparr>)"
| pop_empty: "PopFreeIp LXC_IP (keys s, as) = (Er e, d) \<Longrightarrow> list_all honest_answer as \<Longrightarrow>
    error_text e = EMPTY_IP_STACK \<Longrightarrow> lone \<longrightarrow> halves s = [] \<Longrightarrow>
    pool_step m lone s (s\<lparr>keys := fst d, halves := Growing uid # halves s\<rparr>)"
| pop_fails: "PopFreeIp LXC_IP (keys s, as) = (Er e, d) \<Longrightarrow> list_all honest_answer as \<Longrightarrow>
    error_text e \<noteq> EMPTY_IP_STACK \<Longrightarrow> pool_step m lone s (s\<lparr>keys := fst d\<rparr>)"
| occupy: "Occupying uid ip \<in> set (halves s) \<Longrightarrow> AddIP uid ip (rows s, as) = (r, d) \<Longrightarrow>
    pool_step m lone s (s\<lparr>rows := fst d, halves := remove1 (Occupying uid ip) (halves s)\<rparr>)"
| grow: "Growing uid \<in> set (halves s) \<Longrightarrow> AllocateNextFreeIP_lxc m uid (rows s, as) = (r, d) \<Longrightarrow>
    pool_step m lone s (s\<lparr>rows := fst d, halves := remove1 (Growing uid) (halves s)\<rparr>)"
| vacate: "RemoveIP uid (rows s, as) = (Ok ip, d) \<Longrightarrow> lone \<longrightarrow> list_all (\<lambda>f. \<not> growing f) (halves s) \<Longrightarrow>
    pool_step m lone s (s\<lparr>rows := fst d, halves := Returning ip # halves s\<rparr>)"
| vacate_fails: "RemoveIP uid (rows s, as) = (Er e, d) \<Longrightarrow> pool_step m lone s (s\<lparr>rows := fst d\<rparr>)"
| push: "Returning ip \<in> set (halves s) \<Longrightarrow> PushFreeIp ip LXC_IP (keys s, as) = (r, d) \<Longrightarrow>
    list_all honest_answer as \<Longrightarrow>
    pool_step m lone s (s\<lparr>keys := fst d, halves := remove1 (Returning ip) (halves s)\<rparr>)"

section \<open>Where numbers are\<close>

definition in_transit :: "half list \<Rightarrow> int list" where
  "in_transit fs = concat (map half_ips fs)"

definition numbers :: "pool_state \<Rightarrow> int multiset" where
  "numbers s = mset (free_ips LXC_IP (keys s, [])) + mset (ip_column (rows s)) + mset (in_transit (halves s))"

lemma in_transit_Cons [simp]: "in_transit [] = []" "in_transit (f # fs) = half_ips f @ in_transit fs"
  by (simp_all add: in_transit_def)

lemma in_transit_remove1:
  "f \<in> set fs \<Longrightarrow> mset (in_transit fs) = mset (half_ips f) + mset (in_transit (remove1 f fs))"
  by (induction fs) auto

definition stack_fine :: "pool_state \<Rightarrow> bool" where
  "stack_fine s \<longleftrightarrow> stack_ok LXC_IP (keys s, [])"

lemma pop_numbers:
  assumes "stack_ok LXC_IP (ks, [])" and "list_all honest_answer as" and "PopFreeIp LXC_IP (ks, as) = (r, d)"
  shows "stack_ok LXC_IP (fst d, [])"
    and "r = Ok ip \<Longrightarrow> free_ips LXC_IP (ks, []) = ip # free_ips LXC_IP (fst d, [])"
    and "r = Er e \<Longrightarrow> mset (free_ips LXC_IP (fst d, [])) \<subseteq># mset (free_ips LXC_IP (ks, []))"
    and "r = Er e \<Longrightarrow> error_text e = EMPTY_IP_STACK \<Longrightarrow> free_ips LXC_IP (ks, []) = []"
proof -
  obtain ks' as' where d: "d = (ks', as')" by (cases d)
  have ok: "stack_ok LXC_IP (ks, as)" using stack_ok_script [OF assms(1,2)] .
  note p = pop_cases [OF ok assms(3) [unfolded d]]
  show "stack_ok LXC_IP (fst d, [])" using p d stack_ok_script [of LXC_IP ks' as' "[]"] by simp
  have f: "free_ips LXC_IP (k, a) = free_ips LXC_IP (k, [])" for k a by (rule free_ips_script)
  show "r = Ok ip \<Longrightarrow> free_ips LXC_IP (ks, []) = ip # free_ips LXC_IP (fst d, [])"
    using p d f [of ks as] f [of ks' as'] by auto
  show "r = Er e \<Longrightarrow> mset (free_ips LXC_IP (fst d, [])) \<subseteq># mset (free_ips LXC_IP (ks, []))"
    using p d f [of ks as] f [of ks' as'] by (auto simp: mset_append)
  show "r = Er e \<Longrightarrow> error_text e = EMPTY_IP_STACK \<Longrightarrow> free_ips LXC_IP (ks, []) = []"
    using p f [of ks as] by auto
qed

lemma push_numbers:
  assumes "stack_ok LXC_IP (ks, [])" and "list_all honest_answer as" and "int64_range ip"
    and "PushFreeIp ip LXC_IP (ks, as) = (r, d)"
  shows "stack_ok LXC_IP (fst d, [])"
    and "mset (free_ips LXC_IP (fst d, [])) \<subseteq># add_mset ip (mset (free_ips LXC_IP (ks, [])))"
proof -
  obtain ks' as' where d: "d = (ks', as')" by (cases d)
  have ok: "stack_ok LXC_IP (ks, as)" using stack_ok_script [OF assms(1,2)] .
  note p = push_cases [OF ok assms(3) assms(4) [unfolded d]]
  show "stack_ok LXC_IP (fst d, [])" using p d stack_ok_script [of LXC_IP ks' as' "[]"] by simp
  show "mset (free_ips LXC_IP (fst d, [])) \<subseteq># add_mset ip (mset (free_ips LXC_IP (ks, [])))"
    using p d free_ips_script [of LXC_IP ks as "[]"] free_ips_script [of LXC_IP ks' as' "[]"] by auto
qed

lemma occupy_numbers:
  assumes "AddIP uid ip (t, as) = (r, d)"
  shows "mset (ip_column (fst d)) \<subseteq># add_mset ip (mset (ip_column t))"
  using serve_state [of "sql_insert_userip uid ip" "(t, as)"] assms
  by (auto simp: AddIP_def sql_insert_userip_def ip_column_def split: if_splits)

lemma vacate_numbers:
  assumes "RemoveIP uid (t, as) = (r, d)"
  shows "r = Ok ip \<Longrightarrow> add_mset ip (mset (ip_column (fst d))) \<subseteq># mset (ip_column t)"
    and "mset (ip_column (fst d)) \<subseteq># mset (ip_column t)"
proof -
  have sub: "mset (map f (filter P xs)) \<subseteq># mset (map f xs)" for f :: "ip_row \<Rightarrow> int" and P xs
    by (induction xs) (auto intro: subset_mset.order_trans)
  obtain q t' as' where s: "serve (sql_delete_userip uid) (t, as) = (q, (t', as'))" by (metis prod.exhaust)
  have d: "fst d = t'" using assms s by (cases q) (auto simp: RemoveIP_def prog_defs split: if_splits)
  have "t' = t \<or> t' = snd (sql_delete_userip uid t)" using serve_state [of "sql_delete_userip uid" "(t, as)"] s by simp
  then show "mset (ip_column (fst d)) \<subseteq># mset (ip_column t)"
    using sub d by (auto simp: sql_delete_userip_def ip_column_def split: list.splits)
  assume r: "r = Ok ip"
  with assms s have "q = Ok ip" by (cases q) (auto simp: RemoveIP_def prog_defs split: if_splits)
  with s have "sql_delete_userip uid t = (Ok ip, t')" by (auto dest!: serve_OkD)
  then obtain x xs where x: "filter (\<lambda>r. ip_user r = uid) (userips t) = x # xs" "ip = ip_addr x"
    "userips t' = filter (\<lambda>r. ip_user r \<noteq> uid) (userips t)"
    by (auto simp: sql_delete_userip_def split: list.splits)
  have "mset (map ip_addr rs) = mset (map ip_addr (filter (\<lambda>r. ip_user r = uid) rs)) +
      mset (map ip_addr (filter (\<lambda>r. ip_user r \<noteq> uid) rs))" for rs
    by (induction rs) auto
  from this [of "userips t"] x d show "add_mset ip (mset (ip_column (fst d))) \<subseteq># mset (ip_column t)"
    by (simp add: ip_column_def)
qed

definition bounded :: "int \<Rightarrow> int multiset \<Rightarrow> bool" where
  "bounded m M \<longleftrightarrow> (\<forall>ip \<in># M. 2 \<le> ip \<and> ip \<le> m)"

lemma bounded_sub: "bounded m M \<Longrightarrow> N \<subseteq># M \<Longrightarrow> bounded m N"
  unfolding bounded_def by (meson mset_subset_eqD)

lemma bounded_range: "bounded m M \<Longrightarrow> m < 2 ^ 63 \<Longrightarrow> ip \<in># M \<Longrightarrow> int64_range ip"
  by (force simp: bounded_def int64_range_def)

lemma grow_bounded:
  assumes "AllocateNextFreeIP_lxc m uid (t, as) = (r, d)" and "2 \<le> m" and "bounded m (mset (ip_column t))"
  shows "bounded m (mset (ip_column (fst d)))"
proof -
  have "keeps (holds (\<lambda>t. bounded m (mset (ip_column t)))) (AllocateNextFreeIP_lxc m uid)"
    unfolding AllocateNextFreeIP_lxc_def
  proof (rule tx_loop_keeps)
    fix t ip t'
    assume b: "bounded m (mset (ip_column t))" and a: "attempt_insert ip_column (sql_insert_userip uid) m t ip t'"
    note c = attempt_ip_column [OF a]
    have "2 \<le> next_ip (ip_column t)" using b by (intro next_ip_ge_2) (simp add: bounded_def)
    moreover have "next_ip (ip_column t) \<le> m" using c assms(2) by (auto simp: next_ip_def)
    ultimately show "bounded m (mset (ip_column t'))" using b c by (simp add: bounded_def)
  qed
  from keeps_run [OF this _ assms(1)] assms(3) show ?thesis by (simp add: holds_def)
qed

text \<open>No step but the transaction makes a number.\<close>

lemma step_numbers:
  assumes "pool_step m lone s s'" and "stack_fine s" and "bounded m (numbers s)" and "m < 2 ^ 63"
  shows "stack_fine s' \<and> (numbers s' \<subseteq># numbers s \<or>
    (\<exists>uid as r d. Growing uid \<in> set (halves s) \<and> AllocateNextFreeIP_lxc m uid (rows s, as) = (r, d) \<and>
       s' = s\<lparr>rows := fst d, halves := remove1 (Growing uid) (halves s)\<rparr>))"
  using assms
proof (induction rule: pool_step.induct)
  case (pop s as ip d uid)
  from pop_numbers(1,2) [OF _ pop(2,1)] pop(4) show ?case by (simp add: stack_fine_def numbers_def)
next
  case (pop_empty s as e d uid)
  from pop_numbers(1,3) [OF _ pop_empty(2,1)] pop_empty(5) show ?case by (simp add: stack_fine_def numbers_def)
next
  case (pop_fails s as e d)
  from pop_numbers(1,3) [OF _ pop_fails(2,1)] pop_fails(4) show ?case by (simp add: stack_fine_def numbers_def)
next
  case (occupy uid ip s as r d)
  from occupy_numbers [OF occupy(2)] in_transit_remove1 [OF occupy(1)] occupy(3) show ?case
    by (simp add: stack_fine_def numbers_def subset_mset.add_mono)
next
  case (grow uid s as r d)
  then have "stack_fine (s\<lparr>rows := fst d, halves := remove1 (Growing uid) (halves s)\<rparr>)" by (simp add: stack_fine_def)
  with grow(1,2) show ?case by blast
next
  case (vacate uid s as ip d)
  from vacate_numbers(1) [OF vacate(1)] vacate(3) show ?case
    by (simp add: stack_fine_def numbers_def)
next
  case (vacate_fails uid s as e d)
  from vacate_numbers(2) [OF vacate_fails(1)] vacate_fails(2) show ?case
    by (simp add: stack_fine_def numbers_def)
next
  case (push ip s as r d)
  note fl = in_transit_remove1 [OF push(1)]
  have "ip \<in># numbers s" using fl by (simp add: numbers_def)
  with bounded_range push have "int64_range ip" by blast
  note p = push_numbers [OF _ push(3) this push(2)]
  from p push(4) fl show ?case by (simp add: stack_fine_def numbers_def)
qed

section \<open>Bounds\<close>

lemma bounded_step:
  assumes "pool_step m lone s s'" and "stack_fine s \<and> bounded m (numbers s)" and "2 \<le> m" and "m < 2 ^ 63"
  shows "stack_fine s' \<and> bounded m (numbers s')"
proof -
  from assms(2) have ok: "stack_fine s" "bounded m (numbers s)" by simp_all
  from step_numbers [OF assms(1) ok assms(4)] consider "stack_fine s'" "numbers s' \<subseteq># numbers s"
    | uid as r d where "stack_fine s'" "Growing uid \<in> set (halves s)"
        "AllocateNextFreeIP_lxc m uid (rows s, as) = (r, d)"
        "s' = s\<lparr>rows := fst d, halves := remove1 (Growing uid) (halves s)\<rparr>" by blast
  then show ?thesis
  proof cases
    case 1
    with ok bounded_sub show ?thesis by blast
  next
    case 2
    from ok have "bounded m (mset (ip_column (rows s)))" by (auto simp: numbers_def bounded_def)
    from grow_bounded [OF 2(3) assms(3) this] in_transit_remove1 [OF 2(2)] ok(2) 2(1,4) show ?thesis
      by (auto simp: numbers_def bounded_def)
  qed
qed

lemma bounded_reach:
  assumes "(pool_step m lone)\<^sup>*\<^sup>* s s'" and "stack_fine s \<and> bounded m (numbers s)" and "2 \<le> m" and "m < 2 ^ 63"
  shows "stack_fine s' \<and> bounded m (numbers s')"
  using assms(1)
proof (induction rule: rtranclp_induct)
  case base
  show ?case by (rule assms(2))
next
  case (step y z)
  then show ?case using bounded_step assms(3,4) by blast
qed

section \<open>One at a time when the stack is empty\<close>

definition single :: "int multiset \<Rightarrow> bool" where
  "single M \<longleftrightarrow> (\<forall>ip. count M ip \<le> 1)"

lemma single_sub: "single M \<Longrightarrow> N \<subseteq># M \<Longrightarrow> single N"
  unfolding single_def by (meson le_trans mset_subset_eq_count)

lemma single_mset: "single (mset xs) \<longleftrightarrow> distinct xs"
proof
  assume "single (mset xs)"
  then have c: "\<forall>ip. count (mset xs) ip \<le> 1" unfolding single_def .
  have "count (mset xs) a = (if a \<in> set xs then 1 else 0)" for a
  proof (cases "a \<in> set xs")
    case True
    then have "1 \<le> count (mset xs) a" by simp
    with c True show ?thesis by (simp add: le_antisym)
  next
    case False
    then show ?thesis by (simp add: count_mset_0_iff)
  qed
  then show "distinct xs" by (simp add: distinct_count_atmost_1)
next
  show "distinct xs \<Longrightarrow> single (mset xs)" by (simp add: single_def distinct_count_atmost_1)
qed

definition lone_ok :: "int \<Rightarrow> pool_state \<Rightarrow> bool" where
  "lone_ok m s \<longleftrightarrow> stack_fine s \<and> bounded m (numbers s) \<and> single (numbers s) \<and>
     (\<forall>uid. Growing uid \<in> set (halves s) \<longrightarrow> halves s = [Growing uid] \<and> free_ips LXC_IP (keys s, []) = [])"

lemma no_growing: "list_all (\<lambda>f. \<not> growing f) fs \<Longrightarrow> Growing uid \<notin> set fs"
  by (auto simp: list_all_iff)

lemma lone_halves:
  assumes "pool_step m True s s'" and "lone_ok m s" and "Growing uid \<in> set (halves s')"
  shows "halves s' = [Growing uid] \<and> free_ips LXC_IP (keys s', []) = []"
  using assms
proof (induction rule: pool_step.induct)
  case (pop s as ip d v)
  then show ?case using no_growing by fastforce
next
  case (pop_empty s as e d v)
  have st: "stack_ok LXC_IP (keys s, [])" using pop_empty(5) by (simp add: lone_ok_def stack_fine_def)
  note p = pop_numbers(3,4) [OF st pop_empty(2,1)]
  with pop_empty show ?case by auto
next
  case (pop_fails s as e d)
  have st: "stack_ok LXC_IP (keys s, [])" using pop_fails(4) by (simp add: lone_ok_def stack_fine_def)
  note p = pop_numbers(3) [OF st pop_fails(2,1)]
  with pop_fails show ?case by (auto simp: lone_ok_def)
next
  case (occupy v ip s as r d)
  then show ?case by (auto simp: lone_ok_def dest: notin_set_remove1)
next
  case (grow v s as r d)
  then show ?case by (auto simp: lone_ok_def dest: notin_set_remove1)
next
  case (vacate v s as ip d)
  then show ?case using no_growing by fastforce
next
  case (vacate_fails v s as e d)
  then show ?case by (auto simp: lone_ok_def)
next
  case (push ip s as r d)
  then show ?case by (auto simp: lone_ok_def dest: notin_set_remove1)
qed

lemma lone_ok_step:
  assumes "pool_step m True s s'" and "lone_ok m s" and "2 \<le> m" and "m < 2 ^ 63"
  shows "lone_ok m s'"
proof -
  from assms(2) have ok: "stack_fine s" "bounded m (numbers s)" "single (numbers s)"
    by (simp_all add: lone_ok_def)
  have b: "stack_fine s' \<and> bounded m (numbers s')" using bounded_step [OF assms(1) _ assms(3,4)] ok by blast
  from step_numbers [OF assms(1) ok(1,2) assms(4)] consider "numbers s' \<subseteq># numbers s"
    | uid as r d where "Growing uid \<in> set (halves s)" "AllocateNextFreeIP_lxc m uid (rows s, as) = (r, d)"
        "s' = s\<lparr>rows := fst d, halves := remove1 (Growing uid) (halves s)\<rparr>" by blast
  then have "single (numbers s')"
  proof cases
    case 1
    with ok(3) show ?thesis by (rule single_sub)
  next
    case 2
    with assms(2) have fl: "halves s = [Growing uid]" "free_ips LXC_IP (keys s, []) = []" by (simp_all add: lone_ok_def)
    with ok have "pool_col m (ip_column (rows s))"
      by (simp add: numbers_def single_mset bounded_def pool_col_def)
    then have "pool_col m (ip_column (fst d))"
      using keeps_run [OF grow_ip_column [OF assms(3)] _ 2(2)] by (simp add: holds_def)
    with 2(3) fl show ?thesis by (simp add: numbers_def single_mset pool_col_def)
  qed
  with b lone_halves [OF assms(1,2)] show ?thesis by (simp add: lone_ok_def)
qed

lemma lone_ok_reach:
  assumes "(pool_step m True)\<^sup>*\<^sup>* s s'" and "lone_ok m s" and "2 \<le> m" and "m < 2 ^ 63"
  shows "lone_ok m s'"
  using assms(1)
proof (induction rule: rtranclp_induct)
  case base
  show ?case by (rule assms(2))
next
  case (step y z)
  then show ?case using lone_ok_step assms(3,4) by blast
qed

text \<open>C15: calls of the container pool may overlap in any way, and Postgres and Redis may fail in any way: the numbers
  on the stack, in the table and in flight stay between 2 and the bound. They stay pairwise different as well, so
  that no two containers share an address and no free address is in use, provided a request that found the stack
  empty runs with no other half of a call in flight.\<close>

theorem overlapping_allocations:
  assumes "(pool_step m lone)\<^sup>*\<^sup>* \<lparr>rows = t, keys = ks, halves = []\<rparr> s"
    and "stack_ok LXC_IP (ks, [])" and "pool_col m (free_ips LXC_IP (ks, []) @ ip_column t)" and "2 \<le> m" and "m < 2 ^ 63"
  shows "(\<forall>ip \<in> set (free_ips LXC_IP (keys s, []) @ ip_column (rows s) @ in_transit (halves s)). 2 \<le> ip \<and> ip \<le> m) \<and>
    (lone \<longrightarrow> distinct (free_ips LXC_IP (keys s, []) @ ip_column (rows s) @ in_transit (halves s)))"
proof -
  let ?s = "\<lparr>rows = t, keys = ks, halves = []\<rparr>"
  have b: "stack_fine ?s \<and> bounded m (numbers ?s)"
    using assms(2,3) by (auto simp: stack_fine_def numbers_def bounded_def pool_col_def)
  have "bounded m (numbers s)" using bounded_reach [OF assms(1) b assms(4,5)] by simp
  then have "\<forall>ip \<in> set (free_ips LXC_IP (keys s, []) @ ip_column (rows s) @ in_transit (halves s)). 2 \<le> ip \<and> ip \<le> m"
    by (auto simp: numbers_def bounded_def)
  moreover have "distinct (free_ips LXC_IP (keys s, []) @ ip_column (rows s) @ in_transit (halves s))" if lone
  proof -
    have "distinct (free_ips LXC_IP (ks, []) @ ip_column t)" using assms(3) by (simp add: pool_col_def)
    then have "lone_ok m ?s" using b single_mset [of "free_ips LXC_IP (ks, []) @ ip_column t"]
      by (simp add: lone_ok_def numbers_def)
    then have "lone_ok m s" using lone_ok_reach [of m ?s s] assms(1,4,5) that by simp
    then show ?thesis
      using single_mset [of "free_ips LXC_IP (keys s, []) @ ip_column (rows s) @ in_transit (halves s)"]
      by (simp add: lone_ok_def numbers_def add.assoc)
  qed
  ultimately show ?thesis by blast
qed

theorem overlapping_allocations_witness:
  "distinct (ip_column (rows \<lparr>rows = sample_tables\<lparr>userips := [\<lparr>ip_user = 1, ip_addr = 2\<rparr>]\<rparr>, keys = Map.empty, halves = []\<rparr>))"
proof -
  let ?s0 = "\<lparr>rows = sample_tables, keys = Map.empty, halves = []\<rparr>" and ?s1 = "\<lparr>rows = sample_tables, keys = Map.empty, halves = [Growing 1]\<rparr>"
  let ?s2 = "\<lparr>rows = sample_tables\<lparr>userips := [\<lparr>ip_user = 1, ip_addr = 2\<rparr>]\<rparr>, keys = Map.empty, halves = []\<rparr>"
  have "PopFreeIp LXC_IP (Map.empty, []) = (Er (ErrText EMPTY_IP_STACK), (Map.empty, []))"
    by (simp add: PopFreeIp_def r_lpop_def prog_defs)
  then have "pool_step 254 True ?s0 ?s1"
    using pool_step.pop_empty [of ?s0 "[]" "ErrText EMPTY_IP_STACK" "(Map.empty, [])" True 254 1] by simp
  moreover have "AllocateNextFreeIP_lxc 254 1 (sample_tables, []) =
      (Ok 2, (sample_tables\<lparr>userips := [\<lparr>ip_user = 1, ip_addr = 2\<rparr>]\<rparr>, []))" by code_simp
  then have "pool_step 254 True ?s1 ?s2" using pool_step.grow [of 1 ?s1 254 "[]"] by simp
  ultimately have "(pool_step 254 True)\<^sup>*\<^sup>* ?s0 ?s2" by (simp add: converse_rtranclp_into_rtranclp r_into_rtranclp)
  moreover have "stack_ok LXC_IP (Map.empty, [])" "pool_col 254 (free_ips LXC_IP (Map.empty, []) @ ip_column sample_tables)"
    by (simp_all add: stack_ok_def free_ips_def pool_col_def ip_column_def sample_tables_def empty_tables_def)
  ultimately show ?thesis using overlapping_allocations [of 254 True sample_tables Map.empty ?s2] by simp
qed

section \<open>Two at a time\<close>

lemma release_last:
  assumes "userips t = others @ [\<lparr>ip_user = u, ip_addr = n\<rparr>]" and "u \<notin> ip_user ` set others"
  shows "RemoveIP u (t, []) = (Ok n, (t\<lparr>userips := others\<rparr>, []))"
proof -
  have "filter (\<lambda>r. ip_user r = u) others = []" "filter (\<lambda>r. ip_user r \<noteq> u) others = others"
    using assms(2) by (auto simp: filter_empty_conv filter_id_conv)
  then show ?thesis using assms(1) by (simp add: RemoveIP_def sql_delete_userip_def prog_defs)
qed

lemma insert_row:
  assumes "known_user t v" and "v \<notin> ip_user ` set (userips t)"
  shows "sql_insert_userip v n t = (Ok (), t\<lparr>userips := userips t @ [\<lparr>ip_user = v, ip_addr = n\<rparr>]\<rparr>)"
  using assms by (auto simp: sql_insert_userip_def list_ex_iff)

text \<open>C16: without that provision two users can get one container address: while the job that kills the container of a
  user is between deleting the row and pushing the number, the deployment of another user finds the stack empty and
  takes the highest number plus one, which is the number in flight; then the first user deploys again and pops it. At
  the end no call is under way, both rows are committed with the same number, and both containers are configured
  with the same address.\<close>

theorem containers_can_share_address:
  assumes "userips t = others @ [\<lparr>ip_user = u, ip_addr = n\<rparr>]" and "n = next_ip (map ip_addr others)"
    and "u \<notin> ip_user ` set others" and "v \<notin> ip_user ` set others" and "u \<noteq> v" and "known_user t u" and "known_user t v"
    and "2 \<le> n" and "n \<le> m" and "m < 2 ^ 63"
  shows "\<exists>s. (pool_step m False)\<^sup>*\<^sup>* \<lparr>rows = t, keys = Map.empty, halves = []\<rparr> s \<and> halves s = [] \<and>
    {\<lparr>ip_user = u, ip_addr = n\<rparr>, \<lparr>ip_user = v, ip_addr = n\<rparr>} \<subseteq> set (userips (rows s))"
proof -
  define t1 where "t1 = t\<lparr>userips := others\<rparr>"
  define t2 where "t2 = t\<lparr>userips := others @ [\<lparr>ip_user = v, ip_addr = n\<rparr>]\<rparr>"
  define t3 where "t3 = t\<lparr>userips := others @ [\<lparr>ip_user = v, ip_addr = n\<rparr>, \<lparr>ip_user = u, ip_addr = n\<rparr>]\<rparr>"
  define ks where "ks = [LXC_IP \<mapsto> \<lparr>val_of = Items [itoa n], ttl_hours = None\<rparr>]"
  let ?st = "\<lambda>t k fs. \<lparr>rows = t, keys = k, halves = fs\<rparr>" and ?step = "pool_step m False"
  have col: "ip_column t1 = map ip_addr others" by (simp add: t1_def ip_column_def)
  have "RemoveIP u (t, []) = (Ok n, (t1, []))" unfolding t1_def by (rule release_last [OF assms(1,3)])
  then have 1: "?step (?st t Map.empty []) (?st t1 Map.empty [Returning n])"
    using pool_step.vacate [of u "?st t Map.empty []" "[]" n "(t1, [])"] by simp
  have "PopFreeIp LXC_IP (Map.empty, []) = (Er (ErrText EMPTY_IP_STACK), (Map.empty, []))"
    by (simp add: PopFreeIp_def r_lpop_def prog_defs)
  then have 2: "?step (?st t1 Map.empty [Returning n]) (?st t1 Map.empty [Growing v, Returning n])"
    using pool_step.pop_empty [of "?st t1 Map.empty [Returning n]" "[]" "ErrText EMPTY_IP_STACK" "(Map.empty, [])" False m v] by simp
  have "sql_insert_userip v n t1 = (Ok (), t2)"
    using insert_row [of t1 v n] assms(4,7) by (simp add: t1_def t2_def known_user_def)
  moreover have five: "maxRetries = Suc 4" by (simp add: maxRetries_def)
  ultimately have "AllocateNextFreeIP_lxc m v (t1, []) = (Ok n, (t2, []))"
    using tx_loop_served [of ip_column t1 m "sql_insert_userip v" t2 4 0] assms(2,9) five
    unfolding AllocateNextFreeIP_lxc_def col by simp
  then have 3: "?step (?st t1 Map.empty [Growing v, Returning n]) (?st t2 Map.empty [Returning n])"
    using pool_step.grow [of v "?st t1 Map.empty [Growing v, Returning n]" m "[]"] by simp
  have "PushFreeIp n LXC_IP (Map.empty, []) = (Ok (), (ks, []))" by (simp add: PushFreeIp_def r_lpush_def ks_def)
  then have 4: "?step (?st t2 Map.empty [Returning n]) (?st t2 ks [])"
    using pool_step.push [of n "?st t2 Map.empty [Returning n]" "[]"] by simp
  have "int64_range n" using assms(8-10) by (simp add: int64_range_def)
  then have "PopFreeIp LXC_IP (ks, []) = (Ok n, (Map.empty, []))"
    by (simp add: PopFreeIp_def r_lpop_def prog_defs ks_def atoi_itoa)
  then have 5: "?step (?st t2 ks []) (?st t2 Map.empty [Occupying u n])"
    using pool_step.pop [of "?st t2 ks []" "[]" n "(Map.empty, [])" False m u] by simp
  have "sql_insert_userip u n t2 = (Ok (), t3)"
    using insert_row [of t2 u n] assms(3,5,6) by (simp add: t2_def t3_def known_user_def)
  then have "AddIP u n (t2, []) = (Ok (), (t3, []))" by (simp add: AddIP_def)
  then have 6: "?step (?st t2 Map.empty [Occupying u n]) (?st t3 Map.empty [])"
    using pool_step.occupy [of u n "?st t2 Map.empty [Occupying u n]" "[]"] by simp
  have "?step\<^sup>*\<^sup>* (?st t Map.empty []) (?st t3 Map.empty [])"
    using 1 2 3 4 5 6 by (meson converse_rtranclp_into_rtranclp rtranclp.rtrancl_refl)
  then show ?thesis by (intro exI [of _ "?st t3 Map.empty []"]) (simp add: t3_def)
qed

theorem containers_can_share_address_witness:
  "\<exists>s. (pool_step 254 False)\<^sup>*\<^sup>* \<lparr>rows = one_row, keys = Map.empty, halves = []\<rparr> s \<and> halves s = [] \<and>
    {\<lparr>ip_user = 1, ip_addr = 2\<rparr>, \<lparr>ip_user = 2, ip_addr = 2\<rparr>} \<subseteq> set (userips (rows s))"
  by (rule containers_can_share_address [where others = "[]"])
    (simp_all add: one_row_def next_ip_def known_user_def sample_tables_def)

end
