(* ===== verification/World.thy ===== *)
theory World
  imports Stores
begin

text \<open>
  The state a request or a queue message runs in: the two servers, the directory of nginx
  configurations, the session of the request, the mails handed to the mail goroutine, what has been
  told to the broker about the message and the headers of that delivery, the retry counters of the
  worker, the channels waiting in the channel pool (\<^verbatim>\<open>ChannelPool.Pool\<close>, a channel is known by
  a number), and, as a parameter type, the state of the systems the repository does not contain (LXD, Docker, the kernel's
  WireGuard device, the shared Postgres service). A call of such a system is a program over that
  state, given to the definitions that make it.
\<close>

record session =
  is_authorized :: bool
  session_id :: int
  session_name :: string

definition no_session :: session where
  "no_session = \<lparr>is_authorized = False, session_id = 0, session_name = []\<rparr>"

datatype settle = Ack | Nack

text \<open>A header value, by its Go type; the client library never decodes a plain \<open>int\<close>.\<close>

datatype header_value = HInt int | HInt32 int | HInt64 int | HStr string | HOther

type_synonym header_table = "string \<Rightarrow> header_value option"

type_synonym files = "string \<Rightarrow> string option"

record 'x world = stores +
  disk :: "files server"
  session :: "session server"
  mails :: "(string \<times> string) list"
  settled :: "settle list"
  headers :: "header_table option"
  retries :: "string \<Rightarrow> int"
  pool :: "nat list"
  outside :: 'x

type_synonym ('x, 'a) call = "('x, 'a) prog"
type_synonym ('x, 'a) act = "('x world, 'a) prog"

definition on_disk :: "(files server, 'a) prog \<Rightarrow> ('x, 'a) act" where
  "on_disk = zoom disk (\<lambda>d w. w\<lparr>disk := d\<rparr>)"

definition on_session :: "(session server, 'a) prog \<Rightarrow> ('x, 'a) act" where
  "on_session = zoom session (\<lambda>s w. w\<lparr>session := s\<rparr>)"

definition extern :: "('x, 'a) call \<Rightarrow> ('x, 'a) act" where
  "extern = zoom outside (\<lambda>x w. w\<lparr>outside := x\<rparr>)"

definition settle_with :: "settle \<Rightarrow> ('x, unit) act" where
  "settle_with d w = (Ok (), w\<lparr>settled := settled w @ [d]\<rparr>)"

definition get_field :: "('x world \<Rightarrow> 'a) \<Rightarrow> ('x, 'a) act" where
  "get_field f w = (Ok (f w), w)"

definition set_field :: "('x world \<Rightarrow> 'x world) \<Rightarrow> ('x, unit) act" where
  "set_field f w = (Ok (), f w)"

text \<open>A call whose error the code only logs.\<close>

definition logged :: "('s, 'a) prog \<Rightarrow> ('s, unit) prog" where
  "logged m = handle m (\<lambda>e. ret ()) (\<lambda>_. ret ())"

text \<open>\<^verbatim>\<open>fmt.Errorf("...: %w", err)\<close>.\<close>

definition wrap_error :: "string \<Rightarrow> ('s, 'a) prog \<Rightarrow> ('s, 'a) prog" where
  "wrap_error msg m = handle m (\<lambda>e. fail (ErrText (msg @ '': '' @ error_text e))) ret"

lemma on_disk_eq: "on_disk m w = (case m (disk w) of (r, d) \<Rightarrow> (r, w\<lparr>disk := d\<rparr>))"
  by (simp add: on_disk_def zoom_def)

lemma on_session_eq: "on_session m w = (case m (session w) of (r, d) \<Rightarrow> (r, w\<lparr>session := d\<rparr>))"
  by (simp add: on_session_def zoom_def)

lemma extern_eq: "extern m w = (case m (outside w) of (r, d) \<Rightarrow> (r, w\<lparr>outside := d\<rparr>))"
  by (simp add: extern_def zoom_def)

lemma keeps_logged [keeps_intros]: "keeps I m \<Longrightarrow> keeps I (logged m)"
  unfolding logged_def by (intro keeps_intros)

lemma quiet_logged [quiet_intros]: "quiet m \<Longrightarrow> quiet (logged m)"
  unfolding logged_def by (intro quiet_intros)

lemma quiet_on_disk [quiet_intros]: "quiet m \<Longrightarrow> quiet (on_disk m)"
  unfolding on_disk_def by (rule quiet_zoom)

lemma quiet_on_session [quiet_intros]: "quiet m \<Longrightarrow> quiet (on_session m)"
  unfolding on_session_def by (rule quiet_zoom)

lemma quiet_extern [quiet_intros]: "quiet m \<Longrightarrow> quiet (extern m)"
  unfolding extern_def by (rule quiet_zoom)

lemma quiet_settle [quiet_intros]: "quiet (settle_with d)"
  by (simp add: quiet_def settle_with_def)

lemma quiet_fields [quiet_intros]: "quiet (get_field f)" "quiet (set_field g)"
  by (simp_all add: quiet_def get_field_def set_field_def)

lemma same_pg: "pg w = d \<Longrightarrow> w\<lparr>pg := d\<rparr> = w"
  by simp

section \<open>Replies\<close>

text \<open>What a handler leaves in the \<^verbatim>\<open>ResponseWriter\<close>: status and body, or a redirect.\<close>

datatype 'b reply = Status nat string | Redirect string | Body 'b

text \<open>\<^verbatim>\<open>http.Error\<close> ends the message with a newline.\<close>

definition http_error :: "string \<Rightarrow> nat \<Rightarrow> 'b reply" where
  "http_error msg code = Status code (msg @ [CHR 0x0A])"

text \<open>The user of a request is the one of its session.\<close>

definition uid_of_session :: "('x, int) act" where
  "uid_of_session = get_field (\<lambda>w. session_id (fst (session w)))"

lemmas act_eqs = on_pg_eq on_redis_eq on_disk_eq on_session_eq extern_eq get_field_def set_field_def
  settle_with_def logged_def

text \<open>A world whose servers answer, for the concrete runs.\<close>

definition quiet_world :: "tables \<Rightarrow> keyspace \<Rightarrow> unit world" where
  "quiet_world t ks =
     \<lparr>pg = (t, []), redis = (ks, []), disk = (Map.empty, []), session = (no_session, []), mails = [],
      settled = [], headers = Some Map.empty, retries = (\<lambda>_. 0), pool = [], outside = ()\<rparr>"

end
