(* ===== verification/Rate_Limit.thy ===== *)
theory Rate_Limit
  imports World
begin

text \<open>
  \<^verbatim>\<open>cmd/ratelimit.go\<close> and the limiting middleware of \<^verbatim>\<open>cmd/middleware.go\<close>, which the router
  has commented out. The limiter itself belongs to a library: a new one and one call of \<^verbatim>\<open>Allow\<close> are parameters,
  of which \<open>token_bucket\<close> states what is documented. The remote address is what the request carries when it reaches the
  middleware: \<^verbatim>\<open>middleware.RealIP\<close>, of a library and before it in the router, replaces the one of the connection by
  the address a proxy reports. The lemmas show what is limited: each remote address, by itself.
\<close>

section \<open>Limiters and visitors\<close>

text \<open>\<^verbatim>\<open>rate.NewLimiter\<close> takes the time per token (here in nanoseconds) and the size of the bucket.\<close>

record 'l limiters =
  NewLimiter :: "int \<Rightarrow> nat \<Rightarrow> 'l"
  Allow :: "int \<Rightarrow> 'l \<Rightarrow> bool \<times> 'l"

definition rateLimit :: int where
  "rateLimit = 10 * 10 ^ 9"

definition burst :: nat where
  "burst = 5"

text \<open>The map holds pointers, so a call of \<^verbatim>\<open>Allow\<close> changes the limiter in the map.\<close>

type_synonym 'l visitors = "string \<Rightarrow> 'l option"

definition getVisitorLimiter :: "'l limiters \<Rightarrow> string \<Rightarrow> 'l visitors \<Rightarrow> 'l \<times> 'l visitors" where
  "getVisitorLimiter lib ip visitors =
     (case visitors ip of
        None \<Rightarrow> let limiter = NewLimiter lib rateLimit burst in (limiter, visitors(ip \<mapsto> limiter))
      | Some limiter \<Rightarrow> (limiter, visitors))"

definition LoginRateLimitMiddleware ::
  "'l limiters \<Rightarrow> int \<Rightarrow> string \<Rightarrow> ('w, 'b reply) prog \<Rightarrow> ('l visitors \<times> 'w, 'b reply) prog" where
  "LoginRateLimitMiddleware lib now remoteAddr next s =
     (let (limiter, visitors) = getVisitorLimiter lib remoteAddr (fst s);
          (ok, limiter') = Allow lib now limiter;
          visitors' = visitors(remoteAddr \<mapsto> limiter')
      in if \<not> ok then (Ok (http_error ''Too many login attempts. Try again later.'' 429), (visitors', snd s))
         else case next (snd s) of (r, w) \<Rightarrow> (r, (visitors', w)))"

section \<open>Runs of requests\<close>

text \<open>A request is its time and its remote address. The handler behind the middleware notes what reaches it.\<close>

definition note_request :: "int \<times> string \<Rightarrow> ((int \<times> string) list, unit reply) prog" where
  "note_request rq log = (Ok (Body ()), log @ [rq])"

definition limited_request :: "'l limiters \<Rightarrow> int \<times> string \<Rightarrow> 'l visitors \<times> (int \<times> string) list \<Rightarrow>
    'l visitors \<times> (int \<times> string) list" where
  "limited_request lib rq s = snd (LoginRateLimitMiddleware lib (fst rq) (snd rq) (note_request rq) s)"

fun allowed_times :: "'l limiters \<Rightarrow> int list \<Rightarrow> 'l \<Rightarrow> int list" where
  "allowed_times lib [] l = []"
| "allowed_times lib (t # ts) l =
     (case Allow lib t l of (ok, l') \<Rightarrow> (if ok then [t] else []) @ allowed_times lib ts l')"

definition limiter_of :: "'l limiters \<Rightarrow> 'l visitors \<Rightarrow> string \<Rightarrow> 'l" where
  "limiter_of lib visitors ip = (case visitors ip of None \<Rightarrow> NewLimiter lib rateLimit burst | Some l \<Rightarrow> l)"

definition own :: "string \<Rightarrow> (int \<times> string) list \<Rightarrow> int list" where
  "own ip rqs = map fst (filter (\<lambda>rq. snd rq = ip) rqs)"

lemma limited_request_eq:
  "Allow lib t (limiter_of lib visitors ip) = (ok, l') \<Longrightarrow>
   limited_request lib (t, ip) (visitors, log) =
     (visitors(ip \<mapsto> l'), log @ (if ok then [(t, ip)] else []))"
  by (auto simp: limited_request_def LoginRateLimitMiddleware_def getVisitorLimiter_def limiter_of_def
      note_request_def Let_def split: option.splits)

text \<open>What reaches the handler of one address is what its own limiter allows of its own requests.\<close>

lemma own_log:
  "own ip (snd (fold (limited_request lib) rqs (visitors, log))) =
     own ip log @ allowed_times lib (own ip rqs) (limiter_of lib visitors ip)"
proof (induction rqs arbitrary: visitors log)
  case Nil
  show ?case by (simp add: own_def)
next
  case (Cons rq rqs)
  obtain t i where rq: "rq = (t, i)" by (cases rq)
  obtain ok l' where a: "Allow lib t (limiter_of lib visitors i) = (ok, l')" by (cases "Allow lib t (limiter_of lib visitors i)")
  with Cons.IH limited_request_eq [OF a] rq show ?case by (auto simp: own_def limiter_of_def)
qed

section \<open>What is limited\<close>

text \<open>
  The documented behaviour: in any interval a limiter allows no more than its burst and one event per token time; and it
  starts with a full bucket.
\<close>

definition token_bucket :: "'l limiters \<Rightarrow> bool" where
  "token_bucket lib \<longleftrightarrow>
     (\<forall>every b ts since until. 0 < every \<longrightarrow> sorted ts \<longrightarrow> since \<le> until \<longrightarrow>
        every * int (length (filter (\<lambda>t. since \<le> t \<and> t \<le> until) (allowed_times lib ts (NewLimiter lib every b))))
          \<le> every * int b + (until - since)) \<and>
     (\<forall>every b ts. 0 < every \<longrightarrow> length ts \<le> b \<longrightarrow> sorted ts \<longrightarrow> allowed_times lib ts (NewLimiter lib every b) = ts)"

lemma log_of_requests:
  "set (snd (fold (limited_request lib) rqs (visitors, log))) \<subseteq> set log \<union> set rqs"
proof (induction rqs arbitrary: visitors log)
  case (Cons rq rqs)
  obtain v l where s: "limited_request lib rq (visitors, log) = (v, l)" by (metis prod.exhaust)
  obtain ok l' where "Allow lib (fst rq) (limiter_of lib visitors (snd rq)) = (ok, l')" by (metis prod.exhaust)
  from limited_request_eq [OF this, of log] s have "set l \<subseteq> insert rq (set log)" by (auto split: if_splits)
  with Cons.IH [of v l] s show ?case by auto
qed simp

lemma own_sorted: "sorted (map fst rqs) \<Longrightarrow> sorted (own ip rqs)"
  by (induction rqs) (auto simp: own_def)

lemma first_requests:
  assumes "token_bucket lib" and "sorted (own ip rqs)" and "length (own ip rqs) \<le> burst"
  shows "own ip (snd (fold (limited_request lib) rqs (Map.empty, []))) = own ip rqs"
  using assms own_log [of ip lib rqs Map.empty "[]"]
  by (simp add: token_bucket_def limiter_of_def own_def rateLimit_def)

text \<open>C40: behind the middleware each remote address is limited, and by itself. In any stretch of time at most five of its
  requests, and one more per ten seconds, reach the handler; nothing reaches it that was not sent; and an address that
  sends no more than five gets all of them through, whatever the other addresses send.\<close>

theorem rate_limit_per_address:
  assumes "token_bucket lib" and "sorted (map fst rqs)"
  shows "let log = snd (fold (limited_request lib) rqs (Map.empty, []))
    in (\<forall>ip since until. since \<le> until \<longrightarrow>
          int (length (filter (\<lambda>t. since \<le> t \<and> t \<le> until) (own ip log))) * 10 ^ 10 \<le> 5 * 10 ^ 10 + (until - since)) \<and>
       set log \<subseteq> set rqs \<and>
       (\<forall>ip. length (own ip rqs) \<le> 5 \<longrightarrow> own ip log = own ip rqs)"
proof -
  let ?log = "snd (fold (limited_request lib) rqs (Map.empty, []))"
  have "int (length (filter (\<lambda>t. since \<le> t \<and> t \<le> until) (own ip ?log))) * 10 ^ 10 \<le> 5 * 10 ^ 10 + (until - since)"
    if "since \<le> until" for ip since until
  proof -
    have "own ip ?log = allowed_times lib (own ip rqs) (NewLimiter lib rateLimit burst)"
      using own_log [of ip lib rqs Map.empty "[]"] by (simp add: own_def limiter_of_def)
    moreover have "rateLimit * int (length (filter (\<lambda>t. since \<le> t \<and> t \<le> until)
        (allowed_times lib (own ip rqs) (NewLimiter lib rateLimit burst)))) \<le> rateLimit * int burst + (until - since)"
      using assms(1) own_sorted [OF assms(2), of ip] that unfolding token_bucket_def
      by (metis rateLimit_def zero_less_numeral zero_less_power zero_less_mult_iff)
    ultimately show ?thesis by (simp add: rateLimit_def burst_def mult.commute)
  qed
  moreover have "set ?log \<subseteq> set rqs" using log_of_requests [of lib rqs Map.empty "[]"] by simp
  moreover have "own ip ?log = own ip rqs" if "length (own ip rqs) \<le> 5" for ip
    using first_requests [OF assms(1) own_sorted [OF assms(2)]] that by (simp add: burst_def)
  ultimately show ?thesis unfolding Let_def by blast
qed

section \<open>A token bucket\<close>

text \<open>A bucket counted in nanoseconds: a token is worth the time it takes to refill.\<close>

record bucket =
  b_every :: int
  b_cap :: int
  b_level :: int
  b_last :: "int option"

definition level_at :: "int \<Rightarrow> bucket \<Rightarrow> int" where
  "level_at now b = (case b_last b of None \<Rightarrow> b_level b | Some l \<Rightarrow> min (b_cap b) (b_level b + (now - l)))"

definition take_token :: "int \<Rightarrow> bucket \<Rightarrow> bool \<times> bucket" where
  "take_token now b =
     (let v = level_at now b in
      if b_every b \<le> v then (True, b\<lparr>b_level := v - b_every b, b_last := Some now\<rparr>)
      else (False, b\<lparr>b_level := v, b_last := Some now\<rparr>))"

definition buckets :: "bucket limiters" where
  "buckets = \<lparr>NewLimiter = (\<lambda>every b. \<lparr>b_every = every, b_cap = every * int b, b_level = every * int b, b_last = None\<rparr>),
     Allow = take_token\<rparr>"

abbreviation within :: "int \<Rightarrow> int \<Rightarrow> int list \<Rightarrow> int" where
  "within since until ts \<equiv> int (length (filter (\<lambda>t. since \<le> t \<and> t \<le> until) ts))"

lemma allowed_sub: "set (allowed_times lib ts l) \<subseteq> set ts"
  by (induction ts arbitrary: l) (auto split: prod.split)

lemma within_late: "\<forall>t \<in> set ts. until < t \<Longrightarrow> within since until (allowed_times lib ts l) = 0"
  using allowed_sub [of lib ts l] by (fastforce simp: filter_empty_conv)

lemma bucket_within:
  assumes "0 < every" and "since \<le> until"
  shows "sorted (l # ts) \<Longrightarrow> 0 \<le> v \<Longrightarrow> v \<le> cap \<Longrightarrow>
    every * within since until (allowed_times buckets ts \<lparr>b_every = every, b_cap = cap, b_level = v, b_last = Some l\<rparr>)
      \<le> (if since \<le> l then v + max 0 (until - l) else cap + (until - since))"
proof (induction ts arbitrary: l v)
  case Nil
  then show ?case using assms(2) by auto
next
  case (Cons t ts)
  let ?b = "\<lparr>b_every = every, b_cap = cap, b_level = v, b_last = Some l\<rparr>"
  define v1 where "v1 = min cap (v + (t - l))"
  define v2 where "v2 = (if every \<le> v1 then v1 - every else v1)"
  let ?b2 = "\<lparr>b_every = every, b_cap = cap, b_level = v2, b_last = Some t\<rparr>"
  have order: "l \<le> t" "sorted (t # ts)" using Cons.prems(1) by auto
  have run: "allowed_times buckets (t # ts) ?b = (if every \<le> v1 then [t] else []) @ allowed_times buckets ts ?b2"
    by (simp add: buckets_def take_token_def level_at_def v1_def v2_def Let_def)
  have v: "0 \<le> v1" "v1 \<le> cap" "v1 \<le> v + (t - l)" "0 \<le> v2" "v2 \<le> cap"
    using Cons.prems(2,3) order(1) assms(1) by (auto simp: v1_def v2_def)
  note IH = Cons.IH [OF order(2) v(4,5)]
  show ?case
  proof (cases "until < t")
    case True
    then have "within since until (allowed_times buckets (t # ts) ?b) = 0"
      using order(2) by (intro within_late) auto
    with Cons.prems(2,3) assms(2) show ?thesis by auto
  next
    case False
    show ?thesis
    proof (cases "since \<le> t")
      case True
      have "every * within since until (allowed_times buckets (t # ts) ?b) \<le> v1 + (until - t)"
        using IH run True False assms(1) by (auto simp: v2_def algebra_simps split: if_splits)
      then show ?thesis using v True False order(1) by auto
    next
      case False
      then have "within since until (allowed_times buckets (t # ts) ?b) = within since until (allowed_times buckets ts ?b2)"
        using run by simp
      with IH False order(1) show ?thesis by auto
    qed
  qed
qed

text \<open>A new bucket behaves as a full one last looked at just now.\<close>

lemma new_bucket:
  assumes "0 < every"
  shows "allowed_times buckets (t # ts) (NewLimiter buckets every b) =
    allowed_times buckets (t # ts) \<lparr>b_every = every, b_cap = every * int b, b_level = every * int b, b_last = Some t\<rparr>"
  by (simp add: buckets_def take_token_def level_at_def Let_def)

lemma full_bucket:
  assumes "0 < every"
  shows "sorted (l # ts) \<Longrightarrow> every * int (length ts) \<le> v \<Longrightarrow> v \<le> cap \<Longrightarrow>
    allowed_times buckets ts \<lparr>b_every = every, b_cap = cap, b_level = v, b_last = Some l\<rparr> = ts"
proof (induction ts arbitrary: l v)
  case (Cons t ts)
  define v1 where "v1 = min cap (v + (t - l))"
  have v1: "every * int (length (t # ts)) \<le> v1" "v1 \<le> cap" using Cons.prems by (auto simp: v1_def)
  have "every \<le> every * int (length (t # ts))" using assms by (simp add: algebra_simps)
  then have "every \<le> v1" using v1(1) by linarith
  moreover have "allowed_times buckets ts \<lparr>b_every = every, b_cap = cap, b_level = v1 - every, b_last = Some t\<rparr> = ts"
    using Cons.prems(1) v1 assms by (intro Cons.IH) (auto simp: algebra_simps)
  ultimately show ?case by (simp add: buckets_def take_token_def level_at_def v1_def [symmetric] Let_def)
qed simp

lemma buckets_token_bucket: "token_bucket buckets"
  unfolding token_bucket_def
proof (intro conjI allI impI)
  fix every since until :: int and b and ts :: "int list"
  assume h: "0 < every" "sorted ts" "since \<le> until"
  show "every * within since until (allowed_times buckets ts (NewLimiter buckets every b)) \<le> every * int b + (until - since)"
  proof (cases ts)
    case Nil
    with h show ?thesis by simp
  next
    case (Cons t us)
    with h(2) have "sorted (t # t # us)" by simp
    from bucket_within [OF h(1,3) this, of "every * int b" "every * int b"] h(1,3) new_bucket [OF h(1), of t us b] Cons
    show ?thesis by (auto split: if_splits)
  qed
next
  fix every :: int and b and ts :: "int list"
  assume h: "0 < every" "length ts \<le> b" "sorted ts"
  show "allowed_times buckets ts (NewLimiter buckets every b) = ts"
  proof (cases ts)
    case (Cons t us)
    with h(3) have "sorted (t # t # us)" by simp
    moreover have "every * int (length (t # us)) \<le> every * int b" using h Cons by simp
    ultimately have "allowed_times buckets (t # us) \<lparr>b_every = every, b_cap = every * int b, b_level = every * int b,
        b_last = Some t\<rparr> = t # us"
      by (rule full_bucket [OF h(1)]) simp
    with new_bucket [OF h(1), of t us b] Cons show ?thesis by metis
  qed simp
qed

definition login_attempts :: "(int \<times> string) list" where
  "login_attempts = [(0, ''10.0.0.9''), (1, ''10.0.0.9''), (2, ''10.0.0.9''), (3, ''10.0.0.9''),
     (4, ''10.0.0.9''), (5, ''10.0.0.9''), (6, ''10.0.0.7''), (7, ''10.0.0.9'')]"

theorem rate_limit_per_address_witness:
  "let log = snd (fold (limited_request buckets) login_attempts (Map.empty, []))
   in length (filter (\<lambda>t. 0 \<le> t \<and> t \<le> 7) (own ''10.0.0.9'' log)) \<le> 5 \<and> own ''10.0.0.7'' log = [6]"
proof -
  let ?log = "snd (fold (limited_request buckets) login_attempts (Map.empty, []))"
  have "sorted (map fst login_attempts)" by (simp add: login_attempts_def)
  note limited = rate_limit_per_address [OF buckets_token_bucket this, unfolded Let_def]
  have "own ''10.0.0.7'' ?log = own ''10.0.0.7'' login_attempts"
    using limited by (simp add: own_def login_attempts_def)
  then have "own ''10.0.0.7'' ?log = [6]" by (simp add: own_def login_attempts_def)
  moreover have "int (length (filter (\<lambda>t. 0 \<le> t \<and> t \<le> 7) (own ''10.0.0.9'' ?log))) * 10 ^ 10 \<le> 5 * 10 ^ 10 + (7 - 0)"
    using limited by (meson zero_le_numeral)
  then have "length (filter (\<lambda>t. 0 \<le> t \<and> t \<le> 7) (own ''10.0.0.9'' ?log)) \<le> 5" by simp
  ultimately show ?thesis unfolding Let_def by simp
qed

end
