(* ===== verification/Nginx_Conf.thy ===== *)
theory Nginx_Conf
  imports World Domain_Store Ip_Allocator
begin

text \<open>
  \<^verbatim>\<open>internal/nginx/add_template.go\<close>, \<^verbatim>\<open>internal/docker/docker.go\<close> and
  \<^verbatim>\<open>cmd/domain_handler.go\<close>: the configuration file of a published name, the reload of the
  proxy, and the two handlers that publish and withdraw a user's name. The lemmas show what a name can
  put into a configuration and which files the handlers touch.
\<close>

section \<open>Rendering\<close>

text \<open>
  \<^verbatim>\<open>html/template\<close> inserts a value into text with seven bytes replaced; everything else,
  line breaks, semicolons and braces included, passes unchanged.
\<close>

definition escape_char :: "char \<Rightarrow> string" where
  "escape_char c =
     (if c = CHR 0x22 then ''&#34;''
      else if c = CHR ''&'' then ''&amp;''
      else if c = CHR 0x27 then ''&#39;''
      else if c = CHR ''+'' then ''&#43;''
      else if c = CHR ''<'' then ''&lt;''
      else if c = CHR ''>'' then ''&gt;''
      else if c = CHR 0x00 then [CHR 0xEF, CHR 0xBF, CHR 0xBD]
      else [c])"

definition html_escape :: "string \<Rightarrow> string" where
  "html_escape s = concat (map escape_char s)"

definition lines :: "string list \<Rightarrow> string" where
  "lines ls = concat (map (\<lambda>l. l @ [CHR 0x0A]) ls)"

record Template =
  T_Domain :: string
  T_IP :: string
  T_Port :: string

definition nginxTemplate :: "Template \<Rightarrow> string" where
  \<open>nginxTemplate t =
     (let domain = html_escape (T_Domain t); ip = html_escape (T_IP t); port = html_escape (T_Port t)
      in lines
        ['''',
         ''server {'',
         ''    listen 80;'',
         ''    server_name '' @ domain @ ''.kwscloud.in;'',
         ''    return 301 https://$host$request_uri;'',
         ''}'',
         '''',
         ''server {'',
         ''    listen 443 ssl;'',
         ''    server_name '' @ domain @ ''.kwscloud.in;'',
         '''',
         ''    ssl_certificate     /etc/letsencrypt/live/kwscloud.in-0001/fullchain.pem;'',
         ''    ssl_certificate_key /etc/letsencrypt/live/kwscloud.in-0001/privkey.pem;'',
         '''',
         ''    ssl_protocols TLSv1.2 TLSv1.3;'',
         ''    ssl_ciphers HIGH:!aNULL:!MD5;'',
         '''',
         ''    location / {'',
         ''        proxy_pass http://'' @ ip @ '':'' @ port @ '';'',
         ''        proxy_http_version 1.1;'',
         ''        proxy_set_header Upgrade $http_upgrade;'',
         ''        proxy_set_header Connection "upgrade";'',
         '''',
         ''        proxy_set_header Host $host;'',
         ''        proxy_set_header X-Real-IP $remote_addr;'',
         ''        proxy_set_header X-Forwarded-For $proxy_add_x_forwarded_for;'',
         '''',
         ''        proxy_buffering off;'',
         ''    }'',
         ''}''])\<close>

definition domainTemplate :: "Template \<Rightarrow> string" where
  \<open>domainTemplate t =
     (let domain = html_escape (T_Domain t)
      in lines
        ['''',
         ''server {'',
         ''    listen 80;'',
         ''    server_name '' @ domain @ '';'',
         ''    return 301 https://$host$request_uri;'',
         ''}'',
         '''',
         ''server {'',
         ''    listen 443 ssl;'',
         ''    server_name '' @ domain @ '';'',
         '''',
         ''    ssl_certificate     /etc/letsencrypt/live/'' @ domain @ ''/fullchain.pem;'',
         ''    ssl_certificate_key /etc/letsencrypt/live/'' @ domain @ ''/privkey.pem;'',
         '''',
         ''    ssl_protocols TLSv1.2 TLSv1.3;'',
         ''    ssl_ciphers HIGH:!aNULL:!MD5;'',
         '''',
         ''    location / {'',
         ''        proxy_pass http://127.0.0.1:8081;'',
         ''        proxy_http_version 1.1;'',
         ''        proxy_set_header Upgrade $http_upgrade;'',
         ''        proxy_set_header Connection "upgrade";'',
         '''',
         ''        # preserve client Host header'',
         ''        proxy_set_header Host $http_host;'',
         '''',
         ''        proxy_set_header X-Real-IP $remote_addr;'',
         ''        proxy_set_header X-Forwarded-For $proxy_add_x_forwarded_for;'',
         '''',
         ''        proxy_buffering off;'',
         ''    }'',
         ''}''])\<close>

section \<open>The files\<close>

definition conf_path :: "string \<Rightarrow> string" where
  "conf_path domain = ''/app/nginx_conf/'' @ domain @ ''.conf''"

definition os_write :: "string \<Rightarrow> string \<Rightarrow> files \<Rightarrow> unit res \<times> files" where
  "os_write path text d = (Ok (), d(path \<mapsto> text))"

definition not_exist :: go_error where
  "not_exist = ErrText ''no such file or directory''"

definition os_remove :: "string \<Rightarrow> files \<Rightarrow> unit res \<times> files" where
  "os_remove path d = (case d path of None \<Rightarrow> (Er not_exist, d) | Some _ \<Rightarrow> (Ok (), d(path := None)))"

text \<open>
  \<^verbatim>\<open>os.Create\<close> truncates the file; the text arrives with \<^verbatim>\<open>Execute\<close>. An
  unknown template type is the empty template.
\<close>

definition AddNewConf :: "Template \<Rightarrow> string \<Rightarrow> (files server, unit) prog" where
  "AddNewConf t templateType =
     (let finalTemplate = (if templateType = INSTANCE_TEMPLATE then nginxTemplate t
                           else if templateType = DOMAIN_TEMPLATE then domainTemplate t else []);
          filePath = conf_path (T_Domain t)
      in tri (serve (os_write filePath [])) (\<lambda>_. serve (os_write filePath finalTemplate)))"

definition RemoveConf :: "Template \<Rightarrow> (files server, unit) prog" where
  "RemoveConf t =
     handle (serve (os_remove (conf_path (T_Domain t))))
       (\<lambda>e. if e = not_exist then ret () else fail e)
       ret"

definition domain_only :: "string \<Rightarrow> Template" where
  "domain_only d = \<lparr>T_Domain = d, T_IP = [], T_Port = []\<rparr>"

section \<open>Reloading the proxy\<close>

text \<open>
  The Docker daemon is outside: creating the exec, attaching to it and copying its output. The exit
  status of the command is not asked for.
\<close>

record 'x docker =
  ContainerExecCreate :: "string \<Rightarrow> string list \<Rightarrow> ('x, string) call"
  ContainerExecAttach :: "string \<Rightarrow> ('x, unit) call"
  copy_output :: "('x, unit) call"

definition ExecAndPrint :: "'x docker \<Rightarrow> string \<Rightarrow> string list \<Rightarrow> ('x, unit) act" where
  "ExecAndPrint dk containerID cmd =
     handle (extern (ContainerExecCreate dk containerID cmd))
       (\<lambda>e. fail (ErrText (''exec create failed: '' @ error_text e)))
       (\<lambda>execID. handle (extern (ContainerExecAttach dk execID))
          (\<lambda>e. fail (ErrText (''exec attach failed: '' @ error_text e)))
          (\<lambda>_. extern (copy_output dk)))"

text \<open>\<^verbatim>\<open>log.Fatalf\<close> ends the process, so no caller ever sees an error.\<close>

definition ReloadNginxConf :: "'x docker \<Rightarrow> string \<Rightarrow> ('x, unit) act" where
  "ReloadNginxConf dk containerID =
     handle (ExecAndPrint dk containerID [''nginx'', ''-s'', ''reload''])
       (\<lambda>e. crash (''Failed to reload Nginx: '' @ error_text e))
       ret"

section \<open>The handlers\<close>

record DomainResponse =
  Dr_Domain :: string
  Dr_Port :: string
  Dr_Status :: string

definition went_wrong :: "go_error \<Rightarrow> ('x, 'b reply) act" where
  "went_wrong e = ret (http_error ''Something went wrong'' 500)"

text \<open>The form is taken as parsed; the name is not looked at before it is stored and written.\<close>

definition AddUserDomain ::
  "'x docker \<Rightarrow> string \<Rightarrow> string \<Rightarrow> ('x, DomainResponse reply) act" where
  "AddUserDomain dk domain portStr =
     (case atoi portStr of
        None \<Rightarrow> ret (http_error ''Invalid port number'' 400)
      | Some port \<Rightarrow>
          tri uid_of_session
            (\<lambda>uid. handle (on_pg (AddUserDomain_store \<lparr>Dom_Uid = uid, Dom_Name = domain, Dom_Port = port\<rparr>)) went_wrong
               (\<lambda>_. handle (on_pg (GetIPFromUID uid)) went_wrong
                  (\<lambda>ipInt. handle (on_disk (AddNewConf \<lparr>T_Domain = domain, T_IP = GenerateIPLXC ipInt, T_Port = portStr\<rparr>
                               INSTANCE_TEMPLATE)) went_wrong
                     (\<lambda>_. handle (ReloadNginxConf dk NGINX_CONTAINER) went_wrong
                        (\<lambda>_. ret (Body \<lparr>Dr_Domain = domain, Dr_Port = portStr, Dr_Status = ''Active''\<rparr>)))))))"

definition RemoveUserDomain :: "'x docker \<Rightarrow> string \<Rightarrow> ('x, unit reply) act" where
  "RemoveUserDomain dk domain =
     tri uid_of_session
       (\<lambda>uid. handle (on_pg (RemoveDomain \<lparr>Dom_Uid = uid, Dom_Name = domain, Dom_Port = 0\<rparr>)) went_wrong
          (\<lambda>_. handle (on_disk (RemoveConf (domain_only domain))) went_wrong
             (\<lambda>_. handle (ReloadNginxConf dk NGINX_CONTAINER) went_wrong
                (\<lambda>_. ret (Status 200 [])))))"

section \<open>What a name can do\<close>

definition special :: "char \<Rightarrow> bool" where
  "special c \<longleftrightarrow> c \<in> {CHR 0x22, CHR ''&'', CHR 0x27, CHR ''+'', CHR ''<'', CHR ''>'', CHR 0x00}"

lemma html_escape_plain: "list_all (\<lambda>c. \<not> special c) s \<Longrightarrow> html_escape s = s"
  by (induction s) (auto simp: html_escape_def escape_char_def special_def)

lemma starts_with_append [simp]: "starts_with p (p @ s)"
  by (induction p) auto

lemma contains_infix: "contains (xs @ ys @ zs) ys"
proof (induction xs)
  case Nil
  have "starts_with ys (ys @ zs)" by simp
  then show ?case by (cases "ys @ zs") simp_all
qed simp

lemma contains_embedded: "s = a @ b @ c \<Longrightarrow> contains s b"
  using contains_infix by blast

lemma lines_Cons: "lines (l # ls) = l @ [CHR 0x0A] @ lines ls" "lines [] = []"
  by (simp_all add: lines_def)

text \<open>The name in the rendered file, with the text before it.\<close>

lemma nginxTemplate_domain: "\<exists>pre post. nginxTemplate t = pre @ html_escape (T_Domain t) @ post"
proof -
  have "\<exists>post. nginxTemplate t =
      (lines [[], ''server {'', ''    listen 80;''] @ ''    server_name '') @ html_escape (T_Domain t) @ post"
    unfolding nginxTemplate_def Let_def by (simp add: lines_Cons)
  then show ?thesis by blast
qed

lemma conf_path_inject [simp]: "conf_path a = conf_path b \<longleftrightarrow> a = b"
  by (simp add: conf_path_def)

text \<open>C29: a published name is not confined to its place in the configuration: if it contains none of the
  seven bytes that HTML escaping replaces, it stands in the file as it was sent, line breaks, semicolons
  and braces included, so it can close the server block and add directives of its own. (The write has to succeed: the
  name is also the file's, so one with a slash can be refused. The name below has none.)\<close>

theorem domain_text_is_verbatim:
  assumes "list_all (\<lambda>c. \<not> special c) (T_Domain t)"
    and "AddNewConf t INSTANCE_TEMPLATE (d, []) = (Ok (), (d', as))"
  shows "\<exists>text. d' (conf_path (T_Domain t)) = Some text \<and> contains text (T_Domain t)"
proof -
  have "d' = d(conf_path (T_Domain t) \<mapsto> nginxTemplate t)"
    using assms(2) by (simp add: AddNewConf_def prog_defs os_write_def Let_def)
  moreover obtain pre post where "nginxTemplate t = pre @ T_Domain t @ post"
    using nginxTemplate_domain [of t] html_escape_plain [OF assms(1)] by auto
  then have "contains (nginxTemplate t) (T_Domain t)" by (rule contains_embedded)
  ultimately show ?thesis by simp
qed

definition breakout :: string where
  "breakout = ''x; } server { listen 8080; autoindex on; #''"

theorem domain_text_is_verbatim_witness:
  "\<exists>text. fst (snd (AddNewConf (domain_only breakout) INSTANCE_TEMPLATE (Map.empty, []))) (conf_path breakout) = Some text \<and>
     contains text ''x; } server { listen 8080; autoindex on; #''"
proof -
  let ?t = "domain_only breakout"
  obtain d as where r: "AddNewConf ?t INSTANCE_TEMPLATE (Map.empty, []) = (Ok (), (d, as))"
    by (simp add: AddNewConf_def prog_defs os_write_def Let_def)
  have "list_all (\<lambda>c. \<not> special c) (T_Domain ?t)"
    by (simp add: domain_only_def breakout_def special_def)
  from domain_text_is_verbatim [OF this r] r show ?thesis by (auto simp: domain_only_def breakout_def)
qed

lemma RemoveConf_state:
  "RemoveConf t (d, as) = (r, (d', as')) \<Longrightarrow> d' = d \<or> d' = d(conf_path (T_Domain t) := None)"
  using serve_state [of "os_remove (conf_path (T_Domain t))" "(d, as)"]
  by (auto simp: RemoveConf_def prog_defs os_remove_def split: prod.splits res.splits if_splits option.splits)

lemma AddNewConf_state:
  "AddNewConf t ty (d, as) = (r, (d', as')) \<Longrightarrow> path \<noteq> conf_path (T_Domain t) \<Longrightarrow> d' path = d path"
proof -
  assume a: "AddNewConf t ty (d, as) = (r, (d', as'))" and p: "path \<noteq> conf_path (T_Domain t)"
  have w: "keeps (\<lambda>s. fst s path = d path) (serve (os_write (conf_path (T_Domain t)) x))" for x
  proof (rule keepsI)
    fix s :: "files server" assume "fst s path = d path"
    then show "fst (snd (serve (os_write (conf_path (T_Domain t)) x) s)) path = d path"
      using serve_state [of "os_write (conf_path (T_Domain t)) x" s] p by (auto simp: os_write_def)
  qed
  have "keeps (\<lambda>s. fst s path = d path) (AddNewConf t ty)"
    unfolding AddNewConf_def Let_def by (intro keeps_intros w)
  from keeps_run [OF this _ a] show ?thesis by simp
qed

lemma Reload_frame:
  "ReloadNginxConf dk c v = (r, v') \<Longrightarrow> \<exists>x. v' = v\<lparr>outside := x\<rparr>"
  by (auto simp: ReloadNginxConf_def ExecAndPrint_def act_eqs prog_defs split: prod.splits res.splits)

text \<open>C30: a user withdraws a name with \<open>RemoveUserDomain\<close>; the row is deleted only if it is his, but the
  configuration is removed whoever owns the name: any signed-in user takes any published site (or code
  server) off the proxy, while its row stays.\<close>

theorem RemoveUserDomain_any_owner:
  assumes "pg w = (t, [])" and "disk w = (d, [])" and "session_id (fst (session w)) = uid"
    and "RemoveUserDomain dk name w = (r, w')"
  shows "fst (disk w') (conf_path name) = None \<and>
    set (domains (fst (pg w'))) = {row \<in> set (domains t). \<not> (d_name row = name \<and> d_user row = uid)}"
proof -
  define w1 where "w1 = w\<lparr>pg := (snd (sql_delete_domain uid name t), []), disk := (d(conf_path name := None), [])\<rparr>"
  obtain x w2 where e: "ReloadNginxConf dk NGINX_CONTAINER w1 = (x, w2)" by (metis prod.exhaust)
  have rc: "RemoveConf (domain_only name) (d, []) = (Ok (), (d(conf_path name := None), []))"
    by (cases "d (conf_path name)") (simp_all add: prog_defs RemoveConf_def os_remove_def domain_only_def fun_upd_idem)
  have "w' = w2"
    using assms e by (cases x) (auto simp: RemoveUserDomain_def uid_of_session_def act_eqs prog_defs RemoveDomain_def
        rc sql_delete_domain_def went_wrong_def w1_def)
  with Reload_frame [OF e] show ?thesis by (auto simp: w1_def sql_delete_domain_def)
qed

definition idle_docker :: "'x docker" where
  "idle_docker = \<lparr>ContainerExecCreate = (\<lambda>c cmd. ret ''exec''), ContainerExecAttach = (\<lambda>i. ret ()), copy_output = ret ()\<rparr>"

definition published :: "unit world" where
  "published = (quiet_world (empty_tables\<lparr>domains := [\<lparr>d_user = 1, d_name = ''shop'', d_port = 80, d_code = False\<rparr>]\<rparr>) Map.empty)
     \<lparr>disk := ([conf_path ''shop'' \<mapsto> ''server''], []), session := (\<lparr>is_authorized = True, session_id = 2, session_name = ''bob''\<rparr>, [])\<rparr>"

theorem RemoveUserDomain_any_owner_witness:
  "let w' = snd (RemoveUserDomain idle_docker ''shop'' published)
   in fst (disk w') (conf_path ''shop'') = None \<and> map d_name (domains (fst (pg w'))) = [''shop'']"
proof -
  let ?w' = "snd (RemoveUserDomain idle_docker ''shop'' published)"
  obtain r where r: "RemoveUserDomain idle_docker ''shop'' published = (r, ?w')" by (metis prod.collapse)
  have "fst (disk ?w') (conf_path ''shop'') = None"
    using RemoveUserDomain_any_owner [OF _ _ _ r] by (simp add: published_def quiet_world_def)
  moreover have "map d_name (domains (fst (pg ?w'))) = [''shop'']" by code_simp
  ultimately show ?thesis by (simp add: Let_def)
qed

end
