(* ===== verification/Lxd_Ops.thy ===== *)
theory Lxd_Ops
  imports Nginx_Conf
begin

text \<open>
  \<^verbatim>\<open>lxd/lxd.go\<close>: images, the bridge and the storage pool, and the life of a user's
  container: creation with a static address, start with first-time provisioning, stop, deletion. The
  LXD client is a parameter (\<open>lxd\<close>): each field is one call of the library, a program over the
  outside state that can fail; \<open>op_wait\<close> is \<^verbatim>\<open>op.Wait()\<close> of the operation just begun.
\<close>

section \<open>The client\<close>

record lxd_request =
  Rq_Name :: string
  Rq_Config :: "(string \<times> string) list"
  Rq_Devices :: "(string \<times> (string \<times> string) list) list"
  Rq_Alias :: string

text \<open>\<open>GetContainerState\<close> yields family, scope and address of every interface address, in the order of
  the iteration; \<open>not_found\<close> is \<^verbatim>\<open>api.StatusErrorCheck(err, 404)\<close>; \<open>RemoteImage\<close>
  stands for the connection to the remote, its alias and its image.\<close>

record 'x lxd =
  GetImageAlias :: "string \<Rightarrow> ('x, unit) call"
  not_found :: "go_error \<Rightarrow> bool"
  ConnectSimpleStreams :: "string \<Rightarrow> ('x, unit) call"
  RemoteImageAlias :: "string \<Rightarrow> ('x, string) call"
  RemoteImage :: "string \<Rightarrow> ('x, string) call"
  CopyImage :: "string \<Rightarrow> string \<Rightarrow> ('x, unit) call"
  GetNetwork :: "string \<Rightarrow> ('x, unit) call"
  CreateNetwork :: "string \<Rightarrow> (string \<times> string) list \<Rightarrow> ('x, unit) call"
  GetStoragePool :: "string \<Rightarrow> ('x, unit) call"
  CreateStoragePool :: "string \<Rightarrow> string \<Rightarrow> ('x, unit) call"
  GetInstances :: "('x, string list) call"
  LxdCreate :: "lxd_request \<Rightarrow> ('x, unit) call"
  GetInstanceState :: "string \<Rightarrow> ('x, string) call"
  LxdUpdate :: "string \<Rightarrow> string \<Rightarrow> ('x, unit) call"
  DeleteContainer :: "string \<Rightarrow> ('x, unit) call"
  ExecInstance :: "string \<Rightarrow> string list \<Rightarrow> ('x, unit) call"
  GetContainerState :: "string \<Rightarrow> ('x, (string \<times> string \<times> string) list) call"
  op_wait :: "('x, unit) call"

record 'x LXDKWS =
  Conn :: "'x lxd"
  Ip :: IPAllocator
  Docker :: "'x docker"

section \<open>Image, bridge and storage pool\<close>

definition AliasExists :: "'x LXDKWS \<Rightarrow> string \<Rightarrow> ('x, bool) act" where
  "AliasExists l name =
     handle (extern (GetImageAlias (Conn l) name))
       (\<lambda>e. if not_found (Conn l) e then ret False else fail e)
       (\<lambda>_. ret True)"

definition PullUbuntuImage :: "'x LXDKWS \<Rightarrow> ('x, unit) act" where
  "PullUbuntuImage l =
     tri (AliasExists l LXC_UBUNTU_ALIAS)
       (\<lambda>ex. if ex then ret ()
          else tri (extern (ConnectSimpleStreams (Conn l) ''https://cloud-images.ubuntu.com/releases/''))
            (\<lambda>_. tri (extern (RemoteImageAlias (Conn l) ''22.04''))
               (\<lambda>target. tri (extern (RemoteImage (Conn l) target))
                  (\<lambda>image. tri (extern (CopyImage (Conn l) image LXC_UBUNTU_ALIAS))
                     (\<lambda>_. extern (op_wait (Conn l)))))))"

text \<open>Any error of the look-up counts as absence.\<close>

definition CreateBridgeNetwork :: "'x LXDKWS \<Rightarrow> ('x, unit) act" where
  "CreateBridgeNetwork l =
     handle (extern (GetNetwork (Conn l) LXD_BRIDGE))
       (\<lambda>e. extern (CreateNetwork (Conn l) LXD_BRIDGE
          [(''ipv4.address'', ''172.30.0.1/24''), (''ipv4.nat'', ''true''), (''ipv6.address'', ''none'')]))
       (\<lambda>_. ret ())"

definition CreateDirStoragePool :: "'x LXDKWS \<Rightarrow> string \<Rightarrow> ('x, unit) act" where
  "CreateDirStoragePool l name =
     handle (extern (GetStoragePool (Conn l) name))
       (\<lambda>e. extern (CreateStoragePool (Conn l) name ''dir''))
       (\<lambda>_. ret ())"

section \<open>Creating a container\<close>

definition ContainerExists :: "'x LXDKWS \<Rightarrow> string \<Rightarrow> ('x, bool) act" where
  "ContainerExists l name = tri (extern (GetInstances (Conn l))) (\<lambda>instances. ret (name \<in> set instances))"

definition container_request :: "string \<Rightarrow> string \<Rightarrow> lxd_request" where
  "container_request name ip =
     \<lparr>Rq_Name = name,
      Rq_Config = [(''security.nesting'', ''true''), (''limits.memory'', ''1500MB'')],
      Rq_Devices =
        [(''eth0'', [(''type'', ''nic''), (''nictype'', ''bridged''), (''parent'', LXD_BRIDGE),
                     (''name'', ''eth0''), (''ipv4.address'', ip)]),
         (''root'', [(''type'', ''disk''), (''path'', ''/''), (''pool'', STORAGE_POOL)])],
      Rq_Alias = LXC_UBUNTU_ALIAS\<rparr>"

definition CreateInstance_lxd :: "'x LXDKWS \<Rightarrow> string \<Rightarrow> int \<Rightarrow> ('x, unit) act" where
  "CreateInstance_lxd l name uid =
     tri (ContainerExists l name)
       (\<lambda>exists.
          if exists then fail (ErrText CONTAINER_ALREADY_EXISTS)
          else tri (AllocateFreeLXCIp (Ip l) uid)
            (\<lambda>ip. tri (extern (LxdCreate (Conn l) (container_request name ip)))
               (\<lambda>_. extern (op_wait (Conn l)))))"

section \<open>Commands inside the container\<close>

definition RunCommand :: "'x LXDKWS \<Rightarrow> string \<Rightarrow> string list \<Rightarrow> ('x, unit) act" where
  "RunCommand l container command =
     tri (extern (ExecInstance (Conn l) container command)) (\<lambda>_. extern (op_wait (Conn l)))"

text \<open>The errors of the first two commands are overwritten by the third.\<close>

definition CreateUser_lxd :: "'x LXDKWS \<Rightarrow> string \<Rightarrow> string \<Rightarrow> string \<Rightarrow> ('x, unit) act" where
  "CreateUser_lxd l containerName userName password =
     tri (logged (RunCommand l containerName [''useradd'', ''-m'', ''-s'', ''/bin/bash'', userName]))
       (\<lambda>_. tri (logged (RunCommand l containerName
                  [''bash'', ''-c'', ''echo '' @ [CHR 0x27] @ userName @ '':'' @ password @ [CHR 0x27] @ '' | chpasswd'']))
          (\<lambda>_. RunCommand l containerName [''usermod'', ''-aG'', ''sudo'', userName]))"

definition InstallEssentials :: "'x LXDKWS \<Rightarrow> string \<Rightarrow> ('x, unit) act" where
  "InstallEssentials l name =
     tri (RunCommand l name [''apt'', ''update''])
       (\<lambda>_. RunCommand l name
          [''apt'', ''install'', ''-y'', ''sudo'', ''bash'', ''vim'', ''curl'', ''wget'', ''openssh-server'',
           ''iproute2'', ''net-tools'', ''ca-certificates'', ''openvswitch-switch'', ''openvswitch-common''])"

definition netplanYAML :: "string \<Rightarrow> string" where
  "netplanYAML dnsIP =
     lines [[], ''network:'', ''  version: 2'', ''  ethernets:'', ''    eth0:'', ''      dhcp4: true'',
            ''      nameservers:'', ''        addresses: ['' @ dnsIP @ '']'']"

definition SetNetplanDNS :: "'x LXDKWS \<Rightarrow> string \<Rightarrow> string \<Rightarrow> ('x, unit) act" where
  "SetNetplanDNS l containerName dnsIP =
     tri (RunCommand l containerName
           [''bash'', ''-c'', ''echo '' @ [CHR 0x27] @ netplanYAML dnsIP @ [CHR 0x27] @ '' > /etc/netplan/50-cloud-init.yaml''])
       (\<lambda>_. RunCommand l containerName [''netplan'', ''apply''])"

text \<open>Only the error of the restart is looked at.\<close>

definition ConfigSSH :: "'x LXDKWS \<Rightarrow> string \<Rightarrow> ('x, unit) act" where
  "ConfigSSH l name =
     tri (logged (RunCommand l name [''sed'', ''-i'', ''s/^#*PermitRootLogin.*/PermitRootLogin no/'', ''/etc/ssh/sshd_config'']))
       (\<lambda>_. tri (logged (RunCommand l name
                  [''sed'', ''-i'', ''s/^#*PasswordAuthentication.*/PasswordAuthentication yes/'', ''/etc/ssh/sshd_config'']))
          (\<lambda>_. tri (logged (RunCommand l name
                     [''sed'', ''-i'', ''s/^#*PasswordAuthentication.*/PasswordAuthentication yes/'',
                      ''/etc/ssh/sshd_config.d/60-cloudimg-settings.conf'']))
             (\<lambda>_. RunCommand l name [''systemctl'', ''restart'', ''sshd''])))"

definition InstallCodeServer :: "'x LXDKWS \<Rightarrow> string \<Rightarrow> ('x, unit) act" where
  "InstallCodeServer l name =
     RunCommand l name [''bash'', ''-c'', ''curl -fsSL https://code-server.dev/install.sh | sh'']"

definition code_server_yaml :: "string \<Rightarrow> string" where
  "code_server_yaml vscodePassword =
     lines [''bind-addr: 0.0.0.0:8099'', ''auth: password'', ''password: '' @ vscodePassword, ''cert: false'']"

text \<open>\<^verbatim>\<open>strings.ReplaceAll(s, `"`, `\"`)\<close>.\<close>

definition escape_quotes :: "string \<Rightarrow> string" where
  "escape_quotes s = concat (map (\<lambda>c. if c = CHR 0x22 then [CHR 0x5C, CHR 0x22] else [c]) s)"

definition write_config_command :: "string \<Rightarrow> string \<Rightarrow> string" where
  "write_config_command configDir vscodePassword =
     ''echo '' @ [CHR 0x22] @ escape_quotes (code_server_yaml vscodePassword) @ [CHR 0x22] @ '' > '' @ configDir @ ''/config.yaml''"

definition ConfigureCodeServerLXC :: "'x LXDKWS \<Rightarrow> string \<Rightarrow> string \<Rightarrow> string \<Rightarrow> ('x, unit) act" where
  "ConfigureCodeServerLXC l containerName username vscodePassword =
     (let configDir = ''/home/'' @ username @ ''/.config/code-server''
      in tri (wrap_error ''failed to create config directory'' (RunCommand l containerName [''mkdir'', ''-p'', configDir]))
           (\<lambda>_. tri (wrap_error ''failed to write config.yaml''
                      (RunCommand l containerName [''bash'', ''-c'', write_config_command configDir vscodePassword]))
              (\<lambda>_. wrap_error ''failed to chown config directory''
                      (RunCommand l containerName [''chown'', ''-R'', username @ '':'' @ username, configDir]))))"

definition StartCodeServer :: "'x LXDKWS \<Rightarrow> string \<Rightarrow> string \<Rightarrow> ('x, unit) act" where
  "StartCodeServer l containerName userName =
     wrap_error ''failed to start code server''
       (RunCommand l containerName
         [''bash'', ''-c'',
          ''su - '' @ userName @ '' -c '' @ [CHR 0x27] @ ''nohup code-server > /dev/null 2>&1 &'' @ [CHR 0x27]])"

text \<open>An error of the state query is answered with an empty address and a nil error.\<close>

definition FindContainerIP :: "'x LXDKWS \<Rightarrow> string \<Rightarrow> ('x, string) act" where
  "FindContainerIP l containerName =
     handle (extern (GetContainerState (Conn l) containerName))
       (\<lambda>e. ret [])
       (\<lambda>addrs. case filter (\<lambda>(family, scope, address). family = ''inet'' \<and> scope = ''global'') addrs of
            [] \<Rightarrow> fail (ErrText ''No Ip found'')
          | (family, scope, address) # _ \<Rightarrow> ret address)"

section \<open>Starting, stopping, deleting\<close>

definition code_server_domain :: "int \<Rightarrow> string \<Rightarrow> Domain" where
  "code_server_domain uid instanceName = \<lparr>Dom_Uid = uid, Dom_Name = instanceName, Dom_Port = 8099\<rparr>"

text \<open>The block that publishes the code server, at the end of a first start.\<close>

definition expose_code_server :: "'x LXDKWS \<Rightarrow> string \<Rightarrow> int \<Rightarrow> ('x, unit) act" where
  "expose_code_server l instanceName uid =
     tri (FindContainerIP l instanceName)
       (\<lambda>containerIP. tri (on_pg (AddDomain (code_server_domain uid instanceName)))
          (\<lambda>_. tri (on_disk (AddNewConf \<lparr>T_Domain = instanceName, T_IP = containerIP, T_Port = ''8099''\<rparr> INSTANCE_TEMPLATE))
             (\<lambda>_. handle (ReloadNginxConf (Docker l) NGINX_CONTAINER)
                (\<lambda>e. on_pg (RemoveDomain (code_server_domain uid instanceName)))
                ret)))"

definition provision :: "'x LXDKWS \<Rightarrow> string \<Rightarrow> string \<Rightarrow> string \<Rightarrow> int \<Rightarrow> ('x, unit) act" where
  "provision l userName password instanceName uid =
     tri (CreateUser_lxd l instanceName userName password)
       (\<lambda>_. tri (InstallEssentials l instanceName)
          (\<lambda>_. tri (SetNetplanDNS l instanceName DNS_IP)
             (\<lambda>_. tri (InstallCodeServer l instanceName)
                (\<lambda>_. tri (ConfigSSH l instanceName)
                   (\<lambda>_. tri (ConfigureCodeServerLXC l instanceName userName password)
                      (\<lambda>_. tri (StartCodeServer l instanceName userName)
                         (\<lambda>_. expose_code_server l instanceName uid)))))))"

definition UpdateInstanceState ::
  "'x LXDKWS \<Rightarrow> string \<Rightarrow> string \<Rightarrow> string \<Rightarrow> string \<Rightarrow> bool \<Rightarrow> int \<Rightarrow> ('x, unit) act" where
  "UpdateInstanceState l userName password state instanceName exists uid =
     tri (if state = INSTANCE_START
          then tri (extern (GetInstanceState (Conn l) instanceName))
                 (\<lambda>s. if s = ''Running'' then fail (ErrText CONTAINER_ALREADY_RUNNING) else ret ())
          else ret ())
       (\<lambda>_. tri (if state = INSTANCE_STOP
                 then tri (ContainerExists l instanceName)
                        (\<lambda>found. if \<not> found then fail (ErrText CONTAINER_NOT_FOUND_TO_STOP) else ret ())
                 else ret ())
          (\<lambda>_. tri (extern (LxdUpdate (Conn l) instanceName state))
             (\<lambda>_. tri (extern (op_wait (Conn l)))
                (\<lambda>_. if state = INSTANCE_START \<and> \<not> exists
                     then provision l userName password instanceName uid
                     else ret ()))))"

definition DeleteInstance_lxd :: "'x LXDKWS \<Rightarrow> int \<Rightarrow> string \<Rightarrow> ('x, unit) act" where
  "DeleteInstance_lxd l uid instanceName =
     tri (ContainerExists l instanceName)
       (\<lambda>exists.
          if \<not> exists then fail (ErrText CONTAINER_NOT_FOUND_TO_DELETE)
          else tri (logged (UpdateInstanceState l [] [] INSTANCE_STOP instanceName True uid))
            (\<lambda>_. tri (DeAllocateLXCIP uid)
               (\<lambda>_. tri (extern (DeleteContainer (Conn l) instanceName))
                  (\<lambda>_. tri (extern (op_wait (Conn l)))
                     (\<lambda>_. tri (on_pg (RemoveDomain (code_server_domain uid instanceName)))
                        (\<lambda>_. tri (on_disk (RemoveConf (domain_only instanceName)))
                           (\<lambda>_. ReloadNginxConf (Docker l) NGINX_CONTAINER)))))))"

end
