(* ===== verification/Message_Queue.thy ===== *)
theory Message_Queue
  imports World Go_Text
begin

text \<open>
  \<^verbatim>\<open>internal/mq\<close>, \<^verbatim>\<open>internal/store/messageQueue.go\<close> and the part of
  \<^verbatim>\<open>store.go\<close> that wires them: the connection to the broker, the pool of channels and
  the publication of a message. The AMQP client and the gob encoding are parameters. The lemmas show
  that a publication gives its channel back and what becomes of the pool when it cannot.
\<close>

section \<open>Messages\<close>

record InstanceQueueMessage =
  JobID :: string
  UserID :: int
  UserName :: string
  InsUser :: string
  InsPassword :: string
  Action :: string

record TunnelQueueMessage =
  Tm_Domain :: string
  Tm_IsCustom :: bool
  Tm_Name :: string
  Tm_Uid :: int

datatype queue_message = InstanceMessage InstanceQueueMessage | TunnelMessage TunnelQueueMessage

fun WhoAmI :: "queue_message \<Rightarrow> string" where
  "WhoAmI (InstanceMessage q) = MAIN_INSTANCE_QUEUE"
| "WhoAmI (TunnelMessage t) = MAIN_TUNNEL_QUEUE"

text \<open>The queues a \<^verbatim>\<open>store.MQ\<close> points to, by their names; \<open>None\<close> is the nil pointer.\<close>

record MQ =
  InstanceQueue :: "string option"
  TunnelQueue :: "string option"

section \<open>The client\<close>

text \<open>\<open>Encode\<close> is \<^verbatim>\<open>gob.NewEncoder(&buf).Encode\<close>: the bytes or the error.\<close>

record 'x amqp =
  Dial :: "string \<Rightarrow> ('x, unit) call"
  OpenChannel :: "('x, nat) call"
  IsClosed :: "'x \<Rightarrow> nat \<Rightarrow> bool"
  CloseChannel :: "nat \<Rightarrow> ('x, unit) call"
  Qos :: "nat \<Rightarrow> int \<Rightarrow> ('x, unit) call"
  QueueDeclare :: "nat \<Rightarrow> string \<Rightarrow> (string \<times> header_value) list \<Rightarrow> ('x, string) call"
  Consume :: "nat \<Rightarrow> string \<Rightarrow> ('x, unit) call"
  PublishWithContext :: "nat \<Rightarrow> string \<Rightarrow> (string \<times> header_value) list \<Rightarrow> string \<Rightarrow> ('x, unit) call"
  Encode :: "queue_message \<Rightarrow> go_error + string"

section \<open>Connecting\<close>

record Mq =
  Mq_User :: string
  Mq_Pass :: string
  Mq_Port :: string
  Mq_Host :: string

definition amqp_url :: "Mq \<Rightarrow> string" where
  "amqp_url m = ''amqp://'' @ Mq_User m @ '':'' @ Mq_Pass m @ ''@'' @ Mq_Host m @ '':'' @ Mq_Port m @ ''/''"

text \<open>The loop over the remaining tries, with the error of the last one; the pauses have no effect here.\<close>

fun dial_loop :: "'x amqp \<Rightarrow> string \<Rightarrow> nat \<Rightarrow> go_error option \<Rightarrow> ('x, unit option) act" where
  "dial_loop a url 0 err = (case err of None \<Rightarrow> ret None | Some e \<Rightarrow> fail e)"
| "dial_loop a url (Suc n) err = handle (extern (Dial a url)) (\<lambda>e. dial_loop a url n (Some e)) (\<lambda>conn. ret (Some conn))"

definition ConnectToMq :: "'x amqp \<Rightarrow> Mq \<Rightarrow> ('x, unit option) act" where
  "ConnectToMq a m = dial_loop a (amqp_url m) 10 None"

section \<open>The pool of channels\<close>

text \<open>\<open>cap\<close> is the capacity of the Go channel that holds the pool; the send drops into the default branch when it is full.\<close>

definition PushChannel :: "'x amqp \<Rightarrow> nat \<Rightarrow> nat \<Rightarrow> ('x, unit) act" where
  "PushChannel a cap ch =
     tri (get_field (\<lambda>w. length (pool w) < cap))
       (\<lambda>room. if room then set_field (\<lambda>w. w\<lparr>pool := pool w @ [ch]\<rparr>)
               else logged (extern (CloseChannel a ch)))"

text \<open>Receiving from an empty pool waits; with no other party to give a channel back, for ever.\<close>

definition GetFreeChannel :: "'x amqp \<Rightarrow> ('x, nat option) act" where
  "GetFreeChannel a w =
     (case pool w of
        [] \<Rightarrow> (Crash ''waits for a channel'', w)
      | ch # rest \<Rightarrow>
          (if IsClosed a (outside w) ch
           then handle (extern (OpenChannel a)) (\<lambda>e. ret None) (\<lambda>n. ret (Some n)) (w\<lparr>pool := rest\<rparr>)
           else (Ok (Some ch), w\<lparr>pool := rest\<rparr>)))"

text \<open>
  \<^verbatim>\<open>ch.Qos\<close> is called before the error is looked at, on the nil channel that comes with it.
\<close>

fun CreateChannelPool :: "'x amqp \<Rightarrow> nat \<Rightarrow> int \<Rightarrow> ('x, unit) act" where
  "CreateChannelPool a 0 prefetchCount = ret ()"
| "CreateChannelPool a (Suc n) prefetchCount =
     handle (extern (OpenChannel a)) (\<lambda>e. crash ''nil pointer dereference'')
       (\<lambda>ch. tri (logged (extern (Qos a ch prefetchCount)))
          (\<lambda>_. tri (set_field (\<lambda>w. w\<lparr>pool := pool w @ [ch]\<rparr>))
             (\<lambda>_. CreateChannelPool a n prefetchCount)))"

definition CreateQueueInstance :: "'x amqp \<Rightarrow> nat \<Rightarrow> nat \<Rightarrow> string \<Rightarrow> string \<Rightarrow> ('x, string) act" where
  "CreateQueueInstance a cap ch queueName retryQueue =
     handle (extern (QueueDeclare a ch queueName
         [(''x-dead-letter-exchange'', HStr []), (''x-dead-letter-routing-key'', HStr retryQueue)]))
       (\<lambda>e. tri (PushChannel a cap ch) (\<lambda>_. fail e))
       (\<lambda>q. tri (PushChannel a cap ch) (\<lambda>_. ret q))"

definition CreateRetryQueue :: "'x amqp \<Rightarrow> nat \<Rightarrow> nat \<Rightarrow> string \<Rightarrow> string \<Rightarrow> ('x, string) act" where
  "CreateRetryQueue a cap ch queueName dlq =
     handle (extern (QueueDeclare a ch queueName
         [(''x-message-ttl'', HInt32 1000), (''x-dead-letter-exchange'', HStr []),
          (''x-dead-letter-routing-key'', HStr dlq)]))
       (\<lambda>e. tri (PushChannel a cap ch) (\<lambda>_. fail e))
       (\<lambda>q. tri (PushChannel a cap ch) (\<lambda>_. ret q))"

definition CreateConsumer :: "'x amqp \<Rightarrow> nat \<Rightarrow> string \<Rightarrow> ('x, unit) act" where
  "CreateConsumer a ch queue = extern (Consume a ch queue)"

section \<open>Publishing\<close>

definition routing_key :: "MQ \<Rightarrow> queue_message \<Rightarrow> string option" where
  "routing_key q m =
     (if WhoAmI m = MAIN_INSTANCE_QUEUE then InstanceQueue q
      else if WhoAmI m = MAIN_TUNNEL_QUEUE then TunnelQueue q
      else Some [])"

text \<open>The channel is taken before the name of the queue is read through its pointer.\<close>

definition PushMessageInstance :: "'x amqp \<Rightarrow> nat \<Rightarrow> MQ \<Rightarrow> queue_message \<Rightarrow> ('x, unit) act" where
  "PushMessageInstance a cap q m =
     (case Encode a m of
        Inl e \<Rightarrow> fail e
      | Inr body \<Rightarrow>
          tri (GetFreeChannel a)
            (\<lambda>ch. case routing_key q m of
                None \<Rightarrow> crash ''nil pointer dereference''
              | Some routingKey \<Rightarrow>
                  (case ch of
                     None \<Rightarrow> crash ''nil pointer dereference''
                   | Some c \<Rightarrow>
                       handle (extern (PublishWithContext a c routingKey [(X_RETRY_COUNTER, HInt 1)] body))
                         (\<lambda>e. tri (PushChannel a cap c) (\<lambda>_. fail e))
                         (\<lambda>_. PushChannel a cap c))))"

text \<open>
  \<^verbatim>\<open>store.NewStore\<close> is given the queues and builds the storage with an empty
  \<^verbatim>\<open>MQ{}\<close>.
\<close>

definition NewStore_MessageQueue :: "MQ \<Rightarrow> MQ" where
  "NewStore_MessageQueue q = \<lparr>InstanceQueue = None, TunnelQueue = None\<rparr>"

section \<open>The pool around a publication\<close>

lemma extern_pool: "extern m w = (r, w') \<Longrightarrow> pool w' = pool w"
  by (auto simp: extern_eq split: prod.splits)

lemma GetFreeChannel_pool:
  assumes "GetFreeChannel a w = (r, w')"
  shows "(\<exists>c. r = Crash c) \<or> (\<exists>c ch. r = Ok c \<and> pool w = ch # pool w')"
  using assms
  by (auto simp: GetFreeChannel_def handle_def extern_eq ret_def split: list.splits if_splits prod.splits res.splits)

lemma PushChannel_pool:
  assumes "PushChannel a cap ch w = (r, w')" and "length (pool w) < cap"
  shows "r = Ok () \<and> pool w' = pool w @ [ch]"
  using assms by (auto simp: PushChannel_def tri_eq get_field_def set_field_def)

text \<open>A publication that comes back, with or without an error, leaves as many channels in the pool as it found:
  the channel it took, or the one opened for a closed channel, is given back, and never dropped for want
  of room.\<close>

lemma push_returns_channel:
  assumes "PushMessageInstance a cap q m w = (r, w')" and "length (pool w) \<le> cap" and "\<forall>c. r \<noteq> Crash c"
  shows "length (pool w') = length (pool w)"
proof (cases "Encode a m")
  case (Inl e)
  with assms(1) show ?thesis by (simp add: PushMessageInstance_def fail_def)
next
  case (Inr body)
  obtain q1 w1 where g: "GetFreeChannel a w = (q1, w1)" by (metis prod.exhaust)
  from assms(1) Inr g assms(3) GetFreeChannel_pool [OF g] obtain c key where
    k: "routing_key q m = Some key" "q1 = Ok (Some c)"
    by (cases "routing_key q m") (auto simp: PushMessageInstance_def tri_eq crash_def split: option.splits)
  obtain q2 w2 where p: "extern (PublishWithContext a c key [(X_RETRY_COUNTER, HInt 1)] body) w1 = (q2, w2)"
    by (metis prod.exhaust)
  have len: "length (pool w) = Suc (length (pool w2))"
    using GetFreeChannel_pool [OF g] k extern_pool [OF p] by auto
  obtain q3 w3 where b: "PushChannel a cap c w2 = (q3, w3)" by (metis prod.exhaust)
  have "length (pool w2) < cap" using len assms(2) by simp
  note b2 = PushChannel_pool [OF b this]
  from assms(1,3) Inr g k p b b2 len show ?thesis
    by (cases q2) (auto simp: PushMessageInstance_def tri_eq handle_def fail_def)
qed

definition sample_amqp :: "unit amqp" where
  "sample_amqp =
     \<lparr>Dial = (\<lambda>u. ret ()), OpenChannel = ret 0, IsClosed = (\<lambda>x c. False), CloseChannel = (\<lambda>c. ret ()),
      Qos = (\<lambda>c n. ret ()), QueueDeclare = (\<lambda>c q args. ret q), Consume = (\<lambda>c q. ret ()),
      PublishWithContext = (\<lambda>c k h b. ret ()),
      Encode = (\<lambda>m. Inr (case m of InstanceMessage q \<Rightarrow> JobID q | TunnelMessage t \<Rightarrow> Tm_Domain t))\<rparr>"

definition main_queues :: MQ where
  "main_queues = \<lparr>InstanceQueue = Some MAIN_INSTANCE_QUEUE, TunnelQueue = Some MAIN_TUNNEL_QUEUE\<rparr>"

definition two_channels :: "unit world" where
  "two_channels = (quiet_world empty_tables Map.empty)\<lparr>pool := [4, 5]\<rparr>"

definition a_tunnel :: queue_message where
  "a_tunnel = TunnelMessage \<lparr>Tm_Domain = ''d'', Tm_IsCustom = False, Tm_Name = ''t'', Tm_Uid = 1\<rparr>"

lemma push_returns_channel_witness:
  "length (pool (snd (PushMessageInstance sample_amqp 32 main_queues a_tunnel two_channels))) = 2"
proof -
  let ?r = "PushMessageInstance sample_amqp 32 main_queues a_tunnel two_channels"
  have "length (pool two_channels) \<le> 32" "fst ?r = Ok ()" by code_simp+
  moreover have "?r = (fst ?r, snd ?r)" by simp
  ultimately have "length (pool (snd ?r)) = length (pool two_channels)"
    using push_returns_channel [of sample_amqp 32 main_queues a_tunnel two_channels "fst ?r" "snd ?r"] by auto
  then show ?thesis by (simp add: two_channels_def)
qed

end
