(* ===== verification/Instance_Worker.thy ===== *)
theory Instance_Worker
  imports Lxd_Ops Message_Queue
begin

text \<open>
  \<^verbatim>\<open>cmd/instance_utility.go\<close>: the consumer of the instance queue and the three jobs it
  starts. A delivery is a message together with the world in which its outcome is recorded; the jobs
  run to completion here, one delivery after the other (the goroutines of different deliveries
  interleave in the program, see the header of the root theory).
\<close>

section \<open>The jobs\<close>

definition nack :: "'e \<Rightarrow> ('x, unit) act" where
  "nack e = settle_with Nack"

definition forget_job :: "string \<Rightarrow> ('x, unit) act" where
  "forget_job jobID = set_field (\<lambda>w. w\<lparr>retries := (retries w)(jobID := 0)\<rparr>)"

text \<open>What follows the \<^verbatim>\<open>Ack\<close> of a deployment.\<close>

definition deploy_done :: "int \<Rightarrow> string \<Rightarrow> string \<Rightarrow> string \<Rightarrow> string \<Rightarrow> ('x, unit) act" where
  "deploy_done uid containerName jobID insUser insPass =
     tri (settle_with Ack)
       (\<lambda>_. tri (handle (on_pg (GetIPFromUID uid)) (\<lambda>e. ret (- 1)) ret)
          (\<lambda>ip. tri (logged (on_redis (PutDeployResult insUser jobID insPass (GenerateIPLXC ip) True containerName)))
             (\<lambda>_. forget_job jobID)))"

text \<open>The update of the database, with its recovery branch.\<close>

definition deploy_record ::
  "int \<Rightarrow> string \<Rightarrow> string \<Rightarrow> string \<Rightarrow> bool \<Rightarrow> ('x, unit) act \<Rightarrow> ('x, unit) act" where
  "deploy_record uid userName insUser insPass containerExists finish =
     (if \<not> containerExists
      then handle (on_pg (CreateInstance_store uid userName insUser insPass)) nack (\<lambda>_. finish)
      else handle (on_pg (StartInstance uid))
        (\<lambda>e. if error_text e = CONTAINER_START_FAILED
             then handle (on_pg (CreateInstance_store uid userName insUser insPass)) nack
                    (\<lambda>_. handle (on_pg (StartInstance uid)) nack (\<lambda>_. finish))
             else nack e)
        (\<lambda>_. finish))"

definition deploy_rest ::
  "'x LXDKWS \<Rightarrow> int \<Rightarrow> string \<Rightarrow> string \<Rightarrow> string \<Rightarrow> string \<Rightarrow> bool \<Rightarrow> ('x, unit) act" where
  "deploy_rest l uid userName jobID insUser insPass containerExists =
     (let name = ContainerName (CreateInstanceType uid userName);
          record = deploy_record uid userName insUser insPass containerExists
                     (deploy_done uid name jobID insUser insPass)
      in handle (on_pg (Exists_store uid)) nack
           (\<lambda>exists. handle (UpdateInstanceState l insUser insPass INSTANCE_START name exists uid)
              (\<lambda>e. if error_text e \<noteq> CONTAINER_ALREADY_RUNNING then nack e else record)
              (\<lambda>_. record)))"

definition deploy ::
  "'x LXDKWS \<Rightarrow> int \<Rightarrow> string \<Rightarrow> string \<Rightarrow> string \<Rightarrow> string \<Rightarrow> ('x, unit) act" where
  "deploy l uid userName jobID insUser insPass =
     handle (CreateInstance_lxd l (ContainerName (CreateInstanceType uid userName)) uid)
       (\<lambda>e. if error_text e = CONTAINER_ALREADY_EXISTS
            then deploy_rest l uid userName jobID insUser insPass True
            else nack e)
       (\<lambda>_. deploy_rest l uid userName jobID insUser insPass False)"

definition stop_record :: "int \<Rightarrow> string \<Rightarrow> ('x, unit) act" where
  "stop_record uid jobID =
     handle (on_pg (StopInstance_store uid)) nack
       (\<lambda>_. tri (settle_with Ack)
          (\<lambda>_. tri (logged (on_redis (PutStopResult True jobID)))
             (\<lambda>_. forget_job jobID)))"

definition stop :: "'x LXDKWS \<Rightarrow> int \<Rightarrow> string \<Rightarrow> string \<Rightarrow> ('x, unit) act" where
  "stop l uid userName jobID =
     handle (UpdateInstanceState l [] [] INSTANCE_STOP (ContainerName (CreateInstanceType uid userName)) True uid)
       (\<lambda>e. if error_text e \<noteq> CONTAINER_NOT_FOUND_TO_STOP then nack e else stop_record uid jobID)
       (\<lambda>_. stop_record uid jobID)"

fun remove_confs :: "web_Domain list \<Rightarrow> ('x, unit) act" where
  "remove_confs [] = ret ()"
| "remove_confs (d # ds) = tri (logged (on_disk (RemoveConf (domain_only (Wd_Name d))))) (\<lambda>_. remove_confs ds)"

text \<open>
  After the \<^verbatim>\<open>Ack\<close> the names of the user are withdrawn. When they cannot be read, the
  nil pointer the store returned is dereferenced all the same.
\<close>

definition kill_cleanup :: "'x LXDKWS \<Rightarrow> int \<Rightarrow> string \<Rightarrow> ('x, unit) act" where
  "kill_cleanup l uid jobID =
     handle (on_pg (GetUserDomains \<lparr>Dom_Uid = uid, Dom_Name = [], Dom_Port = 0\<rparr>))
       (\<lambda>e. crash ''nil pointer dereference'')
       (\<lambda>domains. tri (remove_confs domains)
          (\<lambda>_. tri (logged (ReloadNginxConf (Docker l) NGINX_CONTAINER))
             (\<lambda>_. tri (logged (on_pg (DeleteUserDomains \<lparr>Dom_Uid = uid, Dom_Name = [], Dom_Port = 0\<rparr>)))
                (\<lambda>_. tri (logged (on_redis (PutKillResult True jobID)))
                   (\<lambda>_. forget_job jobID)))))"

definition kill_record :: "'x LXDKWS \<Rightarrow> int \<Rightarrow> string \<Rightarrow> ('x, unit) act" where
  "kill_record l uid jobID =
     handle (on_pg (RemoveInstance uid)) nack
       (\<lambda>_. tri (settle_with Ack) (\<lambda>_. kill_cleanup l uid jobID))"

definition kill :: "'x LXDKWS \<Rightarrow> int \<Rightarrow> string \<Rightarrow> string \<Rightarrow> ('x, unit) act" where
  "kill l uid userName jobID =
     handle (DeleteInstance_lxd l uid (ContainerName (CreateInstanceType uid userName)))
       (\<lambda>e. if error_text e \<noteq> CONTAINER_NOT_FOUND_TO_DELETE then nack e else kill_record l uid jobID)
       (\<lambda>_. kill_record l uid jobID)"

section \<open>The consumer\<close>

definition put_failure :: "InstanceQueueMessage \<Rightarrow> ('x, unit) act" where
  "put_failure m =
     (if Action m = DEPLOY then logged (on_redis (PutDeployResult [] (JobID m) [] [] False []))
      else if Action m = STOP then logged (on_redis (PutStopResult False (JobID m)))
      else if Action m = KILL then logged (on_redis (PutKillResult False (JobID m)))
      else ret ())"

definition run_job :: "'x LXDKWS \<Rightarrow> InstanceQueueMessage \<Rightarrow> ('x, unit) act" where
  "run_job l m =
     (if Action m = DEPLOY then deploy l (UserID m) (UserName m) (JobID m) (InsUser m) (InsPassword m)
      else if Action m = STOP then stop l (UserID m) (UserName m) (JobID m)
      else if Action m = KILL then kill l (UserID m) (UserName m) (JobID m)
      else ret ())"

text \<open>One round of the loop over the deliveries.\<close>

definition ConsumeMessageInstance :: "'x LXDKWS \<Rightarrow> InstanceQueueMessage \<Rightarrow> ('x, unit) act" where
  "ConsumeMessageInstance l m =
     tri (get_field (\<lambda>w. retries w (JobID m)))
       (\<lambda>n. if n = 3
            then tri (settle_with Ack) (\<lambda>_. tri (put_failure m) (\<lambda>_. forget_job (JobID m)))
            else tri (set_field (\<lambda>w. w\<lparr>retries := (retries w)(JobID m := retries w (JobID m) + 1)\<rparr>))
                   (\<lambda>_. run_job l m))"

section \<open>What the jobs leave alone\<close>

text \<open>
  Nothing below the jobs settles the delivery or counts retries: an invariant of the fields other
  than the servers, the disk and the outside is kept by all of it.
\<close>

definition aside :: "(settle list \<Rightarrow> (string \<Rightarrow> int) \<Rightarrow> bool) \<Rightarrow> 'x world \<Rightarrow> bool" where
  "aside P w \<longleftrightarrow> P (settled w) (retries w)"

lemma keeps_aside [keeps_intros]:
  "keeps (aside P) (on_pg a)" "keeps (aside P) (on_redis b)" "keeps (aside P) (on_disk c)"
  "keeps (aside P) (extern e)" "keeps (aside P) (on_session g)"
  by (auto simp: keeps_def aside_def act_eqs split: prod.split)

lemmas container_defs =
  CreateInstance_lxd_def ContainerExists_def UpdateInstanceState_def provision_def
  CreateUser_lxd_def InstallEssentials_def SetNetplanDNS_def InstallCodeServer_def ConfigSSH_def
  ConfigureCodeServerLXC_def StartCodeServer_def expose_code_server_def FindContainerIP_def
  RunCommand_def wrap_error_def ReloadNginxConf_def ExecAndPrint_def DeleteInstance_lxd_def

lemmas lxd_defs = container_defs AllocateFreeLXCIp_def DeAllocateLXCIP_def

lemma lxd_aside [keeps_intros]:
  "keeps (aside P) (CreateInstance_lxd l name uid)"
  "keeps (aside P) (UpdateInstanceState l u p st name ex uid)"
  "keeps (aside P) (DeleteInstance_lxd l uid name)"
  "keeps (aside P) (ReloadNginxConf dk c)"
  unfolding lxd_defs Let_def by (intro keeps_intros)+

lemma cleanup_aside [keeps_intros]: "keeps (aside P) (remove_confs ds)"
  by (induction ds) (auto intro: keeps_intros)

section \<open>The outcome of a job\<close>

definition fresh :: "settle list \<Rightarrow> (string \<Rightarrow> int) \<Rightarrow> 'x world \<Rightarrow> bool" where
  "fresh s rt = aside (\<lambda>a b. a = s \<and> b = rt)"

lemma fresh_iff: "fresh s rt w \<longleftrightarrow> settled w = s \<and> retries w = rt"
  by (simp add: fresh_def aside_def)

definition row_is :: "int \<Rightarrow> ins_status \<Rightarrow> 'x world \<Rightarrow> bool" where
  "row_is uid X w \<longleftrightarrow> status_of (fst (pg w)) uid = X"

text \<open>
  A job that comes back has settled its delivery once: \<open>Nack\<close>, with the retry counters as they were,
  or \<open>Ack\<close>, with the database in the state the job is for and its counter gone. If it does not come
  back (a panic or a fatal error), it had not settled anything, or the row had reached its state.
\<close>

definition job_post :: "settle list \<Rightarrow> (string \<Rightarrow> int) \<Rightarrow> string \<Rightarrow> int \<Rightarrow> ins_status \<Rightarrow> unit res \<Rightarrow> 'x world \<Rightarrow> bool" where
  "job_post s rt job uid X r w \<longleftrightarrow>
     (case r of
        Ok _ \<Rightarrow> settled w = s @ [Nack] \<and> retries w = rt \<or>
                settled w = s @ [Ack] \<and> retries w = rt(job := 0) \<and> row_is uid X w
      | Er e \<Rightarrow> False
      | Crash c \<Rightarrow> settled w = s \<or> settled w = s @ [Ack] \<and> row_is uid X w)"

lemma nack_post: "triple (fresh s rt) (nack e) (job_post s rt job uid X)"
  by (simp add: triple_def nack_def settle_with_def job_post_def fresh_iff)

lemma fresh_handle:
  assumes "keeps (fresh s rt) m" and "\<And>x. triple (fresh s rt) (k x) (job_post s rt job uid X)"
    and "\<And>e. triple (fresh s rt) (h e) (job_post s rt job uid X)"
  shows "triple (fresh s rt) (handle m h k) (job_post s rt job uid X)"
  by (rule triple_handle [OF triple_keeps [OF assms(1)]]) (use assms(2,3) in \<open>simp_all add: job_post_def fresh_iff\<close>)

text \<open>A statement on the user's row that answers \<open>Ok\<close> has put it into the state it is for.\<close>

fun op_target :: "ins_op \<Rightarrow> ins_status" where
  "op_target (Create n u p) = Running"
| "op_target Start = Running"
| "op_target Halt = Stopped"
| "op_target Remove = Absent"

lemma abs_op_target: "abs_ins_op opn a = Some b \<Longrightarrow> b = op_target opn"
  by (cases "(opn, a)" rule: abs_ins_op.cases) auto

lemma op_row:
  "triple (fresh s rt) (on_pg (run_ins_op opn uid)) (\<lambda>r w. fresh s rt w \<and> (r = Ok () \<longrightarrow> row_is uid (op_target opn) w))"
proof (rule tripleI)
  fix w r w' assume f: "fresh s rt w" and r: "on_pg (run_ins_op opn uid) w = (r, w')"
  obtain t as where p: "pg w = (t, as)" by (cases "pg w")
  obtain q t' as' where o: "run_ins_op opn uid (t, as) = (q, (t', as'))" by (metis prod.exhaust)
  from p o r have "q = r" "w' = w\<lparr>pg := (t', as')\<rparr>" by (simp_all add: on_pg_eq)
  with refine_op [OF o] f show "fresh s rt w' \<and> (r = Ok () \<longrightarrow> row_is uid (op_target opn) w')"
    by (auto simp: fresh_iff row_is_def refines_step_def dest: abs_op_target)
qed

lemma row_handle:
  assumes "\<And>x. triple (\<lambda>w. fresh s rt w \<and> row_is uid (op_target opn) w) (k x) (job_post s rt job uid X)"
    and "\<And>e. triple (fresh s rt) (h e) (job_post s rt job uid X)"
  shows "triple (fresh s rt) (handle (on_pg (run_ins_op opn uid)) h k) (job_post s rt job uid X)"
  by (rule triple_handle [OF op_row])
     (auto intro: triple_weaken [OF assms(1)] triple_weaken [OF assms(2)] simp: job_post_def fresh_iff)

text \<open>The statements of the jobs are these operations.\<close>

lemma ops_of_jobs:
  "CreateInstance_store uid n u p = run_ins_op (Create n u p) uid"
  "StartInstance uid = run_ins_op Start uid"
  "StopInstance_store uid = run_ins_op Halt uid"
  "RemoveInstance uid = run_ins_op Remove uid"
  by simp_all

subsection \<open>After the acknowledgement\<close>

lemma GetIP_run: "GetIPFromUID uid d = (q, d') \<Longrightarrow> (\<exists>ip. q = Ok ip) \<and> fst d' = fst d"
proof -
  let ?f = "\<lambda>t. first_row (\<lambda>r. ip_user r = uid) ip_addr (userips t)"
  assume g: "GetIPFromUID uid d = (q, d')"
  obtain r d1 where s: "serve (sql_read ?f) d = (r, d1)" by (metis prod.exhaust)
  have "fst d1 = fst d" using serve_read_state [of ?f d] s by simp
  moreover have "r \<noteq> Crash c" for c using quiet_result [OF quiet_sql(19) s] .
  ultimately show ?thesis using g s by (cases r) (auto simp: GetIPFromUID_def prog_defs)
qed

lemma logged_redis_run:
  assumes "quiet m" and "logged (on_redis m) w = (r, w')"
  shows "r = Ok () \<and> w' = w\<lparr>redis := snd (m (redis w))\<rparr>"
proof -
  obtain q k where m: "m (redis w) = (q, k)" by (metis prod.exhaust)
  with quiet_result [OF assms(1) m] assms(2) show ?thesis
    by (cases q) (auto simp: logged_def on_redis_eq prog_defs)
qed

lemma deploy_done_post:
  "triple (\<lambda>w. fresh s rt w \<and> row_is uid Running w) (deploy_done uid name job u p) (job_post s rt job uid Running)"
proof (rule tripleI)
  fix w r w' assume f: "fresh s rt w \<and> row_is uid Running w" and r: "deploy_done uid name job u p w = (r, w')"
  obtain q d where g: "GetIPFromUID uid (pg w) = (q, d)" by (metis prod.exhaust)
  from GetIP_run [OF g] obtain ip where q: "q = Ok ip" "fst d = fst (pg w)" by blast
  let ?w = "w\<lparr>settled := settled w @ [Ack], pg := d\<rparr>"
  obtain x w2 where l: "logged (on_redis (PutDeployResult u job p (GenerateIPLXC ip) True name)) ?w = (x, w2)"
    by (metis prod.exhaust)
  from logged_redis_run [OF redis_store_quiet(8) l] obtain k where "x = Ok ()" "w2 = ?w\<lparr>redis := k\<rparr>" by blast
  with r g q l f show "job_post s rt job uid Running r w'"
    by (auto simp: deploy_done_def forget_job_def settle_with_def set_field_def on_pg_eq prog_defs
        job_post_def fresh_iff row_is_def)
qed

lemma stop_done_post:
  "triple (\<lambda>w. fresh s rt w \<and> row_is uid Stopped w)
     (tri (settle_with Ack) (\<lambda>_. tri (logged (on_redis (PutStopResult True job))) (\<lambda>_. forget_job job)))
     (job_post s rt job uid Stopped)"
proof (rule tripleI)
  fix w r w' assume f: "fresh s rt w \<and> row_is uid Stopped w"
    and r: "tri (settle_with Ack) (\<lambda>_. tri (logged (on_redis (PutStopResult True job))) (\<lambda>_. forget_job job)) w = (r, w')"
  let ?w = "w\<lparr>settled := settled w @ [Ack]\<rparr>"
  obtain x w2 where l: "logged (on_redis (PutStopResult True job)) ?w = (x, w2)" by (metis prod.exhaust)
  from logged_redis_run [OF redis_store_quiet(10) l] obtain k where "x = Ok ()" "w2 = ?w\<lparr>redis := k\<rparr>" by blast
  with r l f show "job_post s rt job uid Stopped r w'"
    by (auto simp: forget_job_def settle_with_def set_field_def prog_defs job_post_def fresh_iff row_is_def)
qed

lemma keeps_row_other [keeps_intros]:
  "keeps (row_is uid X) (on_redis b)" "keeps (row_is uid X) (on_disk c)" "keeps (row_is uid X) (extern e)"
  by (auto simp: keeps_def row_is_def act_eqs split: prod.split)

lemma keeps_row_pg:
  "keeps (holds (\<lambda>t. status_of t uid = X)) m \<Longrightarrow> keeps (row_is uid X) (on_pg m)"
  using keeps_pg [of "holds (\<lambda>t. status_of t uid = X)" m] by (simp add: row_is_def [abs_def] holds_def)

lemma domain_calls_row:
  "keeps (holds (\<lambda>t. status_of t uid = X)) (GetUserDomains d)"
  "keeps (holds (\<lambda>t. status_of t uid = X)) (DeleteUserDomains d)"
  unfolding GetUserDomains_def DeleteUserDomains_def
  by (intro keeps_intros keeps_serve; simp add: sql_delete_user_domains_def status_of_def)+

lemma remove_confs_row [keeps_intros]: "keeps (row_is uid X) (remove_confs ds)"
  by (induction ds) (auto intro: keeps_intros)

lemma remove_confs_Ok: "remove_confs ds w = (r, w') \<Longrightarrow> r = Ok ()"
proof (induction ds arbitrary: w)
  case Nil
  then show ?case by (simp add: ret_def)
next
  case (Cons d ds)
  have "quiet (RemoveConf t)" for t
    unfolding RemoveConf_def by (intro quiet_intros quiet_serve) (simp add: os_remove_def split: option.split)
  then have qu: "quiet (logged (on_disk (RemoveConf (domain_only (Wd_Name d)))) :: ('a, unit) act)"
    by (intro quiet_intros)
  obtain q w1 where l: "logged (on_disk (RemoveConf (domain_only (Wd_Name d)))) w = (q, w1)"
    by (metis prod.exhaust)
  have "q \<noteq> Crash c" for c by (rule quiet_result [OF qu l])
  moreover have "q \<noteq> Er e" for e using l by (auto simp: logged_def prog_defs split: prod.splits res.splits)
  ultimately have "q = Ok ()" by (cases q) auto
  with Cons l show ?case by (simp add: tri_eq)
qed

definition acked :: "settle list \<Rightarrow> (string \<Rightarrow> int) \<Rightarrow> int \<Rightarrow> 'x world \<Rightarrow> bool" where
  "acked s rt uid w \<longleftrightarrow> fresh (s @ [Ack]) rt w \<and> row_is uid Absent w"

lemma keeps_acked:
  assumes "keeps (fresh (s @ [Ack]) rt) m" and "keeps (row_is uid Absent) m"
  shows "keeps (acked s rt uid) m"
  using assms by (simp add: keeps_def acked_def)

lemma acked_step:
  assumes "keeps (acked s rt uid) m" and "\<And>w r w' e. m w = (r, w') \<Longrightarrow> r \<noteq> Er e"
    and "\<And>x. triple (acked s rt uid) (k x) (job_post s rt job uid Absent)"
  shows "triple (acked s rt uid) (tri m k) (job_post s rt job uid Absent)"
proof (rule triple_tri)
  show "triple (acked s rt uid) m (\<lambda>r w. acked s rt uid w \<and> (\<forall>e. r \<noteq> Er e))"
    using assms(1,2) by (auto simp: triple_def keeps_def) (metis prod.collapse)
  show "triple (\<lambda>w. acked s rt uid w \<and> (\<forall>e. Ok x \<noteq> Er e)) (k x) (job_post s rt job uid Absent)" for x
    by (rule triple_weaken [OF assms(3)]) simp_all
qed (simp_all add: job_post_def acked_def fresh_iff)

lemma logged_no_Er: "logged m w = (r, w') \<Longrightarrow> r \<noteq> Er e"
  by (auto simp: logged_def prog_defs split: prod.splits res.splits)

lemma keeps_fresh [keeps_intros]:
  "keeps (fresh s rt) (on_pg a)" "keeps (fresh s rt) (on_redis b)" "keeps (fresh s rt) (on_disk c)"
  "keeps (fresh s rt) (CreateInstance_lxd l name uid)"
  "keeps (fresh s rt) (UpdateInstanceState l u p st name ex uid)"
  "keeps (fresh s rt) (DeleteInstance_lxd l uid name)"
  "keeps (fresh s rt) (ReloadNginxConf dk cn)" "keeps (fresh s rt) (remove_confs ds)"
  unfolding fresh_def by (intro keeps_intros)+

lemma reload_row [keeps_intros]: "keeps (row_is uid X) (ReloadNginxConf dk c)"
  unfolding ReloadNginxConf_def ExecAndPrint_def by (intro keeps_intros)

lemma kill_cleanup_post:
  "triple (acked s rt uid) (kill_cleanup l uid job) (job_post s rt job uid Absent)"
proof -
  have forget: "triple (acked s rt uid) (forget_job job) (job_post s rt job uid Absent)"
    by (simp add: triple_def forget_job_def set_field_def job_post_def acked_def fresh_iff row_is_def)
  have crash: "triple (acked s rt uid) (crash c) (job_post s rt job uid Absent)" for c
    by (simp add: triple_def crash_def job_post_def acked_def fresh_iff)
  let ?d = "\<lparr>Dom_Uid = uid, Dom_Name = [], Dom_Port = 0\<rparr>"
  have pgs: "keeps (acked s rt uid) (on_pg (GetUserDomains ?d))"
    "keeps (acked s rt uid) (logged (on_pg (DeleteUserDomains ?d)))"
    by (intro keeps_acked keeps_intros keeps_row_pg domain_calls_row)+
  have rest: "triple (acked s rt uid)
      (tri (remove_confs ds) (\<lambda>_. tri (logged (ReloadNginxConf (Docker l) NGINX_CONTAINER))
         (\<lambda>_. tri (logged (on_pg (DeleteUserDomains ?d)))
            (\<lambda>_. tri (logged (on_redis (PutKillResult True job))) (\<lambda>_. forget_job job)))))
      (job_post s rt job uid Absent)" for ds
    by (intro acked_step forget pgs keeps_acked keeps_intros) (auto dest: remove_confs_Ok logged_no_Er)
  show ?thesis
    unfolding kill_cleanup_def
    by (rule triple_handle [OF triple_keeps [OF pgs(1)] rest crash]) (simp add: job_post_def acked_def fresh_iff)
qed

subsection \<open>The three jobs\<close>

lemma deploy_record_post:
  "triple (fresh s rt) (deploy_record uid n u p ex (deploy_done uid name job u p)) (job_post s rt job uid Running)"
proof -
  note ack = deploy_done_post [of s rt uid name job u p]
  have fin: "triple (\<lambda>w. fresh s rt w \<and> row_is uid (op_target opn) w) (deploy_done uid name job u p)
      (job_post s rt job uid Running)" if "op_target opn = Running" for opn
    using ack that by simp
  have c: "triple (fresh s rt) (handle (on_pg (run_ins_op (Create n u p) uid)) nack (\<lambda>_. deploy_done uid name job u p))
      (job_post s rt job uid Running)"
    by (rule row_handle [OF fin nack_post]) simp
  have again: "triple (fresh s rt) (handle (on_pg (run_ins_op Start uid)) nack (\<lambda>_. deploy_done uid name job u p))
      (job_post s rt job uid Running)"
    by (rule row_handle [OF fin nack_post]) simp
  have recover: "triple (fresh s rt)
      (handle (on_pg (run_ins_op (Create n u p) uid)) nack
         (\<lambda>_. handle (on_pg (run_ins_op Start uid)) nack (\<lambda>_. deploy_done uid name job u p)))
      (job_post s rt job uid Running)"
    by (rule fresh_handle [OF keeps_fresh(1) again nack_post])
  show ?thesis
    unfolding deploy_record_def ops_of_jobs
    by (rule triple_if) (rule c, rule row_handle [OF fin], simp, rule triple_if [OF recover nack_post])
qed

lemma deploy_post: "triple (fresh s rt) (deploy l uid n job u p) (job_post s rt job uid Running)"
proof -
  have rest: "triple (fresh s rt) (deploy_rest l uid n job u p ex) (job_post s rt job uid Running)" for ex
    unfolding deploy_rest_def Let_def
    by (intro fresh_handle keeps_intros nack_post triple_if deploy_record_post)
  show ?thesis
    unfolding deploy_def by (intro fresh_handle keeps_intros nack_post triple_if rest)
qed

lemma stop_post: "triple (fresh s rt) (stop l uid n job) (job_post s rt job uid Stopped)"
proof -
  have rec: "triple (fresh s rt) (stop_record uid job) (job_post s rt job uid Stopped)"
    unfolding stop_record_def ops_of_jobs
    by (rule row_handle [OF _ nack_post]) (simp add: stop_done_post)
  show ?thesis
    unfolding stop_def by (intro fresh_handle keeps_intros nack_post triple_if rec)
qed

lemma kill_post: "triple (fresh s rt) (kill l uid n job) (job_post s rt job uid Absent)"
proof -
  have tail: "triple (\<lambda>w. fresh s rt w \<and> row_is uid Absent w) (tri (settle_with Ack) (\<lambda>_. kill_cleanup l uid job))
      (job_post s rt job uid Absent)"
  proof (rule tripleI)
    fix w r w' assume f: "fresh s rt w \<and> row_is uid Absent w"
      and r: "tri (settle_with Ack) (\<lambda>_. kill_cleanup l uid job) w = (r, w')"
    let ?w = "w\<lparr>settled := settled w @ [Ack]\<rparr>"
    have "acked s rt uid ?w" using f by (simp add: acked_def fresh_iff row_is_def)
    moreover have "kill_cleanup l uid job ?w = (r, w')" using r by (simp add: settle_with_def tri_eq)
    ultimately show "job_post s rt job uid Absent r w'" by (rule tripleD [OF kill_cleanup_post])
  qed
  have rec: "triple (fresh s rt) (kill_record l uid job) (job_post s rt job uid Absent)"
    unfolding kill_record_def ops_of_jobs
    by (rule row_handle [OF _ nack_post]) (simp add: tail)
  show ?thesis
    unfolding kill_def by (intro fresh_handle keeps_intros nack_post triple_if rec)
qed

section \<open>Redelivery\<close>

text \<open>One round of the consumer around a job, and its repetition as long as the broker gets \<open>Nack\<close>.\<close>

definition attempt :: "string \<Rightarrow> ('x, unit) act \<Rightarrow> ('x, unit) act \<Rightarrow> ('x, unit) act" where
  "attempt job run give_up =
     tri (get_field (\<lambda>w. retries w job))
       (\<lambda>n. if n = 3
            then tri (settle_with Ack) (\<lambda>_. tri give_up (\<lambda>_. forget_job job))
            else tri (set_field (\<lambda>w. w\<lparr>retries := (retries w)(job := retries w job + 1)\<rparr>)) (\<lambda>_. run))"

lemma consume_attempt: "ConsumeMessageInstance l m = attempt (JobID m) (run_job l m) (put_failure m)"
  by (simp add: ConsumeMessageInstance_def attempt_def)

fun deliver :: "nat \<Rightarrow> ('x, unit) act \<Rightarrow> ('x, unit) act" where
  "deliver 0 c = ret ()"
| "deliver (Suc n) c = tri c (\<lambda>_. tri (get_field (\<lambda>w. last (settled w))) (\<lambda>d. if d = Nack then deliver n c else ret ()))"

locale queue_job =
  fixes run :: "('x, unit) act" and give_up :: "('x, unit) act" and job :: string and uid :: int
    and goal :: ins_status
  assumes outcome: "triple (fresh s rt) run (job_post s rt job uid goal)"
    and give_up: "triple (fresh s rt) give_up (\<lambda>r w. r = Ok () \<and> fresh s rt w)"
begin

lemma attempt_run:
  assumes "retries w job \<noteq> 3" and "attempt job run give_up w = (r, w')"
  shows "job_post (settled w) ((retries w)(job := retries w job + 1)) job uid goal r w'"
proof -
  let ?w = "w\<lparr>retries := (retries w)(job := retries w job + 1)\<rparr>"
  have "run ?w = (r, w')" using assms by (simp add: attempt_def get_field_def set_field_def tri_eq)
  moreover have "fresh (settled w) ((retries w)(job := retries w job + 1)) ?w" by (simp add: fresh_iff)
  ultimately show ?thesis by (rule tripleD [OF outcome, rotated])
qed

lemma attempt_give_up:
  assumes "retries w job = 3" and "attempt job run give_up w = (r, w')"
  shows "r = Ok () \<and> settled w' = settled w @ [Ack] \<and> retries w' = (retries w)(job := 0)"
proof -
  let ?w = "w\<lparr>settled := settled w @ [Ack]\<rparr>"
  obtain q w1 where g: "give_up ?w = (q, w1)" by (metis prod.exhaust)
  have "fresh (settled w @ [Ack]) (retries w) ?w" by (simp add: fresh_iff)
  from tripleD [OF give_up this g] assms g show ?thesis
    by (auto simp: attempt_def get_field_def settle_with_def forget_job_def set_field_def tri_eq fresh_iff)
qed

text \<open>With the counter at \<open>3 - n\<close> the delivery is acknowledged after at most \<open>n\<close> more refusals.\<close>

lemma deliver_bounded:
  "n \<le> 3 \<Longrightarrow> retries w job = 3 - int n \<Longrightarrow> deliver (Suc n) (attempt job run give_up) w = (Ok (), w') \<Longrightarrow>
     \<exists>k \<le> n. settled w' = settled w @ replicate k Nack @ [Ack] \<and> retries w' job = 0"
proof (induction n arbitrary: w)
  case 0
  obtain r w1 where a: "attempt job run give_up w = (r, w1)" by (metis prod.exhaust)
  with 0 attempt_give_up [OF _ a] show ?case
    by (auto simp: tri_eq get_field_def ret_def)
next
  case (Suc n)
  obtain r w1 where a: "attempt job run give_up w = (r, w1)" by (metis prod.exhaust)
  have "retries w job \<noteq> 3" using Suc.prems(1,2) by simp
  note post = attempt_run [OF this a]
  have r: "r = Ok ()" using Suc.prems(3) a post by (cases r) (auto simp: tri_eq job_post_def)
  from post r consider
    (nack) "settled w1 = settled w @ [Nack]" "retries w1 job = 3 - int n"
  | (ack) "settled w1 = settled w @ [Ack]" "retries w1 job = 0"
    using Suc.prems(2) by (auto simp: job_post_def)
  then show ?case
  proof cases
    case nack
    with Suc.prems(3) a r have "deliver (Suc n) (attempt job run give_up) w1 = (Ok (), w')"
      by (simp add: tri_eq get_field_def)
    from Suc.IH [OF _ nack(2) this] Suc.prems(1) obtain k where
      "k \<le> n" "settled w' = settled w1 @ replicate k Nack @ [Ack]" "retries w' job = 0" by auto
    with nack(1) show ?thesis by (intro exI [of _ "Suc k"]) simp
  next
    case ack
    with Suc.prems(3) a r have "w' = w1" by (simp add: tri_eq get_field_def ret_def)
    with ack show ?thesis by (intro exI [of _ 0]) simp
  qed
qed

end

lemma put_failure_post:
  "triple (fresh s rt) (put_failure m) (\<lambda>r w. r = Ok () \<and> fresh s rt w)"
proof (rule tripleI)
  fix w r w' assume f: "fresh s rt w" and p: "put_failure m w = (r, w')"
  consider (put) q :: "(rds, unit) prog" where "quiet q" "logged (on_redis q) w = (r, w')" | (none) "r = Ok ()" "w' = w"
    using p by (fastforce simp: put_failure_def ret_def split: if_splits intro: redis_store_quiet)
  then show "r = Ok () \<and> fresh s rt w'"
  proof cases
    case put
    from logged_redis_run [OF this] f show ?thesis by (auto simp: fresh_iff)
  qed (use f in simp)
qed

interpretation deploy_job: queue_job "deploy l uid n job u p" "put_failure m" job uid Running for l uid n job u p m
  by unfold_locales (rule deploy_post, rule put_failure_post)

interpretation stop_job: queue_job "stop l uid n job" "put_failure m" job uid Stopped for l uid n job m
  by unfold_locales (rule stop_post, rule put_failure_post)

interpretation kill_job: queue_job "kill l uid n job" "put_failure m" job uid Absent for l uid n job m
  by unfold_locales (rule kill_post, rule put_failure_post)

definition known_action :: "InstanceQueueMessage \<Rightarrow> bool" where
  "known_action m \<longleftrightarrow> Action m \<in> {DEPLOY, STOP, KILL}"

definition target_of :: "InstanceQueueMessage \<Rightarrow> ins_status" where
  "target_of m = (if Action m = DEPLOY then Running else if Action m = STOP then Stopped else Absent)"

lemma run_job_post:
  "known_action m \<Longrightarrow> triple (fresh s rt) (run_job l m) (job_post s rt (JobID m) (UserID m) (target_of m))"
  using deploy_post stop_post kill_post by (auto simp: run_job_def known_action_def target_of_def)

text \<open>C24: a job that runs to its end settles its delivery exactly once, with \<open>Nack\<close> or with \<open>Ack\<close>, and
  when it is acknowledged the user's row in the database is in the state the job was for (running,
  stopped, absent), whatever LXD, Docker, Postgres, Redis and the disk do. A job that dies on the way has
  settled nothing, or it died after the acknowledgement, with the row in that state.\<close>

theorem job_settles_once:
  assumes "known_action m" and "run_job l m w = (r, w')"
  shows "(r = Ok () \<and> settled w' = settled w @ [Nack]) \<or>
    (r = Ok () \<and> settled w' = settled w @ [Ack] \<and> status_of (fst (pg w')) (UserID m) = target_of m) \<or>
    ((\<exists>c. r = Crash c) \<and> (settled w' = settled w \<or>
       settled w' = settled w @ [Ack] \<and> status_of (fst (pg w')) (UserID m) = target_of m))"
proof -
  have "fresh (settled w) (retries w) w" by (simp add: fresh_iff)
  from tripleD [OF run_job_post [OF assms(1)] this assms(2)] show ?thesis
    by (cases r) (auto simp: job_post_def row_is_def)
qed

text \<open>C25: a message that is delivered again after every \<open>Nack\<close> is acknowledged after at most three
  refusals: its fourth delivery is not run any more but answered with the failure result, and its
  counter is removed.\<close>

theorem job_gives_up:
  assumes "known_action m" and "retries w (JobID m) = 0"
    and "deliver 4 (ConsumeMessageInstance l m) w = (Ok (), w')"
  shows "\<exists>k \<le> 3. settled w' = settled w @ replicate k Nack @ [Ack] \<and> retries w' (JobID m) = 0"
proof -
  have d: "deliver (Suc 3) (attempt (JobID m) (run_job l m) (put_failure m)) w = (Ok (), w')"
    using assms(3) by (simp add: consume_attempt eval_nat_numeral)
  have z: "retries w (JobID m) = 3 - int 3" using assms(2) by simp
  have "run_job l m = deploy l (UserID m) (UserName m) (JobID m) (InsUser m) (InsPassword m) \<or>
      run_job l m = stop l (UserID m) (UserName m) (JobID m) \<or> run_job l m = kill l (UserID m) (UserName m) (JobID m)"
    using assms(1) by (auto simp: run_job_def known_action_def)
  then show ?thesis
    using deploy_job.deliver_bounded [OF _ z] stop_job.deliver_bounded [OF _ z] kill_job.deliver_bounded [OF _ z] d
    by (elim disjE) simp_all
qed

section \<open>A deployment that cannot be repaired\<close>

text \<open>C26: on a database that answers, a deployment whose container exists and runs is refused unless the
  user's row says stopped. A first deployment that failed after the start of the container has left no row, so
  every redelivery of it is refused too and nothing but a deletion helps; the branch that would have
  created the missing row is never taken.\<close>

theorem deploy_on_running_container:
  assumes "GetInstances (Conn l) (outside w) = (Ok names, x1)"
    and "ContainerName (CreateInstanceType uid n) \<in> set names"
    and "GetInstanceState (Conn l) (ContainerName (CreateInstanceType uid n)) x1 = (Ok ''Running'', x2)"
    and "pg w = (t, [])" and "status_of t uid \<noteq> Stopped"
  shows "deploy l uid n job u p w = (Ok (), w\<lparr>outside := x2, settled := settled w @ [Nack]\<rparr>)"
proof -
  let ?name = "ContainerName (CreateInstanceType uid n)"
  have c: "CreateInstance_lxd l ?name uid w = (Er (ErrText CONTAINER_ALREADY_EXISTS), w\<lparr>outside := x1\<rparr>)"
    using assms(1,2) by (simp add: CreateInstance_lxd_def ContainerExists_def extern_eq tri_eq ret_def fail_def)
  let ?w = "w\<lparr>outside := x1\<rparr>"
  have e: "on_pg (Exists_store uid) ?w = (Ok (rows_matching (\<lambda>r. i_user r = uid) (instances t) = 1), ?w)"
    using assms(4) by (simp add: on_pg_eq Exists_served same_pg)
  have s: "UpdateInstanceState l u p INSTANCE_START ?name ex uid ?w =
      (Er (ErrText CONTAINER_ALREADY_RUNNING), w\<lparr>outside := x2\<rparr>)" for ex
    using assms(3) by (simp add: UpdateInstanceState_def extern_eq tri_eq fail_def)
  obtain er where st: "StartInstance uid (t, []) = (Er er, (t, []))" "error_text er \<noteq> CONTAINER_START_FAILED"
    using StartInstance_refused [OF assms(5)] by blast
  have r: "deploy_record uid n u p True k (w\<lparr>outside := x2\<rparr>) =
      (Ok (), w\<lparr>outside := x2, settled := settled w @ [Nack]\<rparr>)" for k
    using st assms(4) by (simp add: deploy_record_def on_pg_eq handle_def nack_def settle_with_def same_pg)
  show ?thesis
    by (simp add: deploy_def deploy_rest_def Let_def handle_def c e s r)
qed

section \<open>Runs on a concrete host\<close>

text \<open>
  A small LXD for the concrete runs: containers with their status, every call answered; commands in a
  container can be made to fail.
\<close>

record host =
  containers :: "(string \<times> string) list"
  exec_fails :: bool

definition host_lxd :: "host lxd" where
  "host_lxd =
     \<lparr>GetImageAlias = (\<lambda>a. ret ()), not_found = (\<lambda>e. False), ConnectSimpleStreams = (\<lambda>u. ret ()),
      RemoteImageAlias = (\<lambda>a. ret a), RemoteImage = (\<lambda>a. ret a), CopyImage = (\<lambda>i a. ret ()),
      GetNetwork = (\<lambda>n. ret ()), CreateNetwork = (\<lambda>n c. ret ()), GetStoragePool = (\<lambda>n. ret ()),
      CreateStoragePool = (\<lambda>n d. ret ()),
      GetInstances = (\<lambda>h. (Ok (map fst (containers h)), h)),
      LxdCreate = (\<lambda>rq h. (Ok (), h\<lparr>containers := containers h @ [(Rq_Name rq, ''Stopped'')]\<rparr>)),
      GetInstanceState = (\<lambda>n h. (case map_of (containers h) n of None \<Rightarrow> (Er (ErrText ''not found''), h) | Some s \<Rightarrow> (Ok s, h))),
      LxdUpdate = (\<lambda>n a h. (Ok (), h\<lparr>containers :=
         map (\<lambda>(m, s). if m = n then (m, if a = INSTANCE_START then ''Running'' else ''Stopped'') else (m, s)) (containers h)\<rparr>)),
      DeleteContainer = (\<lambda>n h. (Ok (), h\<lparr>containers := filter (\<lambda>(m, s). m \<noteq> n) (containers h)\<rparr>)),
      ExecInstance = (\<lambda>n c h. if exec_fails h then (Er (ErrText ''exec''), h) else (Ok (), h)),
      GetContainerState = (\<lambda>n. ret [(''inet'', ''global'', ''172.30.0.2'')]),
      op_wait = ret ()\<rparr>"

definition host_kws :: "host LXDKWS" where
  "host_kws = \<lparr>Conn = host_lxd, Ip = \<lparr>CidrValue = 24\<rparr>, Docker = idle_docker\<rparr>"

definition host_world :: "tables \<Rightarrow> host \<Rightarrow> host world" where
  "host_world t h =
     \<lparr>pg = (t, []), redis = (Map.empty, []), disk = (Map.empty, []), session = (no_session, []), mails = [],
      settled = [], headers = Some Map.empty, retries = (\<lambda>_. 0), pool = [], outside = h\<rparr>"

definition job_of :: "string \<Rightarrow> InstanceQueueMessage" where
  "job_of action = \<lparr>JobID = ''j1'', UserID = 1, UserName = ''ann'', InsUser = ''ann'', InsPassword = ''pw'', Action = action\<rparr>"

definition one_account :: tables where
  "one_account = empty_tables\<lparr>users := [\<lparr>u_id = 1, u_first = ''Ann'', u_last = ''Lee'', u_email = ''ann.lee@gmail.com'',
     u_hash = ''pw'', u_name = ''ann.lee'', u_verified = True\<rparr>], next_user_id := 2\<rparr>"

definition empty_host :: host where
  "empty_host = \<lparr>containers = [], exec_fails = False\<rparr>"

theorem job_settles_once_witness:
  "status_of (fst (pg (snd (run_job host_kws (job_of DEPLOY) (host_world one_account empty_host))))) 1 = Running"
proof -
  let ?run = "run_job host_kws (job_of DEPLOY) (host_world one_account empty_host)"
  have "known_action (job_of DEPLOY)" by (simp add: known_action_def job_of_def)
  moreover have "?run = (fst ?run, snd ?run)" by simp
  moreover have "fst ?run = Ok ()" and "settled (snd ?run) = [Ack]" by code_simp+
  moreover have "target_of (job_of DEPLOY) = Running" "UserID (job_of DEPLOY) = 1" "settled (host_world one_account empty_host) = []"
    by (simp_all add: target_of_def job_of_def host_world_def)
  ultimately show ?thesis using job_settles_once [of "job_of DEPLOY" host_kws "host_world one_account empty_host" "fst ?run" "snd ?run"]
    by auto
qed

theorem job_gives_up_witness:
  "\<exists>k \<le> 3. settled (snd (deliver 4 (ConsumeMessageInstance host_kws (job_of DEPLOY))
       (host_world one_account (empty_host\<lparr>exec_fails := True\<rparr>)))) = replicate k Nack @ [Ack]"
proof -
  let ?w = "host_world one_account (empty_host\<lparr>exec_fails := True\<rparr>)"
  let ?run = "deliver 4 (ConsumeMessageInstance host_kws (job_of DEPLOY)) ?w"
  have "known_action (job_of DEPLOY)" by (simp add: known_action_def job_of_def)
  moreover have "retries ?w (JobID (job_of DEPLOY)) = 0" "settled ?w = []" by (simp_all add: host_world_def)
  moreover have "fst ?run = Ok ()" by code_simp
  then have "?run = (Ok (), snd ?run)" by (metis prod.collapse)
  ultimately show ?thesis using job_gives_up [of "job_of DEPLOY" ?w host_kws "snd ?run"] by auto
qed

lemma failed_provisioning_is_final:
  "settled (snd (deliver 4 (ConsumeMessageInstance host_kws (job_of DEPLOY))
       (host_world one_account (empty_host\<lparr>exec_fails := True\<rparr>)))) = [Nack, Nack, Nack, Ack]"
  by code_simp

lemma sample_container: "ContainerName (CreateInstanceType 1 ''ann'') = ''1-ann-instance''"
  by code_simp

definition busy_host :: host where
  "busy_host = \<lparr>containers = [(''1-ann-instance'', ''Running'')], exec_fails = False\<rparr>"

theorem deploy_on_running_container_witness:
  "settled (snd (deploy host_kws 1 ''ann'' ''j2'' ''ann'' ''pw'' (host_world one_account busy_host))) = [Nack]"
proof -
  have "GetInstances (Conn host_kws) busy_host = (Ok [''1-ann-instance''], busy_host)"
    and "GetInstanceState (Conn host_kws) ''1-ann-instance'' busy_host = (Ok ''Running'', busy_host)"
    and "status_of one_account 1 \<noteq> Stopped"
    by code_simp+
  then show ?thesis
    by (subst deploy_on_running_container [where names = "[''1-ann-instance'']" and t = one_account])
       (simp_all add: sample_container host_world_def)
qed

end
