(* ===== verification/Failed_Deletion.thy ===== *)
theory Failed_Deletion
  imports Instance_Worker Ip_Calls
begin

text \<open>
  A kill job whose container cannot be deleted, for example because stopping it failed, which the code only logs. The
  address is released before the container is deleted, so from the first attempt on it is in the pool while the container
  still has it, and every further attempt fails at the row that is already gone.
\<close>

text \<open>
  What is assumed of the client: as long as \<open>P\<close> holds of the host, the container is listed, whatever becomes of
  stopping it, its deletion is refused (with an error of LXD's own), and \<open>P\<close> still holds after each of these
  calls.
\<close>

definition undeletable :: "'x LXDKWS \<Rightarrow> string \<Rightarrow> ('x \<Rightarrow> bool) \<Rightarrow> bool" where
  "undeletable l name P \<longleftrightarrow>
     (\<forall>x. P x \<longrightarrow>
        (\<exists>ns x'. GetInstances (Conn l) x = (Ok ns, x') \<and> name \<in> set ns \<and> P x') \<and>
        P (snd (LxdUpdate (Conn l) name INSTANCE_STOP x)) \<and> (\<forall>c. fst (LxdUpdate (Conn l) name INSTANCE_STOP x) \<noteq> Crash c) \<and>
        P (snd (op_wait (Conn l) x)) \<and> (\<forall>c. fst (op_wait (Conn l) x) \<noteq> Crash c) \<and>
        (\<exists>e x'. DeleteContainer (Conn l) name x = (Er e, x') \<and> error_text e \<noteq> CONTAINER_NOT_FOUND_TO_DELETE \<and> P x'))"

lemma undeletableD:
  assumes "undeletable l name P" and "P x"
  shows "\<exists>ns x'. GetInstances (Conn l) x = (Ok ns, x') \<and> name \<in> set ns \<and> P x'"
    and "P (snd (LxdUpdate (Conn l) name INSTANCE_STOP x))" and "fst (LxdUpdate (Conn l) name INSTANCE_STOP x) \<noteq> Crash c"
    and "P (snd (op_wait (Conn l) x))" and "fst (op_wait (Conn l) x) \<noteq> Crash c"
    and "\<exists>e x'. DeleteContainer (Conn l) name x = (Er e, x') \<and> error_text e \<noteq> CONTAINER_NOT_FOUND_TO_DELETE \<and> P x'"
  using assms unfolding undeletable_def by blast+

text \<open>Stopping the container changes nothing but the host.\<close>

lemma stop_attempt:
  assumes "undeletable l name P" and "P (outside w)"
  shows "\<exists>x. logged (UpdateInstanceState l [] [] INSTANCE_STOP name True uid) w = (Ok (), w\<lparr>outside := x\<rparr>) \<and> P x"
proof -
  obtain ns x1 where 1: "GetInstances (Conn l) (outside w) = (Ok ns, x1)" "name \<in> set ns" "P x1"
    using undeletableD(1) [OF assms] by blast
  obtain r2 x2 where 2: "LxdUpdate (Conn l) name INSTANCE_STOP x1 = (r2, x2)" by (metis prod.exhaust)
  obtain r3 x3 where 3: "op_wait (Conn l) x2 = (r3, x3)" by (metis prod.exhaust)
  have P: "P x2" "r2 \<noteq> Crash c" for c using undeletableD(2,3) [OF assms(1) 1(3)] 2 by auto
  then have P3: "P x3" "r3 \<noteq> Crash c" for c using undeletableD(4,5) [OF assms(1) P(1)] 3 by auto
  have upd: "UpdateInstanceState l [] [] INSTANCE_STOP name True uid w =
      tri (extern (LxdUpdate (Conn l) name INSTANCE_STOP)) (\<lambda>_. tri (extern (op_wait (Conn l))) (\<lambda>_. ret ())) (w\<lparr>outside := x1\<rparr>)"
    using 1(1,2) by (simp add: UpdateInstanceState_def ContainerExists_def extern_eq prog_defs)
  consider e where "r2 = Er e" | "r2 = Ok ()" "r3 = Ok ()" | e where "r2 = Ok ()" "r3 = Er e"
    using P(2) P3(2) by (cases r2; cases r3) auto
  then show ?thesis
    using 2 3 P(1) P3(1) by cases (auto simp: logged_def handle_def upd tri_eq extern_eq ret_def)
qed

definition released :: "int \<Rightarrow> int \<Rightarrow> ('x \<Rightarrow> bool) \<Rightarrow> 'x world \<Rightarrow> bool" where
  "released uid ip P w \<longleftrightarrow> P (outside w) \<and> snd (pg w) = [] \<and> snd (redis w) = [] \<and> stack_ok LXC_IP (redis w) \<and>
     uid \<notin> ip_user ` set (userips (fst (pg w))) \<and> (\<exists>rest. free_ips LXC_IP (redis w) = ip # rest)"

lemma first_deletion:
  assumes "undeletable l name P" and "P (outside w)" and "pg w = (t, [])" and "redis w = (ks, [])"
    and "stack_ok LXC_IP (ks, [])" and "\<lparr>ip_user = uid, ip_addr = ip\<rparr> \<in> set (userips t)"
    and "distinct (map ip_user (userips t))" and "int64_range ip"
  shows "\<exists>e w'. DeleteInstance_lxd l uid name w = (Er e, w') \<and> error_text e \<noteq> CONTAINER_NOT_FOUND_TO_DELETE \<and>
    released uid ip P w' \<and> settled w' = settled w \<and> instances (fst (pg w')) = instances t \<and>
    users (fst (pg w')) = users t \<and> userips (fst (pg w')) = filter (\<lambda>r. ip_user r \<noteq> uid) (userips t)"
proof -
  obtain ns x1 where 1: "GetInstances (Conn l) (outside w) = (Ok ns, x1)" "name \<in> set ns" "P x1"
    using undeletableD(1) [OF assms(1,2)] by blast
  obtain x2 where 2: "logged (UpdateInstanceState l [] [] INSTANCE_STOP name True uid) (w\<lparr>outside := x1\<rparr>) =
      (Ok (), w\<lparr>outside := x2\<rparr>)" "P x2"
    using stop_attempt [OF assms(1), of "w\<lparr>outside := x1\<rparr>" uid] 1(3) by auto
  obtain e x3 where 3: "DeleteContainer (Conn l) name x2 = (Er e, x3)" "error_text e \<noteq> CONTAINER_NOT_FOUND_TO_DELETE" "P x3"
    using undeletableD(6) [OF assms(1) 2(2)] by blast
  note v = RemoveIP_served [OF assms(6,7)]
  note p = lpush_effect [OF assms(5) _ assms(8), of "[]"]
  have push: "PushFreeIp ip LXC_IP (ks, []) = (Ok (), (snd (r_lpush LXC_IP (itoa ip) ks), []))"
    using p(3) by (cases "r_lpush LXC_IP (itoa ip) ks") (simp add: PushFreeIp_def)
  let ?w = "w\<lparr>pg := (t\<lparr>userips := filter (\<lambda>r. ip_user r \<noteq> uid) (userips t)\<rparr>, []),
    redis := (snd (r_lpush LXC_IP (itoa ip) ks), []), outside := x3\<rparr>"
  have "DeleteInstance_lxd l uid name w = (Er e, ?w)"
    using 1(1,2) 2(1) 3(1) v push assms(3,4)
    by (simp add: DeleteInstance_lxd_def ContainerExists_def DeAllocateLXCIP_def act_eqs prog_defs)
  moreover have "released uid ip P ?w"
    using 3(3) p(1,2) by (auto simp: released_def)
  ultimately show ?thesis using 3(2) by auto
qed

lemma later_deletion:
  assumes "undeletable l name P" and "released uid ip P w"
  shows "\<exists>x. DeleteInstance_lxd l uid name w = (Er (ErrText PEER_DOES_NOT_EXIST), w\<lparr>outside := x\<rparr>) \<and> P x"
proof -
  have P: "P (outside w)" using assms(2) by (simp add: released_def)
  obtain t ks where db: "pg w = (t, [])" "redis w = (ks, [])"
    using assms(2) by (cases "pg w"; cases "redis w") (simp add: released_def)
  have "filter (\<lambda>r. ip_user r = uid) (userips t) = []" using assms(2) db by (auto simp: released_def filter_empty_conv)
  then have v: "sql_delete_userip uid t = (Er ErrNoRows, t)" by (simp add: sql_delete_userip_def)
  obtain ns x1 where 1: "GetInstances (Conn l) (outside w) = (Ok ns, x1)" "name \<in> set ns" "P x1"
    using undeletableD(1) [OF assms(1) P] by blast
  obtain x2 where 2: "logged (UpdateInstanceState l [] [] INSTANCE_STOP name True uid) (w\<lparr>outside := x1\<rparr>) =
      (Ok (), w\<lparr>outside := x2\<rparr>)" "P x2"
    using stop_attempt [OF assms(1), of "w\<lparr>outside := x1\<rparr>" uid] 1(3) by auto
  have "DeleteInstance_lxd l uid name w = (Er (ErrText PEER_DOES_NOT_EXIST), w\<lparr>outside := x2\<rparr>)"
    using 1(1,2) 2(1) v db
    by (simp add: DeleteInstance_lxd_def ContainerExists_def DeAllocateLXCIP_def RemoveIP_def act_eqs prog_defs same_pg)
  with 2(2) show ?thesis by blast
qed

text \<open>The deliveries of one kill job, none of which succeeds.\<close>

definition kills :: "'x LXDKWS \<Rightarrow> int \<Rightarrow> string \<Rightarrow> string \<Rightarrow> nat \<Rightarrow> 'x world \<Rightarrow> 'x world" where
  "kills l uid n job k = ((\<lambda>w. snd (kill l uid n job w)) ^^ k)"

lemma later_kill:
  assumes "undeletable l (ContainerName (CreateInstanceType uid n)) P" and "released uid ip P w"
  shows "\<exists>x. snd (kill l uid n job w) = w\<lparr>outside := x, settled := settled w @ [Nack]\<rparr> \<and> P x"
  using later_deletion [OF assms] by (auto simp: kill_def handle_def nack_def settle_with_def)

lemma later_kills:
  assumes "undeletable l (ContainerName (CreateInstanceType uid n)) P" and "released uid ip P w"
  shows "\<exists>x. kills l uid n job k w = w\<lparr>outside := x, settled := settled w @ replicate k Nack\<rparr> \<and> P x"
proof (induction k)
  case 0
  show ?case using assms(2) by (intro exI [of _ "outside w"]) (simp add: kills_def released_def)
next
  case (Suc k)
  then obtain x where x: "kills l uid n job k w = w\<lparr>outside := x, settled := settled w @ replicate k Nack\<rparr>" "P x" by blast
  then have "released uid ip P (kills l uid n job k w)" using assms(2) by (simp add: released_def)
  from later_kill [OF assms(1) this] x show ?case by (auto simp: kills_def replicate_append_same)
qed

lemma pop_released:
  assumes "released uid ip P w" and "known_user (fst (pg w)) v" and "v \<notin> ip_user ` set (userips (fst (pg w)))"
  shows "fst (AllocateFreeLXCIp al v w) = Ok (GenerateIPLXC ip)"
proof -
  obtain t ks where db: "pg w = (t, [])" "redis w = (ks, [])"
    using assms(1) by (cases "pg w"; cases "redis w") (simp add: released_def)
  with assms(1) have ok: "stack_ok LXC_IP (ks, [])" and top: "\<exists>rest. free_ips LXC_IP (ks, []) = ip # rest"
    by (simp_all add: released_def)
  obtain r s1 where p: "PopFreeIp LXC_IP (ks, []) = (r, s1)" by (metis prod.exhaust)
  have "r = Ok ip"
    using top p by (cases rule: stack_cases [OF ok]) (auto simp: PopFreeIp_def r_lpop_def prog_defs split: list.splits)
  with p assms(2,3) db show ?thesis
    by (simp add: AllocateFreeLXCIp_def on_pg_eq on_redis_eq prog_defs AddIP_def sql_insert_userip_def list_ex_iff image_iff
        split: if_splits) blast
qed

text \<open>C27: a kill job whose container LXD refuses to delete never succeeds: its first attempt has released the address, so
  every later one fails at the row that is gone, before it asks LXD to delete anything; the container and the row of
  its instance stay as they are. The address of the living container is on top of the stack: the next user who deploys is given it.\<close>

theorem failed_deletion_frees_address:
  assumes "undeletable l (ContainerName (CreateInstanceType uid n)) P" and "P (outside w)" and "pg w = (t, [])"
    and "redis w = (ks, [])" and "stack_ok LXC_IP (ks, [])" and "\<lparr>ip_user = uid, ip_addr = ip\<rparr> \<in> set (userips t)"
    and "distinct (map ip_user (userips t))" and "int64_range ip"
    and "known_user t v" and "v \<notin> ip_user ` set (userips t)"
  shows "let w' = kills l uid n job (Suc k) w
    in settled w' = settled w @ replicate (Suc k) Nack \<and> P (outside w') \<and>
       status_of (fst (pg w')) uid = status_of t uid \<and> fst (AllocateFreeLXCIp al v w') = Ok (GenerateIPLXC ip)"
proof -
  obtain e w1 where d: "DeleteInstance_lxd l uid (ContainerName (CreateInstanceType uid n)) w = (Er e, w1)"
      "error_text e \<noteq> CONTAINER_NOT_FOUND_TO_DELETE" "released uid ip P w1" "settled w1 = settled w"
    and t: "instances (fst (pg w1)) = instances t" "users (fst (pg w1)) = users t"
      "userips (fst (pg w1)) = filter (\<lambda>r. ip_user r \<noteq> uid) (userips t)"
    using first_deletion [OF assms(1-8)] by blast
  define w2 where "w2 = w1\<lparr>settled := settled w1 @ [Nack]\<rparr>"
  have k: "snd (kill l uid n job w) = w2"
    using d(1,2) by (simp add: kill_def handle_def nack_def settle_with_def w2_def)
  have rel: "released uid ip P w2" using d(3) by (simp add: released_def w2_def)
  obtain x where x: "kills l uid n job k w2 = w2\<lparr>outside := x, settled := settled w2 @ replicate k Nack\<rparr>" "P x"
    using later_kills [OF assms(1) rel] by blast
  have run: "kills l uid n job (Suc k) w = kills l uid n job k w2"
    by (simp add: kills_def funpow_Suc_right k del: funpow.simps)
  let ?w = "w2\<lparr>outside := x, settled := settled w2 @ replicate k Nack\<rparr>"
  have "released uid ip P ?w" using rel x(2) by (simp add: released_def)
  moreover have "known_user (fst (pg ?w)) v" "v \<notin> ip_user ` set (userips (fst (pg ?w)))"
    using assms(9,10) t by (auto simp: known_user_def w2_def)
  ultimately have "fst (AllocateFreeLXCIp al v ?w) = Ok (GenerateIPLXC ip)" by (rule pop_released)
  moreover have "status_of (fst (pg ?w)) uid = status_of t uid" using t(1) by (simp add: status_of_def w2_def)
  moreover have "settled ?w = settled w @ replicate (Suc k) Nack" using d(4) by (simp add: w2_def)
  ultimately show ?thesis using x(2) unfolding run x(1) Let_def by simp
qed

text \<open>A host that refuses to delete, as LXD does for a container that runs.\<close>

definition refusing_kws :: "host LXDKWS" where
  "refusing_kws = host_kws\<lparr>Conn := host_lxd\<lparr>LxdUpdate := (\<lambda>n a. fail (ErrText ''timeout'')),
     DeleteContainer := (\<lambda>n. fail (ErrText ''The instance is running''))\<rparr>\<rparr>"

definition two_accounts :: tables where
  "two_accounts = sample_tables\<lparr>instances := [instance_row_of 1 ''ann'' ''ann'' ''pw''],
     userips := [\<lparr>ip_user = 1, ip_addr = 2\<rparr>]\<rparr>"

theorem failed_deletion_frees_address_witness:
  "let w' = kills refusing_kws 1 ''ann'' ''j1'' 3 (host_world two_accounts busy_host)
    in settled w' = [Nack, Nack, Nack] \<and> outside w' = busy_host \<and>
       fst (AllocateFreeLXCIp al24 2 w') = Ok (GenerateIPLXC 2)"
proof -
  have u: "undeletable refusing_kws (ContainerName (CreateInstanceType 1 ''ann'')) (\<lambda>x. x = busy_host)"
    unfolding sample_container
    by (simp add: undeletable_def refusing_kws_def host_kws_def host_lxd_def busy_host_def fail_def ret_def)
  have "let w' = kills refusing_kws 1 ''ann'' ''j1'' (Suc 2) (host_world two_accounts busy_host)
    in settled w' = settled (host_world two_accounts busy_host) @ replicate (Suc 2) Nack \<and> outside w' = busy_host \<and>
       status_of (fst (pg w')) 1 = status_of two_accounts 1 \<and> fst (AllocateFreeLXCIp al24 2 w') = Ok (GenerateIPLXC 2)"
    by (rule failed_deletion_frees_address [OF u, where t = two_accounts and ks = Map.empty])
      (simp_all add: host_world_def stack_ok_def two_accounts_def known_user_def sample_tables_def int64_range_def)
  moreover have "settled (host_world two_accounts busy_host) = []" by (simp add: host_world_def)
  moreover have "Suc 2 = 3" "replicate (Suc 2) Nack = [Nack, Nack, Nack]" by (simp_all add: numeral_2_eq_2)
  ultimately show ?thesis unfolding Let_def by (metis append_Nil)
qed

end
