(* ===== verification/Healthy_Host.thy ===== *)
theory Healthy_Host
  imports Instance_Worker Address_Race
begin

text \<open>
  What LXD and Docker are documented to do, as an assumption of their clients, and a calculus of runs in which
  Postgres, Redis, the disk and these clients all answer: the world changes step by step, and of the outside only the
  containers count.
\<close>

section \<open>A host that works\<close>

text \<open>
  The containers of the host: whether each runs, and the static address it was made with. What an operation does is
  there when waiting for it has come back.
\<close>

type_synonym containers = "string \<Rightarrow> (bool \<times> string) option"

definition static_address :: "lxd_request \<Rightarrow> string option" where
  "static_address rq =
     (case map_of (Rq_Devices rq) ''eth0'' of None \<Rightarrow> None | Some d \<Rightarrow> map_of d ''ipv4.address'')"

definition operation :: "'x LXDKWS \<Rightarrow> ('x \<Rightarrow> containers) \<Rightarrow> ('x, unit) call \<Rightarrow> 'x \<Rightarrow> containers \<Rightarrow> bool" where
  "operation l view call x v \<longleftrightarrow>
     (\<exists>x1 x2. call x = (Ok (), x1) \<and> op_wait (Conn l) x1 = (Ok (), x2) \<and> view x2 = v)"

definition answers :: "('x \<Rightarrow> containers) \<Rightarrow> ('x, 'a) call \<Rightarrow> 'x \<Rightarrow> ('a \<Rightarrow> bool) \<Rightarrow> bool" where
  "answers view call x P \<longleftrightarrow> (\<exists>y x'. call x = (Ok y, x') \<and> P y \<and> view x' = view x)"

definition refuses :: "('x \<Rightarrow> containers) \<Rightarrow> ('x, 'a) call \<Rightarrow> 'x \<Rightarrow> bool" where
  "refuses view call x \<longleftrightarrow> (\<exists>e x'. call x = (Er e, x') \<and> view x' = view x)"

definition healthy :: "'x LXDKWS \<Rightarrow> ('x \<Rightarrow> containers) \<Rightarrow> bool" where
  "healthy l view \<longleftrightarrow> (\<forall>x.
     answers view (GetInstances (Conn l)) x (\<lambda>ns. set ns = dom (view x)) \<and>
     (\<forall>rq a. view x (Rq_Name rq) = None \<longrightarrow> static_address rq = Some a \<longrightarrow>
        operation l view (LxdCreate (Conn l) rq) x ((view x)(Rq_Name rq \<mapsto> (False, a)))) \<and>
     (\<forall>n running a. view x n = Some (running, a) \<longrightarrow>
        answers view (GetInstanceState (Conn l) n) x (\<lambda>s. s = ''Running'' \<longleftrightarrow> running)) \<and>
     (\<forall>n a. view x n = Some (False, a) \<longrightarrow>
        operation l view (LxdUpdate (Conn l) n INSTANCE_START) x ((view x)(n \<mapsto> (True, a))) \<and>
        operation l view (DeleteContainer (Conn l) n) x ((view x)(n := None)) \<and>
        refuses view (LxdUpdate (Conn l) n INSTANCE_STOP) x) \<and>
     (\<forall>n a. view x n = Some (True, a) \<longrightarrow>
        operation l view (LxdUpdate (Conn l) n INSTANCE_STOP) x ((view x)(n \<mapsto> (False, a))) \<and>
        (\<forall>c. operation l view (ExecInstance (Conn l) n c) x (view x)) \<and>
        answers view (GetContainerState (Conn l) n) x
          (\<lambda>as. \<exists>rest. filter (\<lambda>(family, scope, address). family = ''inet'' \<and> scope = ''global'') as =
             (''inet'', ''global'', a) # rest)) \<and>
     (\<forall>c cmd. answers view (ContainerExecCreate (Docker l) c cmd) x (\<lambda>_. True)) \<and>
     (\<forall>i. answers view (ContainerExecAttach (Docker l) i) x (\<lambda>_. True)) \<and>
     answers view (copy_output (Docker l)) x (\<lambda>_. True))"

section \<open>Runs in which everything answers\<close>

text \<open>
  The state is a world, whose \<open>outside\<close> does not count, and the containers. \<open>runs view s m r s'\<close>: from \<open>s\<close>, \<open>m\<close> gives
  \<open>r\<close> and leaves \<open>s'\<close>.
\<close>

definition runs :: "('x \<Rightarrow> containers) \<Rightarrow> 'x world \<times> containers \<Rightarrow> ('x, 'a) act \<Rightarrow> 'a \<Rightarrow> 'x world \<times> containers \<Rightarrow> bool" where
  "runs view s m r s' \<longleftrightarrow>
     (\<forall>x. view x = snd s \<longrightarrow> (\<exists>x'. m ((fst s)\<lparr>outside := x\<rparr>) = (Ok r, (fst s')\<lparr>outside := x'\<rparr>) \<and> view x' = snd s'))"

lemma runsI:
  "(\<And>x. view x = v \<Longrightarrow> \<exists>x'. m (w\<lparr>outside := x\<rparr>) = (Ok r, w'\<lparr>outside := x'\<rparr>) \<and> view x' = v') \<Longrightarrow>
     runs view (w, v) m r (w', v')"
  by (simp add: runs_def)

lemma runsD:
  assumes "runs view (w, v) m r (w', v')" and "view (outside w) = v"
  shows "\<exists>x. m w = (Ok r, w'\<lparr>outside := x\<rparr>) \<and> view x = v'"
proof -
  have "w\<lparr>outside := outside w\<rparr> = w" by simp
  with assms show ?thesis by (auto simp: runs_def dest!: spec [of _ "outside w"])
qed

lemma runs_handle:
  assumes "runs view s m r s1" and "runs view s1 (k r) q s2"
  shows "runs view s (handle m h k) q s2"
  using assms unfolding runs_def handle_def by fastforce

lemma runs_tri: "runs view s m r s1 \<Longrightarrow> runs view s1 (k r) q s2 \<Longrightarrow> runs view s (tri m k) q s2"
  unfolding tri_def by (rule runs_handle)

lemma runs_refused:
  assumes "\<And>x. m (w\<lparr>outside := x\<rparr>) = (Er e, w\<lparr>outside := x\<rparr>)" and "runs view (w, v) (h e) q s'"
  shows "runs view (w, v) (handle m h k) q s'"
  using assms by (simp add: runs_def handle_def)

lemma runs_ret: "runs view s (ret r) r s"
  by (auto simp: runs_def ret_def)

lemma runs_logged: "runs view s m r s' \<Longrightarrow> runs view s (logged m) () s'"
  unfolding logged_def by (rule runs_handle [OF _ runs_ret])

lemma runs_wrap: "runs view s m r s' \<Longrightarrow> runs view s (wrap_error msg m) r s'"
  unfolding wrap_error_def by (rule runs_handle [OF _ runs_ret])

lemma outside_last:
  "w\<lparr>outside := x, pg := p\<rparr> = w\<lparr>pg := p, outside := x\<rparr>" "w\<lparr>outside := x, redis := r\<rparr> = w\<lparr>redis := r, outside := x\<rparr>"
  "w\<lparr>outside := x, disk := d\<rparr> = w\<lparr>disk := d, outside := x\<rparr>"
  "w\<lparr>outside := x, settled := s\<rparr> = w\<lparr>settled := s, outside := x\<rparr>"
  "w\<lparr>outside := x, retries := n\<rparr> = w\<lparr>retries := n, outside := x\<rparr>"
  by simp_all

text \<open>The order in which the fields of a world are written here.\<close>

lemma field_order:
  "w\<lparr>redis := r, pg := p\<rparr> = w\<lparr>pg := p, redis := r\<rparr>" "w\<lparr>disk := d, pg := p\<rparr> = w\<lparr>pg := p, disk := d\<rparr>"
  "w\<lparr>disk := d, redis := r\<rparr> = w\<lparr>redis := r, disk := d\<rparr>" "w\<lparr>settled := s, pg := p\<rparr> = w\<lparr>pg := p, settled := s\<rparr>"
  "w\<lparr>settled := s, redis := r\<rparr> = w\<lparr>redis := r, settled := s\<rparr>" "w\<lparr>settled := s, disk := d\<rparr> = w\<lparr>disk := d, settled := s\<rparr>"
  "w\<lparr>retries := n, pg := p\<rparr> = w\<lparr>pg := p, retries := n\<rparr>" "w\<lparr>retries := n, redis := r\<rparr> = w\<lparr>redis := r, retries := n\<rparr>"
  "w\<lparr>retries := n, disk := d\<rparr> = w\<lparr>disk := d, retries := n\<rparr>"
  "w\<lparr>retries := n, settled := s\<rparr> = w\<lparr>settled := s, retries := n\<rparr>"
  by simp_all

lemma runs_pg: "m (pg w) = (Ok r, d) \<Longrightarrow> runs view (w, v) (on_pg m) r (w\<lparr>pg := d\<rparr>, v)"
  by (auto simp: runs_def on_pg_eq outside_last)

lemma runs_redis: "m (redis w) = (Ok r, d) \<Longrightarrow> runs view (w, v) (on_redis m) r (w\<lparr>redis := d\<rparr>, v)"
  by (auto simp: runs_def on_redis_eq outside_last)

lemma runs_disk: "m (disk w) = (Ok r, d) \<Longrightarrow> runs view (w, v) (on_disk m) r (w\<lparr>disk := d\<rparr>, v)"
  by (auto simp: runs_def on_disk_eq outside_last)

lemma runs_settle: "runs view (w, v) (settle_with d) () (w\<lparr>settled := settled w @ [d]\<rparr>, v)"
  by (auto simp: runs_def settle_with_def outside_last)

lemma runs_ask:
  assumes "\<And>x. view x = v \<Longrightarrow> answers view call x P" and "\<And>y. P y \<Longrightarrow> runs view (w, v) (k y) q s'"
  shows "runs view (w, v) (handle (extern call) h k) q s'"
  unfolding runs_def
proof (intro allI impI)
  fix x assume "view x = snd (w, v)"
  then obtain y x1 where 1: "call x = (Ok y, x1)" "P y" "view x1 = v" using assms(1) [of x] by (auto simp: answers_def)
  from assms(2) [OF 1(2)] 1(3) obtain x2 where
    "k y (w\<lparr>outside := x1\<rparr>) = (Ok q, (fst s')\<lparr>outside := x2\<rparr>)" "view x2 = snd s'" by (auto simp: runs_def)
  with 1(1) show "\<exists>x'. handle (extern call) h k ((fst (w, v))\<lparr>outside := x\<rparr>) = (Ok q, (fst s')\<lparr>outside := x'\<rparr>) \<and>
      view x' = snd s'" by (auto simp: handle_def extern_eq)
qed

lemma runs_answer:
  assumes "\<And>x. view x = v \<Longrightarrow> answers view call x (\<lambda>_ :: unit. True)"
  shows "runs view (w, v) (extern call) () (w, v)"
  using assms by (fastforce simp: runs_def answers_def extern_eq)

lemma runs_operation:
  assumes "\<And>x. view x = v \<Longrightarrow> operation l view call x v'"
  shows "runs view (w, v) (tri (extern call) (\<lambda>_. extern (op_wait (Conn l)))) () (w, v')"
  using assms by (fastforce simp: runs_def operation_def extern_eq tri_eq)

section \<open>What the client is asked\<close>

lemma healthyD:
  assumes "healthy l view"
  shows "answers view (GetInstances (Conn l)) x (\<lambda>ns. set ns = dom (view x))"
    and "view x (Rq_Name rq) = None \<Longrightarrow> static_address rq = Some a \<Longrightarrow>
        operation l view (LxdCreate (Conn l) rq) x ((view x)(Rq_Name rq \<mapsto> (False, a)))"
    and "view x n = Some (running, a) \<Longrightarrow>
        answers view (GetInstanceState (Conn l) n) x (\<lambda>s. s = ''Running'' \<longleftrightarrow> running)"
    and "view x n = Some (False, a) \<Longrightarrow>
        operation l view (LxdUpdate (Conn l) n INSTANCE_START) x ((view x)(n \<mapsto> (True, a)))"
    and "view x n = Some (False, a) \<Longrightarrow> operation l view (DeleteContainer (Conn l) n) x ((view x)(n := None))"
    and "view x n = Some (True, a) \<Longrightarrow>
        operation l view (LxdUpdate (Conn l) n INSTANCE_STOP) x ((view x)(n \<mapsto> (False, a)))"
    and "view x n = Some (True, a) \<Longrightarrow> operation l view (ExecInstance (Conn l) n c) x (view x)"
    and "view x n = Some (True, a) \<Longrightarrow> answers view (GetContainerState (Conn l) n) x
          (\<lambda>as. \<exists>rest. filter (\<lambda>(family, scope, address). family = ''inet'' \<and> scope = ''global'') as =
             (''inet'', ''global'', a) # rest)"
    and "answers view (ContainerExecCreate (Docker l) c' cmd) x (\<lambda>_. True)"
    and "answers view (ContainerExecAttach (Docker l) i) x (\<lambda>_. True)"
    and "answers view (copy_output (Docker l)) x (\<lambda>_. True)"
    and "view x n = Some (False, a) \<Longrightarrow> refuses view (LxdUpdate (Conn l) n INSTANCE_STOP) x"
  using assms by (simp_all add: healthy_def)

lemma runs_exists:
  assumes "healthy l view"
  shows "runs view (w, v) (ContainerExists l n) (n \<in> dom v) (w, v)"
proof -
  have "answers view (GetInstances (Conn l)) x (\<lambda>ns. set ns = dom v)" if "view x = v" for x
    using healthyD(1) [OF assms, of x] that by simp
  note ask = runs_ask [OF this]
  show ?thesis unfolding ContainerExists_def tri_def by (rule ask, assumption, erule ssubst, rule runs_ret)
qed

lemma runs_command:
  assumes "healthy l view" and "v n = Some (True, a)"
  shows "runs view (w, v) (RunCommand l n c) () (w, v)"
  unfolding RunCommand_def using healthyD(7) [OF assms(1)] assms(2) by (metis runs_operation)

lemma runs_commands:
  assumes "healthy l view" and "v n = Some (True, a)"
  shows "runs view (w, v) (CreateUser_lxd l n u p) () (w, v)" "runs view (w, v) (InstallEssentials l n) () (w, v)"
    "runs view (w, v) (SetNetplanDNS l n d) () (w, v)" "runs view (w, v) (InstallCodeServer l n) () (w, v)"
    "runs view (w, v) (ConfigSSH l n) () (w, v)" "runs view (w, v) (ConfigureCodeServerLXC l n u p) () (w, v)"
    "runs view (w, v) (StartCodeServer l n u) () (w, v)"
  unfolding CreateUser_lxd_def InstallEssentials_def SetNetplanDNS_def InstallCodeServer_def ConfigSSH_def
    ConfigureCodeServerLXC_def StartCodeServer_def Let_def
  by (rule runs_tri runs_logged runs_wrap runs_command [where v = v and n = n, OF assms])+

lemma runs_reload:
  assumes "healthy l view"
  shows "runs view (w, v) (ReloadNginxConf (Docker l) c) () (w, v)"
  unfolding ReloadNginxConf_def ExecAndPrint_def
  by (rule runs_handle [OF _ runs_ret] runs_ask [OF healthyD(9) [OF assms]] runs_ask [OF healthyD(10) [OF assms]]
      runs_answer [OF healthyD(11) [OF assms]])+

lemma runs_address:
  assumes "healthy l view" and "v n = Some (True, a)"
  shows "runs view (w, v) (FindContainerIP l n) a (w, v)"
  unfolding FindContainerIP_def
  by (rule runs_ask [OF healthyD(8) [OF assms(1)]]) (use assms(2) in \<open>auto intro: runs_ret\<close>)

lemma tri_tri: "tri (tri m k) h = tri m (\<lambda>x. tri (k x) h)"
  by (rule ext) (simp add: tri_eq split: prod.split res.split)

lemma runs_operation_then:
  assumes "\<And>x. view x = v \<Longrightarrow> operation l view call x v'" and "runs view (w, v') k q s'"
  shows "runs view (w, v) (tri (extern call) (\<lambda>_. tri (extern (op_wait (Conn l))) (\<lambda>_. k))) q s'"
  using runs_tri [OF runs_operation [OF assms(1)] assms(2)] by (simp add: tri_tri)

end
