(* ===== verification/Container_Life.thy ===== *)
theory Container_Life
  imports Healthy_Host "HOL-Library.AList"
begin

text \<open>
  A deployment and a deletion from the delivery of the message to the answer of the poll, on a host that works
  (\<open>healthy\<close>) and servers that answer. The lemmas follow the container, the address, the rows, the published name, its
  configuration file and the result through both jobs.
\<close>

section \<open>Parts of the two jobs\<close>

lemma runs_pop:
  assumes "stack_ok LXC_IP (ks, [])"
  obtains (some) ip ks' where "PopFreeIp LXC_IP (ks, []) = (Ok ip, (ks', []))" "stack_ok LXC_IP (ks', [])"
      "free_ips LXC_IP (ks, []) = ip # free_ips LXC_IP (ks', [])"
  | (none) "PopFreeIp LXC_IP (ks, []) = (Er (ErrText EMPTY_IP_STACK), (ks, []))" "free_ips LXC_IP (ks, []) = []"
proof (cases "r_lpop LXC_IP ks")
  case (Pair r ks')
  note p = lpop_effect [OF assms, of "[]", unfolded Pair]
  show thesis
  proof (cases r)
    case (Ok v)
    with p(1,2) obtain n where "atoi v = Some n" "free_ips LXC_IP (ks, []) = n # free_ips LXC_IP (ks', [])" by auto
    with some [of n ks'] Ok Pair p(1) show thesis by (simp add: PopFreeIp_def prog_defs)
  next
    case (Er e)
    with p(3) none Pair show thesis by (simp add: PopFreeIp_def prog_defs)
  next
    case (Crash c)
    with Pair show thesis by (auto simp: r_lpop_def split: option.splits content.splits list.splits)
  qed
qed

text \<open>An address is there: on the stack, or the one after the highest in the table.\<close>

definition address_left :: "int \<Rightarrow> tables \<Rightarrow> keyspace \<Rightarrow> bool" where
  "address_left m t ks \<longleftrightarrow>
     free_ips LXC_IP (ks, []) \<noteq> [] \<or> ip_column t = [] \<or> next_ip (ip_column t) \<le> m"

lemma runs_allocation:
  assumes "pg w = (t, [])" and "redis w = (ks, [])" and "stack_ok LXC_IP (ks, [])"
    and "address_left (FindNoOfUsableHostsDocker al) t ks" and "known_user t uid" and "uid \<notin> ip_user ` set (userips t)"
  obtains ip ks' where
    "runs view (w, v) (AllocateFreeLXCIp al uid) (GenerateIPLXC ip)
       (w\<lparr>pg := (t\<lparr>userips := userips t @ [\<lparr>ip_user = uid, ip_addr = ip\<rparr>]\<rparr>, []), redis := (ks', [])\<rparr>, v)"
    and "stack_ok LXC_IP (ks', [])" and "free_ips LXC_IP (ks', []) = tl (free_ips LXC_IP (ks, []))"
    and "ip = (if free_ips LXC_IP (ks, []) = [] then next_ip (ip_column t) else hd (free_ips LXC_IP (ks, [])))"
using assms(3)
proof (cases rule: runs_pop)
  case (some ip ks')
  let ?t = "t\<lparr>userips := userips t @ [\<lparr>ip_user = uid, ip_addr = ip\<rparr>]\<rparr>"
  have "AddIP uid ip (t, []) = (Ok (), (?t, []))" using insert_row [OF assms(5,6)] by (simp add: AddIP_def)
  then have add: "runs view (w\<lparr>redis := (ks', [])\<rparr>, v) (on_pg (AddIP uid ip)) () (w\<lparr>pg := (?t, []), redis := (ks', [])\<rparr>, v)"
    using runs_pg [of "AddIP uid ip" "w\<lparr>redis := (ks', [])\<rparr>"] assms(1) by (simp add: field_order)
  have pop: "runs view (w, v) (on_redis (PopFreeIp LXC_IP)) ip (w\<lparr>redis := (ks', [])\<rparr>, v)"
    using some(1) assms(2) by (intro runs_redis) simp
  have "runs view (w, v) (AllocateFreeLXCIp al uid) (GenerateIPLXC ip) (w\<lparr>pg := (?t, []), redis := (ks', [])\<rparr>, v)"
    unfolding AllocateFreeLXCIp_def by (rule runs_handle [OF pop], rule runs_tri [OF add], rule runs_ret)
  then show thesis by (rule that) (simp_all add: some(2,3))
next
  case none
  let ?ip = "next_ip (ip_column t)"
  let ?t = "t\<lparr>userips := userips t @ [\<lparr>ip_user = uid, ip_addr = ?ip\<rparr>]\<rparr>"
  have "maxRetries = Suc 4" by (simp add: maxRetries_def)
  then have "AllocateNextFreeIP_lxc (FindNoOfUsableHostsDocker al) uid (t, []) = (Ok ?ip, (?t, []))"
    using tx_loop_served [of ip_column t "FindNoOfUsableHostsDocker al" "sql_insert_userip uid" ?t 4 0]
      insert_row [OF assms(5,6)] assms(4) none(2)
    by (simp add: AllocateNextFreeIP_lxc_def address_left_def)
  then have "runs view (w, v) (on_pg (AllocateNextFreeIP_lxc (FindNoOfUsableHostsDocker al) uid)) ?ip (w\<lparr>pg := (?t, [])\<rparr>, v)"
    using assms(1) by (intro runs_pg) simp
  note grown = runs_tri [OF this runs_ret]
  have "on_redis (PopFreeIp LXC_IP) (w\<lparr>outside := x\<rparr>) = (Er (ErrText EMPTY_IP_STACK), w\<lparr>outside := x\<rparr>)" for x
    using none(1) assms(2) by (simp add: on_redis_eq)
  note empty = runs_refused [OF this]
  have "runs view (w, v) (AllocateFreeLXCIp al uid) (GenerateIPLXC ?ip) (w\<lparr>pg := (?t, [])\<rparr>, v)"
    unfolding AllocateFreeLXCIp_def by (rule empty, simp, rule grown)
  moreover have "w\<lparr>pg := (?t, [])\<rparr> = w\<lparr>pg := (?t, []), redis := (ks, [])\<rparr>" using assms(2) by simp
  ultimately have "runs view (w, v) (AllocateFreeLXCIp al uid) (GenerateIPLXC ?ip) (w\<lparr>pg := (?t, []), redis := (ks, [])\<rparr>, v)"
    by metis
  then show thesis by (rule that) (simp_all add: assms(3) none(2))
qed

lemma runs_creation:
  assumes "healthy l view" and "v name = None"
    and "runs view (w, v) (AllocateFreeLXCIp (Ip l) uid) ip (w', v)"
  shows "runs view (w, v) (CreateInstance_lxd l name uid) () (w', v(name \<mapsto> (False, ip)))"
proof -
  have "static_address (container_request name ip) = Some ip" "Rq_Name (container_request name ip) = name"
    by (simp_all add: static_address_def container_request_def)
  with healthyD(2) [OF assms(1), of _ "container_request name ip" ip] assms(2)
  have "operation l view (LxdCreate (Conn l) (container_request name ip)) x (v(name \<mapsto> (False, ip)))" if "view x = v" for x
    using that by auto
  note run = runs_operation [OF this]
  have ex: "runs view (w, v) (ContainerExists l name) False (w, v)"
    using runs_exists [OF assms(1), of w v name] assms(2) by (simp add: domIff)
  show ?thesis
    unfolding CreateInstance_lxd_def by (rule runs_tri [OF ex], simp, rule runs_tri [OF assms(3)], rule run)
qed

lemma runs_start:
  assumes "healthy l view" and "v name = Some (False, ip)"
    and "runs view (w, v(name \<mapsto> (True, ip))) (provision l u p name uid) () s'"
  shows "runs view (w, v) (UpdateInstanceState l u p INSTANCE_START name False uid) () s'"
proof -
  have state: "answers view (GetInstanceState (Conn l) name) x (\<lambda>s. s \<noteq> ''Running'')" if "view x = v" for x
    using healthyD(3) [OF assms(1), of x name False ip] assms(2) that by simp
  have "operation l view (LxdUpdate (Conn l) name INSTANCE_START) x (v(name \<mapsto> (True, ip)))" if "view x = v" for x
    using healthyD(4) [OF assms(1), of x name ip] assms(2) that by auto
  note start = runs_operation_then [OF this assms(3)]
  have asked: "runs view (w, v) (tri (extern (GetInstanceState (Conn l) name))
      (\<lambda>s. if s = ''Running'' then fail (ErrText CONTAINER_ALREADY_RUNNING) else ret ())) () (w, v)"
    unfolding tri_def by (rule runs_ask [OF state], assumption) (simp add: runs_ret)
  show ?thesis
    unfolding UpdateInstanceState_def
    by (simp, rule runs_tri [OF asked], rule runs_tri [OF runs_ret], rule start) assumption
qed

lemma runs_provision:
  assumes "healthy l view" and "v name = Some (True, ip)" and "pg w = (t, [])" and "disk w = (fs, [])"
    and "known_user t uid" and "name \<notin> d_name ` set (domains t)"
  shows "runs view (w, v) (provision l u p name uid) ()
    (w\<lparr>pg := (t\<lparr>domains := domains t @ [\<lparr>d_user = uid, d_name = name, d_port = 8099, d_code = True\<rparr>]\<rparr>, []),
       disk := (fs(conf_path name \<mapsto> nginxTemplate \<lparr>T_Domain = name, T_IP = ip, T_Port = ''8099''\<rparr>), [])\<rparr>, v)"
proof -
  note cmds = runs_commands [where v = v and n = name and w = w, OF assms(1,2)]
  let ?t = "t\<lparr>domains := domains t @ [\<lparr>d_user = uid, d_name = name, d_port = 8099, d_code = True\<rparr>]\<rparr>"
  let ?d = "\<lparr>T_Domain = name, T_IP = ip, T_Port = ''8099''\<rparr>"
  have "AddDomain (code_server_domain uid name) (t, []) = (Ok (), (?t, []))"
    using assms(5,6) by (auto simp: AddDomain_def code_server_domain_def sql_insert_domain_def prog_defs list_ex_iff)
  then have add: "runs view (w, v) (on_pg (AddDomain (code_server_domain uid name))) () (w\<lparr>pg := (?t, [])\<rparr>, v)"
    using assms(3) by (intro runs_pg) simp
  have "AddNewConf ?d INSTANCE_TEMPLATE (fs, []) = (Ok (), (fs(conf_path name \<mapsto> nginxTemplate ?d), []))"
    by (simp add: AddNewConf_def os_write_def prog_defs Let_def)
  then have conf: "runs view (w\<lparr>pg := (?t, [])\<rparr>, v) (on_disk (AddNewConf ?d INSTANCE_TEMPLATE)) ()
      (w\<lparr>pg := (?t, []), disk := (fs(conf_path name \<mapsto> nginxTemplate ?d), [])\<rparr>, v)"
    using assms(4) by (intro runs_disk) simp
  show ?thesis
    unfolding provision_def expose_code_server_def
    by (rule runs_tri [OF cmds(1)], rule runs_tri [OF cmds(2)], rule runs_tri [OF cmds(3)], rule runs_tri [OF cmds(4)],
        rule runs_tri [OF cmds(5)], rule runs_tri [OF cmds(6)], rule runs_tri [OF cmds(7)],
        rule runs_tri [OF runs_address [where v = v and n = name, OF assms(1,2)]], rule runs_tri [OF add],
        rule runs_tri [OF conf], rule runs_handle [OF runs_reload [OF assms(1)] runs_ret])
qed

lemma runs_forget: "runs view (w, v) (forget_job j) () (w\<lparr>retries := (retries w)(j := 0)\<rparr>, v)"
  by (auto simp: runs_def forget_job_def set_field_def outside_last)

text \<open>One delivery whose counter has not run out.\<close>

lemma runs_delivery:
  assumes "retries w (JobID m) \<noteq> 3"
    and "runs view (w\<lparr>retries := (retries w)(JobID m := retries w (JobID m) + 1)\<rparr>, v) (run_job l m) r s'"
  shows "runs view (w, v) (ConsumeMessageInstance l m) r s'"
proof -
  let ?n = "(retries w)(JobID m := retries w (JobID m) + 1)"
  have "ConsumeMessageInstance l m (w\<lparr>outside := x\<rparr>) = run_job l m (w\<lparr>retries := ?n, outside := x\<rparr>)" for x
    using assms(1) by (simp add: ConsumeMessageInstance_def tri_eq get_field_def set_field_def outside_last)
  with assms(2) show ?thesis by (simp add: runs_def)
qed

text \<open>The world \<open>w\<close> with servers that answer and hold these contents.\<close>

definition serving :: "'x world \<Rightarrow> tables \<Rightarrow> keyspace \<Rightarrow> files \<Rightarrow> settle list \<Rightarrow> 'x world" where
  "serving w t ks fs told = w\<lparr>pg := (t, []), redis := (ks, []), disk := (fs, []), settled := told\<rparr>"

lemma serving_self:
  "pg w = (t, []) \<Longrightarrow> redis w = (ks, []) \<Longrightarrow> disk w = (fs, []) \<Longrightarrow> serving w t ks fs (settled w) = w"
  by (simp add: serving_def)

lemma serving_pg:
  "m (t, []) = (Ok x, (t', [])) \<Longrightarrow> runs view (serving w t ks fs told, v) (on_pg m) x (serving w t' ks fs told, v)"
  using runs_pg [of m "serving w t ks fs told" x "(t', [])"] by (simp add: serving_def field_order)

lemma serving_redis:
  "m (ks, []) = (Ok x, (ks', [])) \<Longrightarrow> runs view (serving w t ks fs told, v) (on_redis m) x (serving w t ks' fs told, v)"
  using runs_redis [of m "serving w t ks fs told" x "(ks', [])"] by (simp add: serving_def field_order)

lemma serving_disk:
  "m (fs, []) = (Ok x, (fs', [])) \<Longrightarrow> runs view (serving w t ks fs told, v) (on_disk m) x (serving w t ks fs' told, v)"
  using runs_disk [of m "serving w t ks fs told" x "(fs', [])"] by (simp add: serving_def field_order)

lemma serving_settle:
  "runs view (serving w t ks fs told, v) (settle_with d) () (serving w t ks fs (told @ [d]), v)"
  using runs_settle [of view "serving w t ks fs told"] by (simp add: serving_def)

lemma serving_forget:
  "runs view (serving w t ks fs told, v) (forget_job j) () (serving w t ks fs told\<lparr>retries := (retries w)(j := 0)\<rparr>, v)"
  using runs_forget [of view "serving w t ks fs told" v j] by (simp add: serving_def)

section \<open>A deployment\<close>

definition container_of :: "InstanceQueueMessage \<Rightarrow> string" where
  "container_of m = ContainerName (CreateInstanceType (UserID m) (UserName m))"

definition deployed_tables :: "InstanceQueueMessage \<Rightarrow> int \<Rightarrow> tables \<Rightarrow> tables" where
  "deployed_tables m ip t =
     t\<lparr>userips := userips t @ [\<lparr>ip_user = UserID m, ip_addr = ip\<rparr>],
       domains := domains t @ [\<lparr>d_user = UserID m, d_name = container_of m, d_port = 8099, d_code = True\<rparr>],
       instances := instances t @ [instance_row_of (UserID m) (UserName m) (InsUser m) (InsPassword m)]\<rparr>"

definition deploy_outcome :: "InstanceQueueMessage \<Rightarrow> int \<Rightarrow> web_Instance" where
  "deploy_outcome m ip =
     \<lparr>Wi_ContainerID = container_of m, Wi_Success = True, Wi_Username = InsUser m, Wi_Password = InsPassword m,
      Wi_IP = GenerateIPLXC ip\<rparr>"

definition code_server_conf :: "InstanceQueueMessage \<Rightarrow> int \<Rightarrow> string" where
  "code_server_conf m ip = nginxTemplate \<lparr>T_Domain = container_of m, T_IP = GenerateIPLXC ip, T_Port = ''8099''\<rparr>"

definition deployed :: "InstanceQueueMessage \<Rightarrow> int \<Rightarrow> tables \<Rightarrow> keyspace \<Rightarrow> files \<Rightarrow> 'x world \<Rightarrow> 'x world" where
  "deployed m ip t ks fs w =
     w\<lparr>pg := (deployed_tables m ip t, []),
       redis := (ks(deploy_key (JobID m) \<mapsto> \<lparr>val_of = Doc (marshal_Instance (deploy_outcome m ip)), ttl_hours = None\<rparr>), []),
       disk := (fs(conf_path (container_of m) \<mapsto> code_server_conf m ip), []),
       settled := settled w @ [Ack], retries := (retries w)(JobID m := 0)\<rparr>"

text \<open>Room for the container of a user: nothing of it is there yet.\<close>

definition room_for :: "InstanceQueueMessage \<Rightarrow> tables \<Rightarrow> bool" where
  "room_for m t \<longleftrightarrow>
     (let ins = CreateInstanceType (UserID m) (UserName m)
      in known_user t (UserID m) \<and> UserID m \<notin> ip_user ` set (userips t) \<and> container_of m \<notin> d_name ` set (domains t) \<and>
         (\<forall>r \<in> set (instances t). i_user r \<noteq> UserID m \<and> i_volume r \<noteq> VolumeName ins \<and> i_container r \<noteq> ContainerName ins))"

lemma runs_deploy:
  assumes "healthy l view" and "v (container_of m) = None" and "pg w = (t, [])" and "redis w = (ks, [])"
    and "disk w = (fs, [])" and "stack_ok LXC_IP (ks, [])"
    and "address_left (FindNoOfUsableHostsDocker (Ip l)) t ks" and "room_for m t" and "Action m = DEPLOY"
  obtains ip ks' where
    "runs view (w, v) (run_job l m) () (deployed m ip t ks' fs w, v(container_of m \<mapsto> (True, GenerateIPLXC ip)))"
    and "stack_ok LXC_IP (ks', [])" and "free_ips LXC_IP (ks', []) = tl (free_ips LXC_IP (ks, []))"
    and "ip = (if free_ips LXC_IP (ks, []) = [] then next_ip (ip_column t) else hd (free_ips LXC_IP (ks, [])))"
proof -
  let ?uid = "UserID m" and ?name = "container_of m" and ?u = "InsUser m" and ?p = "InsPassword m"
  have room: "known_user t ?uid" "?uid \<notin> ip_user ` set (userips t)" "?name \<notin> d_name ` set (domains t)"
    using assms(8) by (simp_all add: room_for_def Let_def)
  obtain ip ks' where al: "runs view (w, v) (AllocateFreeLXCIp (Ip l) ?uid) (GenerateIPLXC ip)
       (w\<lparr>pg := (t\<lparr>userips := userips t @ [\<lparr>ip_user = ?uid, ip_addr = ip\<rparr>]\<rparr>, []), redis := (ks', [])\<rparr>, v)"
    and ks': "stack_ok LXC_IP (ks', [])" "free_ips LXC_IP (ks', []) = tl (free_ips LXC_IP (ks, []))"
      "ip = (if free_ips LXC_IP (ks, []) = [] then next_ip (ip_column t) else hd (free_ips LXC_IP (ks, [])))"
    using runs_allocation [OF assms(3,4,6,7) room(1,2), of view v] by blast
  let ?addr = "GenerateIPLXC ip" and ?told = "settled w" and ?fs = "fs(conf_path ?name \<mapsto> code_server_conf m ip)"
  let ?t1 = "t\<lparr>userips := userips t @ [\<lparr>ip_user = ?uid, ip_addr = ip\<rparr>]\<rparr>"
  let ?t2 = "?t1\<lparr>domains := domains t @ [\<lparr>d_user = ?uid, d_name = ?name, d_port = 8099, d_code = True\<rparr>]\<rparr>"
  let ?t3 = "deployed_tables m ip t"
  let ?v1 = "v(?name \<mapsto> (False, ?addr))" and ?v = "v(?name \<mapsto> (True, ?addr))"
  let ?ks = "ks'(deploy_key (JobID m) \<mapsto> \<lparr>val_of = Doc (marshal_Instance (deploy_outcome m ip)), ttl_hours = None\<rparr>)"
  have w1: "w\<lparr>pg := (?t1, []), redis := (ks', [])\<rparr> = serving w ?t1 ks' fs ?told" using assms(5) by (simp add: serving_def)
  note made = runs_creation [OF assms(1,2) al, unfolded w1]
  have exists: "runs view (serving w ?t1 ks' fs ?told, ?v1) (on_pg (Exists_store ?uid)) False (serving w ?t1 ks' fs ?told, ?v1)"
    by (rule serving_pg) (use assms(8) in \<open>simp add: Exists_served rows_matching_def room_for_def Let_def filter_empty_conv\<close>)
  have "runs view (serving w ?t1 ks' fs ?told, ?v) (provision l ?u ?p ?name ?uid) () (serving w ?t2 ks' ?fs ?told, ?v)"
    using runs_provision [of l view ?v ?name ?addr "serving w ?t1 ks' fs ?told" ?t1 fs ?uid ?u ?p] assms(1) room(1,3)
    by (simp add: serving_def field_order known_user_def code_server_conf_def)
  then have start: "runs view (serving w ?t1 ks' fs ?told, ?v1) (UpdateInstanceState l ?u ?p INSTANCE_START ?name False ?uid) ()
      (serving w ?t2 ks' ?fs ?told, ?v)"
    by (intro runs_start [OF assms(1), where ip = ?addr]) simp_all
  have row: "runs view (serving w ?t2 ks' ?fs ?told, ?v) (on_pg (CreateInstance_store ?uid (UserName m) ?u ?p)) ()
      (serving w ?t3 ks' ?fs ?told, ?v)"
    by (rule serving_pg) (use assms(8) in \<open>auto simp: CreateInstance_store_def sql_insert_instance_def deployed_tables_def
      room_for_def Let_def container_of_def instance_row_of_def known_user_def list_ex_iff CreateInstanceType_def\<close>)
  have "filter (\<lambda>r. ip_user r = ?uid) (userips t) = []" using room(2) by (auto simp: filter_empty_conv image_iff)
  then have read: "runs view (serving w ?t3 ks' ?fs (?told @ [Ack]), ?v) (on_pg (GetIPFromUID ?uid)) ip
      (serving w ?t3 ks' ?fs (?told @ [Ack]), ?v)"
    by (intro serving_pg) (simp add: GetIPFromUID_def sql_read_def first_row_def prog_defs deployed_tables_def)
  have put: "runs view (serving w ?t3 ks' ?fs (?told @ [Ack]), ?v) (on_redis (PutDeployResult ?u (JobID m) ?p ?addr True ?name)) ()
      (serving w ?t3 ?ks ?fs (?told @ [Ack]), ?v)"
    by (rule serving_redis) (simp add: PutDeployResult_def r_set_def deploy_outcome_def)
  have fin: "runs view (serving w ?t3 ks' ?fs ?told, ?v) (deploy_done ?uid ?name (JobID m) ?u ?p) () (deployed m ip t ks' fs w, ?v)"
    unfolding deploy_done_def deployed_def serving_def [symmetric]
    by (rule runs_tri [OF serving_settle], rule runs_tri [OF runs_handle [OF read runs_ret]],
        rule runs_tri [OF runs_logged [OF put]], rule serving_forget)
  have "runs view (w, v) (deploy l ?uid (UserName m) (JobID m) ?u ?p) () (deployed m ip t ks' fs w, ?v)"
    unfolding deploy_def deploy_rest_def Let_def container_of_def [symmetric]
    by (rule runs_handle [OF made], rule runs_handle [OF exists], rule runs_handle [OF start])
      (simp add: deploy_record_def runs_handle [OF row fin])
  with assms(9) have "runs view (w, v) (run_job l m) () (deployed m ip t ks' fs w, ?v)" by (simp add: run_job_def)
  then show thesis using ks' by (rule that)
qed

section \<open>A deletion\<close>

lemma runs_stop:
  assumes "healthy l view" and "v name = Some (running, a)"
  shows "runs view (w, v) (logged (UpdateInstanceState l [] [] INSTANCE_STOP name True uid)) () (w, v(name \<mapsto> (False, a)))"
proof -
  have ex: "runs view (w, v) (tri (ContainerExists l name)
      (\<lambda>found. if \<not> found then fail (ErrText CONTAINER_NOT_FOUND_TO_STOP) else ret ())) () (w, v)"
    by (rule runs_tri [OF runs_exists [OF assms(1)]]) (use assms(2) in \<open>simp add: domI runs_ret\<close>)
  let ?wait = "tri (extern (LxdUpdate (Conn l) name INSTANCE_STOP)) (\<lambda>_. tri (extern (op_wait (Conn l))) (\<lambda>_. ret ()))"
  have eq: "UpdateInstanceState l [] [] INSTANCE_STOP name True uid =
      tri (ret ()) (\<lambda>_. tri (tri (ContainerExists l name)
        (\<lambda>found. if \<not> found then fail (ErrText CONTAINER_NOT_FOUND_TO_STOP) else ret ())) (\<lambda>_. ?wait))"
    by (simp add: UpdateInstanceState_def)
  show ?thesis
  proof (cases running)
    case True
    have "operation l view (LxdUpdate (Conn l) name INSTANCE_STOP) x (v(name \<mapsto> (False, a)))" if "view x = v" for x
      using healthyD(6) [OF assms(1), of x name a] assms(2) that True by auto
    then have "runs view (w, v) ?wait () (w, v(name \<mapsto> (False, a)))" by (rule runs_operation_then [OF _ runs_ret]) 
    then show ?thesis
      unfolding eq by (intro runs_logged) (rule runs_tri [OF runs_ret], rule runs_tri [OF ex])
  next
    case False
    then have "v(name \<mapsto> (False, a)) = v" using assms(2) by auto
    moreover have "refuses view (LxdUpdate (Conn l) name INSTANCE_STOP) x" if "view x = v" for x
      using healthyD(12) [OF assms(1), of x name a] assms(2) that False by simp
    then have "runs view (w, v) (logged ?wait) () (w, v)"
      by (force simp: runs_def refuses_def logged_def handle_def tri_eq extern_eq ret_def)
    moreover have "logged (UpdateInstanceState l [] [] INSTANCE_STOP name True uid) =
        handle (tri (ContainerExists l name)
          (\<lambda>found. if \<not> found then fail (ErrText CONTAINER_NOT_FOUND_TO_STOP) else ret ()))
          (\<lambda>e. ret ()) (\<lambda>_. logged ?wait)"
      unfolding eq by (rule ext) (simp add: logged_def handle_def tri_eq ret_def split: prod.split res.split)
    ultimately show ?thesis by (simp add: runs_handle [OF ex])
  qed
qed

definition cleared_tables :: "int \<Rightarrow> tables \<Rightarrow> tables" where
  "cleared_tables uid t =
     t\<lparr>userips := filter (\<lambda>r. ip_user r \<noteq> uid) (userips t), domains := filter (\<lambda>r. d_user r \<noteq> uid) (domains t),
       instances := filter (\<lambda>r. i_user r \<noteq> uid) (instances t)\<rparr>"

definition without_files :: "string set \<Rightarrow> files \<Rightarrow> files" where
  "without_files names fs = (\<lambda>p. if p \<in> conf_path ` names then None else fs p)"

lemma RemoveConf_run: "RemoveConf (domain_only d) (fs, []) = (Ok (), (without_files {d} fs, []))"
  by (auto simp: RemoveConf_def domain_only_def os_remove_def prog_defs without_files_def split: option.split)

lemma serving_remove:
  "runs view (serving w t ks fs told, v) (on_disk (RemoveConf (domain_only d))) ()
     (serving w t ks (without_files {d} fs) told, v)"
  by (rule serving_disk) (rule RemoveConf_run)

lemma without_files_Un: "without_files A (without_files B fs) = without_files (A \<union> B) fs"
  by (auto simp: without_files_def fun_eq_iff)

lemma runs_remove_confs:
  "runs view (serving w t ks fs told, v) (remove_confs ds) () (serving w t ks (without_files (Wd_Name ` set ds) fs) told, v)"
proof (induction ds arbitrary: fs)
  case Nil
  have "without_files (Wd_Name ` set ([] :: web_Domain list)) fs = fs" by (simp add: without_files_def)
  then show ?case by (simp add: runs_ret)
next
  case (Cons d ds)
  note one = runs_logged [OF serving_remove]
  show ?case
    using Cons.IH [of "without_files {Wd_Name d} fs"] by (simp add: runs_tri [OF one] without_files_Un)
qed

definition cleared_names :: "InstanceQueueMessage \<Rightarrow> tables \<Rightarrow> string set" where
  "cleared_names m t = insert (container_of m) (d_name ` set (own_domains (UserID m) t))"

definition cleared :: "InstanceQueueMessage \<Rightarrow> tables \<Rightarrow> keyspace \<Rightarrow> files \<Rightarrow> 'x world \<Rightarrow> 'x world" where
  "cleared m t ks fs w =
     w\<lparr>pg := (cleared_tables (UserID m) t, []),
       redis := (ks(kill_key (JobID m) \<mapsto> \<lparr>val_of = Text ''true'', ttl_hours = None\<rparr>), []),
       disk := (without_files (cleared_names m t) fs, []),
       settled := settled w @ [Ack], retries := (retries w)(JobID m := 0)\<rparr>"

lemma runs_kill:
  assumes "healthy l view" and "v (container_of m) = Some (running, a)"
    and "pg w = (t, [])" and "redis w = (ks, [])" and "disk w = (fs, [])" and "stack_ok LXC_IP (ks, [])"
    and "\<lparr>ip_user = UserID m, ip_addr = ip\<rparr> \<in> set (userips t)" and "distinct (map ip_user (userips t))"
    and "int64_range ip" and "UserID m \<in> i_user ` set (instances t)" and "Action m = KILL"
  obtains ks' where
    "runs view (w, v) (run_job l m) () (cleared m t ks' fs w, v(container_of m := None))"
    and "stack_ok LXC_IP (ks', [])" and "free_ips LXC_IP (ks', []) = ip # free_ips LXC_IP (ks, [])"
proof -
  define uid name job where "uid = UserID m" and "name = container_of m" and "job = JobID m"
  let ?v = "v(name := None)" and ?d = "\<lparr>Dom_Uid = uid, Dom_Name = [], Dom_Port = 0\<rparr>"
  let ?t1 = "t\<lparr>userips := filter (\<lambda>r. ip_user r \<noteq> uid) (userips t)\<rparr>"
  let ?t2 = "?t1\<lparr>domains := filter (\<lambda>r. \<not> (d_name r = name \<and> d_user r = uid)) (domains t)\<rparr>"
  let ?t3 = "?t2\<lparr>instances := filter (\<lambda>r. i_user r \<noteq> uid) (instances t)\<rparr>"
  let ?t4 = "cleared_tables uid t"
  let ?own = "map (\<lambda>r. \<lparr>Wd_Name = d_name r, Wd_Port = d_port r, Wd_Status = ''Active''\<rparr>) (own_domains uid ?t2)"
  let ?fs1 = "without_files {name} fs" and ?fs2 = "without_files (cleared_names m t) fs"
  define ks' where "ks' = snd (r_lpush LXC_IP (itoa ip) ks)"
  have v: "v name = Some (running, a)" using assms(2) by (simp add: name_def)
  have called: "ContainerName (CreateInstanceType uid (UserName m)) = name"
    by (simp add: name_def uid_def container_of_def)
  note mine = assms(7,8,10) [folded uid_def]
  note p = lpush_effect [OF assms(6) _ assms(9), of "[]"]
  have push: "PushFreeIp ip LXC_IP (ks, []) = (Ok (), (ks', []))"
    using p(3) by (cases "r_lpush LXC_IP (itoa ip) ks") (simp add: PushFreeIp_def ks'_def)
  have w: "serving w t ks fs (settled w) = w" by (rule serving_self) (rule assms(3-5))+
  let ?in = "\<lambda>t ks fs. serving w t ks fs (settled w)" and ?acked = "\<lambda>t ks fs. serving w t ks fs (settled w @ [Ack])"
  have deleted: "operation l view (DeleteContainer (Conn l) name) x ?v" if "view x = v(name \<mapsto> (False, a))" for x
    using healthyD(5) [OF assms(1), of x name a] that by simp
  have release: "runs view (?in t ks fs, v') (on_pg (RemoveIP uid)) ip (?in ?t1 ks fs, v')" for v'
    by (rule serving_pg) (rule RemoveIP_served [OF mine(1,2)])
  have returned: "runs view (?in ?t1 ks fs, v') (on_redis (PushFreeIp ip LXC_IP)) () (?in ?t1 ks' fs, v')" for v'
    by (rule serving_redis) (rule push)
  have unpublished: "runs view (?in ?t1 ks' fs, v') (on_pg (RemoveDomain (code_server_domain uid name))) () (?in ?t2 ks' fs, v')" for v'
    by (rule serving_pg) (simp add: RemoveDomain_def code_server_domain_def sql_delete_domain_def prog_defs)
  have there: "runs view (w', v) (ContainerExists l name) True (w', v)" for w'
    using runs_exists [OF assms(1), of w' v name] by (simp add: v domI)
  have del: "runs view (?in t ks fs, v) (DeleteInstance_lxd l uid name) () (?in ?t2 ks' ?fs1, ?v)"
    unfolding DeleteInstance_lxd_def DeAllocateLXCIP_def
    by (rule runs_tri [OF there], simp only: not_True_eq_False if_False,
        rule runs_tri [OF runs_stop [where v = v and name = name, OF assms(1) v]], subst tri_tri,
        rule runs_tri [OF release], rule runs_tri [OF returned], rule runs_operation_then [OF deleted], assumption,
        rule runs_tri [OF unpublished], rule runs_tri [OF serving_remove], rule runs_reload [OF assms(1)])
  have row: "runs view (?in ?t2 ks' ?fs1, ?v) (on_pg (RemoveInstance uid)) () (?in ?t3 ks' ?fs1, ?v)"
    by (rule serving_pg)
      (use mine(3) in \<open>auto simp: RemoveInstance_def sql_delete_instance_def rows_matching_def prog_defs filter_empty_conv\<close>)
  have names: "runs view (?acked ?t3 ks' ?fs1, ?v) (on_pg (GetUserDomains ?d)) ?own (?acked ?t3 ks' ?fs1, ?v)"
    by (rule serving_pg) (simp add: GetUserDomains_def own_domains_def prog_defs)
  have "Wd_Name ` set ?own = d_name ` set (own_domains uid ?t2)" by (simp add: image_image)
  moreover have "d_name ` set (own_domains uid ?t2) \<union> {name} = cleared_names m t"
    by (auto simp: own_domains_def cleared_names_def uid_def name_def)
  ultimately have fs2: "without_files (Wd_Name ` set ?own) ?fs1 = ?fs2" by (simp add: without_files_Un)
  have others: "filter (\<lambda>r. (d_name r = name \<longrightarrow> d_user r \<noteq> uid) \<and> d_user r \<noteq> uid) rs = filter (\<lambda>r. d_user r \<noteq> uid) rs"
    for rs by (rule filter_cong) auto
  have t4: "sql_delete_user_domains uid ?t3 = (Ok (rows_matching (\<lambda>r. d_user r = uid) (domains ?t3)), ?t4)"
    by (simp add: sql_delete_user_domains_def cleared_tables_def others)
  have forgotten: "runs view (?acked ?t3 ks' ?fs2, ?v) (on_pg (DeleteUserDomains ?d)) () (?acked ?t4 ks' ?fs2, ?v)"
    by (rule serving_pg) (use t4 in \<open>simp add: DeleteUserDomains_def prog_defs\<close>)
  let ?ks = "ks'(kill_key job \<mapsto> \<lparr>val_of = Text ''true'', ttl_hours = None\<rparr>)"
  have told: "runs view (?acked ?t4 ks' ?fs2, ?v) (on_redis (PutKillResult True job)) () (?acked ?t4 ?ks ?fs2, ?v)"
    by (rule serving_redis) (simp add: PutKillResult_def put_flag_def r_set_def bool_text_def)
  have rec: "runs view (?in ?t2 ks' ?fs1, ?v) (kill_record l uid job) ()
      (?acked ?t4 ?ks ?fs2\<lparr>retries := (retries w)(job := 0)\<rparr>, ?v)"
    unfolding kill_record_def kill_cleanup_def
    by (rule runs_handle [OF row], rule runs_tri [OF serving_settle], rule runs_handle [OF names],
        rule runs_tri [OF runs_remove_confs], unfold fs2, rule runs_tri [OF runs_logged [OF runs_reload [OF assms(1)]]],
        rule runs_tri [OF runs_logged [OF forgotten]], rule runs_tri [OF runs_logged [OF told]], rule serving_forget)
  have "runs view (?in t ks fs, v) (kill l uid (UserName m) job) () (cleared m t ks' fs w, ?v)"
    unfolding kill_def called cleared_def serving_def [symmetric] uid_def [symmetric] job_def [symmetric]
    by (rule runs_handle [OF del rec])
  then have "runs view (w, v) (run_job l m) () (cleared m t ks' fs w, ?v)"
    using assms(11) unfolding w by (simp add: run_job_def uid_def job_def)
  then show thesis by (rule that [unfolded name_def [symmetric]]) (use p(1,2) in \<open>simp_all add: ks'_def\<close>)
qed

section \<open>What the user gets\<close>

lemma address_range:
  assumes "pool_col m (free_ips LXC_IP (ks, []) @ ip_column t)" and "address_left m t ks" and "2 \<le> m"
    and "ip = (if free_ips LXC_IP (ks, []) = [] then next_ip (ip_column t) else hd (free_ips LXC_IP (ks, [])))"
  shows "2 \<le> ip" and "ip \<le> m" and "ip \<notin> set (ip_column t)"
proof -
  have "2 \<le> ip \<and> ip \<le> m \<and> ip \<notin> set (ip_column t)"
  proof (cases "free_ips LXC_IP (ks, [])")
    case Nil
    then have "pool_col m (ip_column t @ [next_ip (ip_column t)])"
      using assms(1-3) by (intro pool_col_next) (auto simp: address_left_def)
    with Nil assms(4) show ?thesis by (simp add: pool_col_def)
  next
    case (Cons a as)
    with assms(1,4) show ?thesis by (auto simp: pool_col_def)
  qed
  then show "2 \<le> ip" "ip \<le> m" "ip \<notin> set (ip_column t)" by simp_all
qed

lemma deployed_again: "deployed m ip t ks fs (w\<lparr>retries := (retries w)(JobID m := n)\<rparr>) = deployed m ip t ks fs w"
  by (simp add: deployed_def field_order)

lemma cleared_again: "cleared m t ks fs (w\<lparr>retries := (retries w)(JobID m := n)\<rparr>) = cleared m t ks fs w"
  by (simp add: cleared_def field_order)

lemma other_key:
  "k \<noteq> LXC_IP \<Longrightarrow> stack_ok LXC_IP (ks(k \<mapsto> e), as) = stack_ok LXC_IP (ks, as)"
  "k \<noteq> LXC_IP \<Longrightarrow> free_ips LXC_IP (ks(k \<mapsto> e), as) = free_ips LXC_IP (ks, as)"
  by (simp_all add: stack_ok_def free_ips_def)

lemma box_keys: "deploy_key job \<noteq> LXC_IP" "kill_key job \<noteq> LXC_IP"
  by (simp_all add: deploy_key_def kill_key_def)

lemma delivered_deploy:
  assumes "healthy l view" and "pg w = (t, [])" and "redis w = (ks, [])" and "disk w = (fs, [])"
    and "view (outside w) (container_of m) = None" and "room_for m t" and "stack_ok LXC_IP (ks, [])"
    and "address_left (FindNoOfUsableHostsDocker (Ip l)) t ks" and "Action m = DEPLOY" and "retries w (JobID m) \<noteq> 3"
  obtains ip ks' x where "ConsumeMessageInstance l m w = (Ok (), (deployed m ip t ks' fs w)\<lparr>outside := x\<rparr>)"
    and "view x = (view (outside w))(container_of m \<mapsto> (True, GenerateIPLXC ip))"
    and "stack_ok LXC_IP (ks', [])" and "free_ips LXC_IP (ks', []) = tl (free_ips LXC_IP (ks, []))"
    and "ip = (if free_ips LXC_IP (ks, []) = [] then next_ip (ip_column t) else hd (free_ips LXC_IP (ks, [])))"
proof -
  let ?w = "w\<lparr>retries := (retries w)(JobID m := retries w (JobID m) + 1)\<rparr>" and ?v = "view (outside w)"
  have w: "pg ?w = (t, [])" "redis ?w = (ks, [])" "disk ?w = (fs, [])" using assms(2-4) by simp_all
  obtain ip ks' where
    run: "runs view (?w, ?v) (run_job l m) () (deployed m ip t ks' fs ?w, ?v(container_of m \<mapsto> (True, GenerateIPLXC ip)))"
    and ks': "stack_ok LXC_IP (ks', [])" "free_ips LXC_IP (ks', []) = tl (free_ips LXC_IP (ks, []))"
      "ip = (if free_ips LXC_IP (ks, []) = [] then next_ip (ip_column t) else hd (free_ips LXC_IP (ks, [])))"
    by (rule runs_deploy [where v = ?v, OF assms(1,5) w assms(7,8,6,9)])
  from runsD [OF runs_delivery [OF assms(10) run [unfolded deployed_again]]] that [OF _ _ ks'] show thesis by blast
qed

lemma delivered_kill:
  assumes "healthy l view" and "pg w = (t, [])" and "redis w = (ks, [])" and "disk w = (fs, [])"
    and "view (outside w) (container_of m) = Some (running, a)" and "stack_ok LXC_IP (ks, [])"
    and "\<lparr>ip_user = UserID m, ip_addr = ip\<rparr> \<in> set (userips t)" and "distinct (map ip_user (userips t))"
    and "int64_range ip" and "UserID m \<in> i_user ` set (instances t)" and "Action m = KILL" and "retries w (JobID m) \<noteq> 3"
  obtains ks' x where "ConsumeMessageInstance l m w = (Ok (), (cleared m t ks' fs w)\<lparr>outside := x\<rparr>)"
    and "view x = (view (outside w))(container_of m := None)"
    and "free_ips LXC_IP (ks', []) = ip # free_ips LXC_IP (ks, [])"
proof -
  let ?w = "w\<lparr>retries := (retries w)(JobID m := retries w (JobID m) + 1)\<rparr>" and ?v = "view (outside w)"
  have w: "pg ?w = (t, [])" "redis ?w = (ks, [])" "disk ?w = (fs, [])" using assms(2-4) by simp_all
  obtain ks' where run: "runs view (?w, ?v) (run_job l m) () (cleared m t ks' fs ?w, ?v(container_of m := None))"
    and ks': "free_ips LXC_IP (ks', []) = ip # free_ips LXC_IP (ks, [])"
    by (rule runs_kill [where v = ?v, OF assms(1,5) w assms(6-11)])
  from runsD [OF runs_delivery [OF assms(12) run [unfolded cleared_again]]] that [OF _ _ ks'] show thesis by blast
qed

text \<open>C5: a deployment on a host, a proxy and servers that answer gives the user a container, whatever his name: the delivery is
  acknowledged, the container runs with an address of the pool that nobody had, the address and the running instance
  are recorded for him and nothing else of the tables changes but the name of the code server, which the proxy sends to
  that address, and the poll for the job gets his login, his password and the address.\<close>

theorem deployment_serves:
  assumes "healthy l view" and "pg w = (t, [])" and "redis w = (ks, [])" and "disk w = (fs, [])"
    and "view (outside w) (container_of m) = None" and "room_for m t" and "stack_ok LXC_IP (ks, [])"
    and "CreateIpAllocator cidr = Ok (Ip l)" and "address_left (FindNoOfUsableHostsDocker (Ip l)) t ks"
    and "pool_col (FindNoOfUsableHostsDocker (Ip l)) (free_ips LXC_IP (ks, []) @ ip_column t)"
    and "Action m = DEPLOY" and "retries w (JobID m) \<noteq> 3"
  shows "\<exists>ip w'. ConsumeMessageInstance l m w = (Ok (), w') \<and> settled w' = settled w @ [Ack] \<and>
    2 \<le> ip \<and> ip \<le> FindNoOfUsableHostsDocker (Ip l) \<and> ip \<notin> set (ip_column t) \<and>
    view (outside w') = (view (outside w))(container_of m \<mapsto> (True, GenerateIPLXC ip)) \<and>
    fst (pg w') = deployed_tables m ip t \<and>
    fst (disk w') = fs(conf_path (container_of m) \<mapsto> code_server_conf m ip) \<and>
    fst (GetDeployResult (JobID m) (redis w')) = Ok (Some (as_read (deploy_outcome m ip)))"
proof -
  obtain ip ks' x where x: "ConsumeMessageInstance l m w = (Ok (), (deployed m ip t ks' fs w)\<lparr>outside := x\<rparr>)"
      "view x = (view (outside w))(container_of m \<mapsto> (True, GenerateIPLXC ip))"
    and ip: "ip = (if free_ips LXC_IP (ks, []) = [] then next_ip (ip_column t) else hd (free_ips LXC_IP (ks, [])))"
    by (rule delivered_deploy [OF assms(1-7,9,11,12)])
  have "2 \<le> FindNoOfUsableHostsDocker (Ip l)" using allocator_bounds(1,3) [OF assms(8)] by simp
  note range = address_range [OF assms(10,9) this ip]
  have "fst (GetDeployResult (JobID m) (redis (deployed m ip t ks' fs w))) = Ok (Some (as_read (deploy_outcome m ip)))"
    by (simp add: deployed_def GetDeployResult_def r_get_def r_del_def prog_defs unmarshal_marshal)
  with x range show ?thesis
    by (intro exI [of _ ip] exI [of _ "(deployed m ip t ks' fs w)\<lparr>outside := x\<rparr>"]) (simp add: deployed_def)
qed

text \<open>C6: a deletion there takes everything of the user's container away, whether it runs or is stopped: the container, the
  rows of the instance, of the address and of every name the user has published, and the configuration files of all of
  them. The address goes to the top of the stack, other users' rows and files stay, and the poll for the job is told
  that it is done.\<close>

theorem deletion_clears:
  assumes "healthy l view" and "pg w = (t, [])" and "redis w = (ks, [])" and "disk w = (fs, [])"
    and "view (outside w) (container_of m) = Some (running, a)" and "stack_ok LXC_IP (ks, [])"
    and "\<lparr>ip_user = UserID m, ip_addr = ip\<rparr> \<in> set (userips t)" and "schema_ok t"
    and "int64_range ip" and "UserID m \<in> i_user ` set (instances t)" and "Action m = KILL" and "retries w (JobID m) \<noteq> 3"
  shows "\<exists>w'. ConsumeMessageInstance l m w = (Ok (), w') \<and> settled w' = settled w @ [Ack] \<and>
    view (outside w') = (view (outside w))(container_of m := None) \<and>
    fst (pg w') = cleared_tables (UserID m) t \<and> fst (disk w') = without_files (cleared_names m t) fs \<and>
    free_ips LXC_IP (redis w') = ip # free_ips LXC_IP (redis w) \<and>
    fst (GetKillResult (JobID m) (redis w')) = Ok (Some True)"
proof -
  have "distinct (map ip_user (userips t))" using assms(8) by (simp add: schema_ok_def userips_ok_def)
  then obtain ks' x where x: "ConsumeMessageInstance l m w = (Ok (), (cleared m t ks' fs w)\<lparr>outside := x\<rparr>)"
      "view x = (view (outside w))(container_of m := None)" "free_ips LXC_IP (ks', []) = ip # free_ips LXC_IP (ks, [])"
    using delivered_kill [OF assms(1-7) _ assms(9-12)] by blast
  have "fst (GetKillResult (JobID m) (redis (cleared m t ks' fs w))) = Ok (Some True)"
    by (simp add: cleared_def GetKillResult_def get_flag_def r_get_def r_del_def prog_defs)
  with x assms(3) show ?thesis
    by (intro exI [of _ "(cleared m t ks' fs w)\<lparr>outside := x\<rparr>"]) (simp add: cleared_def other_key box_keys)
qed

text \<open>C7: a deletion undoes a deployment: after both, the host, all tables and all files are what they were before, and the
  pool has every address it had. (If the stack was empty the address now lies on it, and is the next one given out.)\<close>

theorem deletion_undoes_deployment:
  assumes "healthy l view" and "pg w = (t, [])" and "redis w = (ks, [])" and "disk w = (fs, [])"
    and "view (outside w) (container_of m) = None" and "room_for m t" and "schema_ok t" and "stack_ok LXC_IP (ks, [])"
    and "CreateIpAllocator cidr = Ok (Ip l)" and "address_left (FindNoOfUsableHostsDocker (Ip l)) t ks"
    and "pool_col (FindNoOfUsableHostsDocker (Ip l)) (free_ips LXC_IP (ks, []) @ ip_column t)"
    and "UserID m \<notin> d_user ` set (domains t)" and "fs (conf_path (container_of m)) = None"
    and "Action m = DEPLOY" and "retries w (JobID m) \<noteq> 3" and "retries w job \<noteq> 3"
  shows "\<exists>w' w''. ConsumeMessageInstance l m w = (Ok (), w') \<and>
    ConsumeMessageInstance l (m\<lparr>Action := KILL, JobID := job\<rparr>) w' = (Ok (), w'') \<and>
    settled w'' = settled w @ [Ack, Ack] \<and> view (outside w'') = view (outside w) \<and>
    pg w'' = pg w \<and> disk w'' = disk w \<and>
    free_ips LXC_IP (redis w'') = (if free_ips LXC_IP (ks, []) = [] then [next_ip (ip_column t)] else free_ips LXC_IP (ks, []))"
proof -
  let ?k = "m\<lparr>Action := KILL, JobID := job\<rparr>"
  have k: "container_of ?k = container_of m" "UserID ?k = UserID m" by (simp_all add: container_of_def)
  obtain ip ks' x where x: "ConsumeMessageInstance l m w = (Ok (), (deployed m ip t ks' fs w)\<lparr>outside := x\<rparr>)"
      "view x = (view (outside w))(container_of m \<mapsto> (True, GenerateIPLXC ip))"
    and ks': "stack_ok LXC_IP (ks', [])" "free_ips LXC_IP (ks', []) = tl (free_ips LXC_IP (ks, []))"
    and ip: "ip = (if free_ips LXC_IP (ks, []) = [] then next_ip (ip_column t) else hd (free_ips LXC_IP (ks, [])))"
    by (rule delivered_deploy [OF assms(1-6,8,10,14,15)])
  have "2 \<le> FindNoOfUsableHostsDocker (Ip l)" "FindNoOfUsableHostsDocker (Ip l) \<le> 2 ^ 24"
    using allocator_bounds(1-3) [OF assms(9)] by simp_all
  with address_range [OF assms(11,10) _ ip] have "int64_range ip" by (simp add: int64_range_def)
  define w' where "w' = (deployed m ip t ks' fs w)\<lparr>outside := x\<rparr>"
  let ?t = "deployed_tables m ip t"
  have mine: "UserID m \<notin> ip_user ` set (userips t)" "UserID m \<notin> i_user ` set (instances t)"
    using assms(6) by (auto simp: room_for_def Let_def)
  have rows: "\<lparr>ip_user = UserID ?k, ip_addr = ip\<rparr> \<in> set (userips ?t)" "distinct (map ip_user (userips ?t))"
    "UserID ?k \<in> i_user ` set (instances ?t)"
    using assms(7) mine by (auto simp: deployed_tables_def schema_ok_def userips_ok_def instance_row_of_def CreateInstanceType_def Let_def)
  let ?ks = "ks'(deploy_key (JobID m) \<mapsto> \<lparr>val_of = Doc (marshal_Instance (deploy_outcome m ip)), ttl_hours = None\<rparr>)"
  let ?fs = "fs(conf_path (container_of m) \<mapsto> code_server_conf m ip)"
  have servers: "pg w' = (?t, [])" "redis w' = (?ks, [])" "disk w' = (?fs, [])"
    by (simp_all add: w'_def deployed_def)
  have there: "view (outside w') (container_of ?k) = Some (True, GenerateIPLXC ip)" and ok: "stack_ok LXC_IP (?ks, [])"
    and count: "retries w' (JobID ?k) \<noteq> 3"
    using x(2) ks'(1) assms(16) k by (simp_all add: w'_def deployed_def other_key box_keys)
  obtain ks'' y where y: "ConsumeMessageInstance l ?k w' = (Ok (), (cleared ?k ?t ks'' ?fs w')\<lparr>outside := y\<rparr>)"
      "view y = (view (outside w'))(container_of ?k := None)" "free_ips LXC_IP (ks'', []) = ip # free_ips LXC_IP (?ks, [])"
    by (rule delivered_kill [OF assms(1) servers there ok rows(1,2) \<open>int64_range ip\<close> rows(3) _ count]) auto
  have none: "filter (\<lambda>r. d_user r = UserID m \<and> \<not> d_code r) (domains t) = []"
    "filter (\<lambda>r. d_user r \<noteq> UserID m) (domains t) = domains t"
    "filter (\<lambda>r. ip_user r \<noteq> UserID m) (userips t) = userips t" "filter (\<lambda>r. i_user r \<noteq> UserID m) (instances t) = instances t"
    using assms(12) mine by (auto simp: filter_empty_conv filter_id_conv image_iff)
  then have "cleared_tables (UserID m) ?t = t"
    by (simp add: cleared_tables_def deployed_tables_def instance_row_of_def CreateInstanceType_def Let_def)
  moreover have "cleared_names ?k ?t = {container_of m}"
    using none(1) k by (simp add: cleared_names_def own_domains_def deployed_tables_def)
  then have "without_files (cleared_names ?k ?t) ?fs = fs"
    using assms(13) by (auto simp: without_files_def fun_eq_iff)
  moreover have "view y = view (outside w)" using x(2) y(2) assms(5) k by (auto simp: w'_def)
  moreover have "free_ips LXC_IP (ks'', []) = (if free_ips LXC_IP (ks, []) = [] then [next_ip (ip_column t)] else free_ips LXC_IP (ks, []))"
    using y(3) ks'(2) ip by (cases "free_ips LXC_IP (ks, [])") (simp_all add: other_key box_keys)
  ultimately show ?thesis
    using x(1) y(1) k assms(2,4)
    by (intro exI [of _ w'] exI [of _ "(cleared ?k ?t ks'' ?fs w')\<lparr>outside := y\<rparr>"])
      (simp add: w'_def cleared_def deployed_def other_key box_keys)
qed

section \<open>A host for the concrete runs\<close>

text \<open>Containers with their state and address; operations fail where LXD refuses them.\<close>

type_synonym model_host = "(string \<times> bool \<times> string) list"

definition model_lxd :: "model_host lxd" where
  "model_lxd =
     \<lparr>GetImageAlias = (\<lambda>a. ret ()), not_found = (\<lambda>e. False), ConnectSimpleStreams = (\<lambda>u. ret ()),
      RemoteImageAlias = (\<lambda>a. ret a), RemoteImage = (\<lambda>a. ret a), CopyImage = (\<lambda>i a. ret ()),
      GetNetwork = (\<lambda>n. ret ()), CreateNetwork = (\<lambda>n c. ret ()), GetStoragePool = (\<lambda>n. ret ()),
      CreateStoragePool = (\<lambda>n d. ret ()),
      GetInstances = (\<lambda>h. (Ok (map fst h), h)),
      LxdCreate = (\<lambda>rq h. case static_address rq of
          None \<Rightarrow> (Er (ErrText ''no address''), h) | Some a \<Rightarrow> (Ok (), AList.update (Rq_Name rq) (False, a) h)),
      GetInstanceState = (\<lambda>n h. case map_of h n of
          None \<Rightarrow> (Er (ErrText ''not found''), h) | Some (running, a) \<Rightarrow> (Ok (if running then ''Running'' else ''Stopped''), h)),
      LxdUpdate = (\<lambda>n act h. case map_of h n of
          None \<Rightarrow> (Er (ErrText ''not found''), h)
        | Some (running, a) \<Rightarrow>
            if running = (act = INSTANCE_START) then (Er (ErrText ''nothing to do''), h)
            else (Ok (), AList.update n (act = INSTANCE_START, a) h)),
      DeleteContainer = (\<lambda>n h. case map_of h n of
          Some (False, a) \<Rightarrow> (Ok (), AList.delete n h) | _ \<Rightarrow> (Er (ErrText ''running''), h)),
      ExecInstance = (\<lambda>n c h. case map_of h n of Some (True, a) \<Rightarrow> (Ok (), h) | _ \<Rightarrow> (Er (ErrText ''stopped''), h)),
      GetContainerState = (\<lambda>n h. case map_of h n of
          Some (True, a) \<Rightarrow> (Ok [(''inet'', ''local'', ''127.0.0.1''), (''inet'', ''global'', a)], h)
        | _ \<Rightarrow> (Er (ErrText ''stopped''), h)),
      op_wait = ret ()\<rparr>"

definition model_kws :: "model_host LXDKWS" where
  "model_kws = \<lparr>Conn = model_lxd, Ip = al24, Docker = idle_docker\<rparr>"

lemma model_healthy: "healthy model_kws map_of"
proof -
  have dom: "fst ` set h = dom (map_of h)" for h :: model_host by (simp add: dom_map_of_conv_image_fst)
  show ?thesis
    unfolding healthy_def
    by (simp add: model_kws_def model_lxd_def answers_def operation_def refuses_def idle_docker_def ret_def dom
        AList.update_conv' AList.delete_conv')
qed

definition model_world :: "tables \<Rightarrow> model_host \<Rightarrow> model_host world" where
  "model_world t h =
     \<lparr>pg = (t, []), redis = (Map.empty, []), disk = (Map.empty, []), session = (no_session, []), mails = [],
      settled = [], headers = Some Map.empty, retries = (\<lambda>_. 0), pool = [], outside = h\<rparr>"

lemma model_room: "room_for (job_of DEPLOY) one_account"
  by (simp add: room_for_def job_of_def one_account_def empty_tables_def known_user_def Let_def)

lemma model_pool:
  "stack_ok LXC_IP (Map.empty, [])" "address_left m one_account Map.empty"
  "pool_col m (free_ips LXC_IP (Map.empty, []) @ ip_column one_account)"
  by (simp_all add: stack_ok_def address_left_def pool_col_def free_ips_def ip_column_def one_account_def empty_tables_def)

theorem deployment_serves_witness:
  "\<exists>ip w'. ConsumeMessageInstance model_kws (job_of DEPLOY) (model_world one_account []) = (Ok (), w') \<and>
     settled w' = [Ack] \<and> 2 \<le> ip \<and> map_of (outside w') (container_of (job_of DEPLOY)) = Some (True, GenerateIPLXC ip)"
proof -
  have "\<exists>ip w'. ConsumeMessageInstance model_kws (job_of DEPLOY) (model_world one_account []) = (Ok (), w') \<and>
      settled w' = settled (model_world one_account []) @ [Ack] \<and>
      2 \<le> ip \<and> ip \<le> FindNoOfUsableHostsDocker (Ip model_kws) \<and> ip \<notin> set (ip_column one_account) \<and>
      map_of (outside w') =
        (map_of (outside (model_world one_account [])))(container_of (job_of DEPLOY) \<mapsto> (True, GenerateIPLXC ip)) \<and>
      fst (pg w') = deployed_tables (job_of DEPLOY) ip one_account \<and>
      fst (disk w') = Map.empty(conf_path (container_of (job_of DEPLOY)) \<mapsto> code_server_conf (job_of DEPLOY) ip) \<and>
      fst (GetDeployResult (JobID (job_of DEPLOY)) (redis w')) = Ok (Some (as_read (deploy_outcome (job_of DEPLOY) ip)))"
    by (rule deployment_serves [OF model_healthy _ _ _ _ model_room model_pool(1) _ model_pool(2,3), where cidr = 24])
      (simp_all add: model_world_def model_kws_def al24 job_of_def)
  then show ?thesis by (auto simp: model_world_def)
qed

definition stopped_account :: tables where
  "stopped_account = one_account\<lparr>instances := [(instance_row_of 1 ''ann'' ''ann'' ''pw'')\<lparr>i_running := False\<rparr>],
     userips := [\<lparr>ip_user = 1, ip_addr = 2\<rparr>],
     domains := [\<lparr>d_user = 1, d_name = ''1-ann-instance'', d_port = 8099, d_code = True\<rparr>,
       \<lparr>d_user = 1, d_name = ''shop'', d_port = 80, d_code = False\<rparr>]\<rparr>"

theorem deletion_clears_witness:
  "\<exists>w'. ConsumeMessageInstance model_kws (job_of KILL)
       (model_world stopped_account [(''1-ann-instance'', False, ''172.30.0.2'')]) = (Ok (), w') \<and>
     map_of (outside w') ''1-ann-instance'' = None \<and> domains (fst (pg w')) = [] \<and> free_ips LXC_IP (redis w') = [2]"
proof -
  let ?w = "model_world stopped_account [(''1-ann-instance'', False, ''172.30.0.2'')]"
  have c: "container_of (job_of KILL) = ''1-ann-instance''"
    using sample_container by (simp add: container_of_def job_of_def)
  have u: "UserID (job_of KILL) = 1" "Action (job_of KILL) = KILL" by (simp_all add: job_of_def)
  have rows: "\<lparr>ip_user = 1, ip_addr = 2\<rparr> \<in> set (userips stopped_account)" "1 \<in> i_user ` set (instances stopped_account)"
    by (simp_all add: stopped_account_def instance_row_of_def CreateInstanceType_def Let_def)
  have "schema_ok stopped_account" by code_simp
  then have "\<exists>w'. ConsumeMessageInstance model_kws (job_of KILL) ?w = (Ok (), w') \<and> settled w' = settled ?w @ [Ack] \<and>
    map_of (outside w') = (map_of (outside ?w))(container_of (job_of KILL) := None) \<and>
    fst (pg w') = cleared_tables (UserID (job_of KILL)) stopped_account \<and>
    fst (disk w') = without_files (cleared_names (job_of KILL) stopped_account) Map.empty \<and>
    free_ips LXC_IP (redis w') = 2 # free_ips LXC_IP (redis ?w) \<and>
    fst (GetKillResult (JobID (job_of KILL)) (redis w')) = Ok (Some True)"
    by (intro deletion_clears [OF model_healthy, where ks = Map.empty and running = False and a = "''172.30.0.2''"])
      (simp_all add: c u rows model_world_def stack_ok_def int64_range_def)
  then show ?thesis
    using c by (auto simp: model_world_def cleared_tables_def stopped_account_def job_of_def free_ips_def)
qed

theorem deletion_undoes_deployment_witness:
  "\<exists>w' w''. ConsumeMessageInstance model_kws (job_of DEPLOY) (model_world one_account []) = (Ok (), w') \<and>
     ConsumeMessageInstance model_kws ((job_of DEPLOY)\<lparr>Action := KILL, JobID := ''j2''\<rparr>) w' = (Ok (), w'') \<and>
     settled w'' = [Ack, Ack] \<and> fst (pg w'') = one_account \<and> free_ips LXC_IP (redis w'') = [2]"
proof -
  let ?w = "model_world one_account []" and ?m = "job_of DEPLOY"
  have "schema_ok one_account" by code_simp
  then have "\<exists>w' w''. ConsumeMessageInstance model_kws ?m ?w = (Ok (), w') \<and>
    ConsumeMessageInstance model_kws (?m\<lparr>Action := KILL, JobID := ''j2''\<rparr>) w' = (Ok (), w'') \<and>
    settled w'' = settled ?w @ [Ack, Ack] \<and> map_of (outside w'') = map_of (outside ?w) \<and>
    pg w'' = pg ?w \<and> disk w'' = disk ?w \<and>
    free_ips LXC_IP (redis w'') = (if free_ips LXC_IP (Map.empty, []) = [] then [next_ip (ip_column one_account)]
      else free_ips LXC_IP (Map.empty, []))"
    by (intro deletion_undoes_deployment [OF model_healthy _ _ _ _ model_room _ model_pool(1) _ model_pool(2,3), where cidr = 24])
      (simp_all add: model_world_def model_kws_def al24 job_of_def one_account_def empty_tables_def)
  then show ?thesis
    by (fastforce simp: model_world_def free_ips_def next_ip_def ip_column_def one_account_def empty_tables_def)
qed

end
