(* ===== verification/Instance_Handlers.thy ===== *)
theory Instance_Handlers
  imports Message_Queue
begin

text \<open>
  \<^verbatim>\<open>cmd/instance_handler.go\<close>: the requests that start a job and the ones that poll for
  its result. The lemmas show what the requests do to the channel pool, with the storage as
  \<^verbatim>\<open>main\<close> builds it.
\<close>

section \<open>Starting a job\<close>

text \<open>\<open>sha256\<close> is the digest as bytes, \<open>now\<close> the clock in nanoseconds.\<close>

definition generateHashedJobID :: "(string \<Rightarrow> string) \<Rightarrow> int \<Rightarrow> int \<Rightarrow> string \<Rightarrow> string" where
  "generateHashedJobID sha256 now uid username = hex_text (sha256 (itoa now @ ''-'' @ itoa uid @ ''-'' @ username))"

record InstanceResponse =
  Ir_JobID :: string
  Ir_Action :: string

text \<open>The form is taken as parsed; only a deployment reads it.\<close>

definition form_rejected :: "string \<Rightarrow> string \<Rightarrow> string \<Rightarrow> bool" where
  "form_rejected action insUser insPassword \<longleftrightarrow>
     action = DEPLOY \<and>
     (let user = \<lparr>Id = 0, Email = [], First_name = [], Last_name = [], User_name = insUser,
                  Password = insPassword, Verified = False\<rparr>
      in \<not> ValidateUserName user \<or> \<not> ValidatePassword user)"

definition instance_message :: "int \<Rightarrow> string \<Rightarrow> string \<Rightarrow> string \<Rightarrow> string \<Rightarrow> string \<Rightarrow> queue_message" where
  "instance_message uid userName jid action insUser insPassword =
     InstanceMessage
       \<lparr>JobID = jid, UserID = uid, UserName = userName,
        InsUser = if action = DEPLOY then insUser else [],
        InsPassword = if action = DEPLOY then insPassword else [], Action = action\<rparr>"

definition handleInstanceAction ::
  "'x amqp \<Rightarrow> nat \<Rightarrow> MQ \<Rightarrow> (string \<Rightarrow> string) \<Rightarrow> int \<Rightarrow> string \<Rightarrow> string \<Rightarrow> string \<Rightarrow> ('x, InstanceResponse reply) act" where
  "handleInstanceAction a cap q digest now action insUser insPassword =
     tri (get_field (\<lambda>w. fst (session w)))
       (\<lambda>s. if form_rejected action insUser insPassword
            then ret (http_error ''input wrong format'' 400)
            else let jid = generateHashedJobID digest now (session_id s) (session_name s)
              in handle (PushMessageInstance a cap (NewStore_MessageQueue q)
                     (instance_message (session_id s) (session_name s) jid action insUser insPassword))
                   (\<lambda>e. ret (http_error ''failed to handle your request'' 500))
                   (\<lambda>_. ret (Body \<lparr>Ir_JobID = jid, Ir_Action = action\<rparr>)))"

definition Deploy ::
  "'x amqp \<Rightarrow> nat \<Rightarrow> MQ \<Rightarrow> (string \<Rightarrow> string) \<Rightarrow> int \<Rightarrow> string \<Rightarrow> string \<Rightarrow> ('x, InstanceResponse reply) act" where
  "Deploy a cap q digest now insUser insPassword = handleInstanceAction a cap q digest now DEPLOY insUser insPassword"

definition StopInstance_handler ::
  "'x amqp \<Rightarrow> nat \<Rightarrow> MQ \<Rightarrow> (string \<Rightarrow> string) \<Rightarrow> int \<Rightarrow> ('x, InstanceResponse reply) act" where
  "StopInstance_handler a cap q digest now = handleInstanceAction a cap q digest now STOP [] []"

definition DeleteInstance_handler ::
  "'x amqp \<Rightarrow> nat \<Rightarrow> MQ \<Rightarrow> (string \<Rightarrow> string) \<Rightarrow> int \<Rightarrow> ('x, InstanceResponse reply) act" where
  "DeleteInstance_handler a cap q digest now = handleInstanceAction a cap q digest now KILL [] []"

section \<open>Polling\<close>

record JobResponseDeploy =
  Jd_Done :: bool
  Jd_Instance :: web_Instance

record JobResponseSK =
  Js_Done :: bool
  Js_Success :: bool

definition handleDeployResult :: "string \<Rightarrow> ('x, JobResponseDeploy reply) act" where
  "handleDeployResult jobID =
     handle (on_redis (GetDeployResult jobID))
       (\<lambda>e. ret (http_error ''failed to handle your request'' 500))
       (\<lambda>r. ret (Body (case r of
              None \<Rightarrow> \<lparr>Jd_Done = False, Jd_Instance = zero_web_Instance\<rparr>
            | Some inst \<Rightarrow> \<lparr>Jd_Done = True, Jd_Instance = inst\<rparr>)))"

definition handleSKResult :: "(string \<Rightarrow> (rds, bool option) prog) \<Rightarrow> string \<Rightarrow> ('x, JobResponseSK reply) act" where
  "handleSKResult getResult jobID =
     handle (on_redis (getResult jobID))
       (\<lambda>e. ret (http_error ''failed to handle your request'' 500))
       (\<lambda>r. ret (Body (case r of
              None \<Rightarrow> \<lparr>Js_Done = False, Js_Success = False\<rparr>
            | Some b \<Rightarrow> \<lparr>Js_Done = True, Js_Success = b\<rparr>)))"

definition DeployResult :: "string \<Rightarrow> ('x, JobResponseDeploy reply) act" where
  "DeployResult jobID = handleDeployResult jobID"

definition StopResult :: "string \<Rightarrow> ('x, JobResponseSK reply) act" where
  "StopResult jobID = handleSKResult GetStopResult jobID"

definition KillResult :: "string \<Rightarrow> ('x, JobResponseSK reply) act" where
  "KillResult jobID = handleSKResult GetKillResult jobID"

section \<open>What a request for a job does\<close>

lemma empty_MQ_no_key: "routing_key (NewStore_MessageQueue q) (InstanceMessage m) = None"
  by (simp add: routing_key_def NewStore_MessageQueue_def)

lemma push_without_queue:
  assumes "Encode a (InstanceMessage m) = Inr body" and "pool w = ch # rest" and "\<not> IsClosed a (outside w) ch"
  shows "PushMessageInstance a cap (NewStore_MessageQueue q) (InstanceMessage m) w =
    (Crash ''nil pointer dereference'', w\<lparr>pool := rest\<rparr>)"
  using assms by (simp add: PushMessageInstance_def tri_eq GetFreeChannel_def empty_MQ_no_key crash_def)

lemma push_waits:
  assumes "Encode a m = Inr body" and "pool w = []"
  shows "PushMessageInstance a cap q m w = (Crash ''waits for a channel'', w)"
  using assms by (simp add: PushMessageInstance_def tri_eq GetFreeChannel_def)

text \<open>A request of either of the kinds that carry no form, or a deployment with a valid one.\<close>

lemma request_loses_channel:
  assumes "\<And>m. \<exists>body. Encode a (InstanceMessage m) = Inr body" and "\<And>c. \<not> IsClosed a (outside w) c"
    and "\<not> form_rejected action u p"
  shows "handleInstanceAction a cap q digest now action u p w =
    (case pool w of [] \<Rightarrow> (Crash ''waits for a channel'', w)
     | ch # rest \<Rightarrow> (Crash ''nil pointer dereference'', w\<lparr>pool := rest\<rparr>))"
proof -
  let ?s = "fst (session w)"
  let ?jid = "generateHashedJobID digest now (session_id ?s) (session_name ?s)"
  let ?m = "instance_message (session_id ?s) (session_name ?s) ?jid action u p"
  obtain m where m: "?m = InstanceMessage m" by (simp add: instance_message_def)
  obtain body where b: "Encode a (InstanceMessage m) = Inr body" using assms(1) by blast
  have "PushMessageInstance a cap (NewStore_MessageQueue q) ?m w =
    (case pool w of [] \<Rightarrow> (Crash ''waits for a channel'', w)
     | ch # rest \<Rightarrow> (Crash ''nil pointer dereference'', w\<lparr>pool := rest\<rparr>))"
    using push_waits [OF b] push_without_queue [OF b _ assms(2)] by (cases "pool w") (simp_all add: m)
  with assms(3) show ?thesis
    by (cases "pool w") (simp_all add: handleInstanceAction_def tri_eq get_field_def handle_def Let_def)
qed

type_synonym job_request = "string \<times> string \<times> string \<times> int"

fun serve_jobs :: "'x amqp \<Rightarrow> nat \<Rightarrow> MQ \<Rightarrow> (string \<Rightarrow> string) \<Rightarrow> job_request list \<Rightarrow> 'x world \<Rightarrow> 'x world" where
  "serve_jobs a cap q digest [] w = w"
| "serve_jobs a cap q digest ((action, u, p, now) # rs) w =
     serve_jobs a cap q digest rs (snd (handleInstanceAction a cap q digest now action u p w))"

lemma serve_jobs_pool:
  assumes "\<And>m. \<exists>body. Encode a (InstanceMessage m) = Inr body" and "\<And>x c. \<not> IsClosed a x c"
  shows "serve_jobs a cap q digest rs w =
    w\<lparr>pool := drop (length (filter (\<lambda>(action, u, p, now). \<not> form_rejected action u p) rs)) (pool w)\<rparr>"
proof (induction rs arbitrary: w)
  case Nil
  then show ?case by simp
next
  case (Cons r rs)
  obtain action u p now where r: "r = (action, u, p, now)" by (cases r)
  show ?case
  proof (cases "form_rejected action u p")
    case True
    with Cons.IH r show ?thesis
      by (simp add: handleInstanceAction_def tri_eq get_field_def ret_def)
  next
    case False
    with Cons.IH r request_loses_channel [OF assms, of action u p] show ?thesis
      by (cases "pool w") simp_all
  qed
qed

text \<open>With the storage that \<open>NewStore\<close> builds, no request for a job is ever published: each valid one takes a
  channel from the pool, dereferences the nil pointer of the queue and keeps the channel. After as many
  valid requests as the pool had channels, the pool is empty and every further publication, those of the
  tunnels included, waits for ever. Nothing else changes.\<close>

lemma job_requests_drain_pool:
  assumes "\<And>m. \<exists>body. Encode a (InstanceMessage m) = Inr body" and "\<And>x c. \<not> IsClosed a x c"
    and "length (pool w) \<le> length (filter (\<lambda>(action, u, p, now). \<not> form_rejected action u p) rs)"
    and "Encode a m = Inr body"
  shows "serve_jobs a cap q digest rs w = w\<lparr>pool := []\<rparr> \<and>
    PushMessageInstance a cap q m (serve_jobs a cap q digest rs w) = (Crash ''waits for a channel'', w\<lparr>pool := []\<rparr>)"
  using assms(3) push_waits [OF assms(4), of "w\<lparr>pool := []\<rparr>"]
  by (simp add: serve_jobs_pool [OF assms(1,2)])

definition three_requests :: "job_request list" where
  "three_requests = [(STOP, [], [], 7), (DEPLOY, ''x'', ''y'', 8), (KILL, [], [], 9)]"

lemma job_requests_drain_pool_witness:
  "let w = serve_jobs sample_amqp 32 main_queues (\<lambda>s. s) three_requests two_channels
   in pool w = [] \<and> fst (PushMessageInstance sample_amqp 32 main_queues a_tunnel w) = Crash ''waits for a channel''"
proof -
  have len: "length (pool two_channels) \<le> length (filter (\<lambda>(action, u, p, now). \<not> form_rejected action u p) three_requests)"
    by code_simp
  have enc: "\<exists>body. Encode sample_amqp (InstanceMessage m) = Inr body" "Encode sample_amqp a_tunnel = Inr ''d''"
    and "\<not> IsClosed sample_amqp x c" for m x c
    by (simp_all add: sample_amqp_def a_tunnel_def)
  from job_requests_drain_pool [OF enc(1) this(3) len enc(2), of 32 main_queues "\<lambda>s. s"] show ?thesis
    by (auto simp: Let_def)
qed

end
