(* ===== verification/Auth.thy ===== *)
theory Auth
  imports World
begin

text \<open>
  \<^verbatim>\<open>internal/store/auth.go\<close>, \<^verbatim>\<open>cmd/auth_handler.go\<close> and
  \<^verbatim>\<open>cmd/middleware.go\<close>: accounts, their verification by mail, login and the two guards
  in front of the handlers. Hashing (bcrypt), the source of tokens (uuidgen, the clock, SHA-256) and
  the rendering of a Redis command are parameters.
\<close>

section \<open>The store\<close>

text \<open>bcrypt gives a hash and an error; the error is logged and the hash, then nil, is returned all the same.\<close>

definition hashedPassword :: "(string \<Rightarrow> string option \<times> go_error option) \<Rightarrow> string \<Rightarrow> string option" where
  "hashedPassword generateFromPassword password = (case generateFromPassword password of (hash, err) \<Rightarrow> hash)"

text \<open>\<open>uuid\<close> is the output of \<^verbatim>\<open>uuidgen\<close>, \<open>None\<close> when it fails, which ends the process.\<close>

definition GenerateToken :: "(string \<Rightarrow> string) \<Rightarrow> string option \<Rightarrow> string \<Rightarrow> string \<Rightarrow> string option" where
  "GenerateToken sha256 uuid now email =
     (case uuid of None \<Rightarrow> None | Some u \<Rightarrow> Some (hex_text (sha256 (email @ now @ hex_text u))))"

lemma GenerateToken_hex: "GenerateToken sha256 uuid now email = Some token \<Longrightarrow> is_hex token"
  by (auto simp: GenerateToken_def split: option.splits)

definition CreateUser_store ::
  "(string \<Rightarrow> string option \<times> go_error option) \<Rightarrow> string \<Rightarrow> string \<Rightarrow> string \<Rightarrow> string \<Rightarrow> string \<Rightarrow> (db, unit) prog" where
  "CreateUser_store bcrypt first_name last_name email password user_name =
     handle (serve (sql_insert_user first_name last_name email (hashedPassword bcrypt password) user_name))
       (\<lambda>e. if contains (error_text e) ''23505'' then fail (ErrText ''username or email already exists'') else fail e)
       ret"

definition VerifyUser_store :: "string \<Rightarrow> (db, unit) prog" where
  "VerifyUser_store email = tri (serve (sql_verify_user email)) (\<lambda>_. ret ())"

definition user_model :: "user_row \<Rightarrow> User" where
  "user_model r =
     \<lparr>Id = u_id r, Email = u_email r, First_name = u_first r, Last_name = u_last r, User_name = u_name r,
      Password = u_hash r, Verified = u_verified r\<rparr>"

definition named_user :: "string \<Rightarrow> (user_row \<Rightarrow> 'a) \<Rightarrow> tables \<Rightarrow> 'a res" where
  "named_user name f t = first_row (\<lambda>u. u_name u = name) f (users t)"

definition LoginUser_store :: "(string \<Rightarrow> string \<Rightarrow> bool) \<Rightarrow> string \<Rightarrow> string \<Rightarrow> (db, User) prog" where
  "LoginUser_store matches userName password =
     handle (serve (sql_read (named_user userName u_verified)))
       (\<lambda>e. fail (ErrText USER_NAME_INVALID))
       (\<lambda>verified.
          if \<not> verified then fail (ErrText USER_NOT_VERIFIED)
          else handle (serve (sql_read (named_user userName user_model)))
                 (\<lambda>e. fail (ErrText USER_NAME_INVALID))
                 (\<lambda>userModel.
                    if \<not> matches (Password userModel) password then fail (ErrText WRONG_CREDENTIALS)
                    else ret userModel))"

lemma named_user_quiet: "fst (sql_read (named_user n f) t) \<noteq> Crash c"
  by (simp add: sql_read_def named_user_def first_row_def split: list.split)

lemma auth_store_quiet [quiet_intros]:
  "quiet (CreateUser_store h a b c d e)" "quiet (VerifyUser_store email)" "quiet (LoginUser_store m u p)"
  unfolding CreateUser_store_def VerifyUser_store_def LoginUser_store_def
  by (intro quiet_intros quiet_serve named_user_quiet)+

lemma auth_store_schema [keeps_intros]:
  "keeps (holds schema_ok) (CreateUser_store h a b c d e)" "keeps (holds schema_ok) (VerifyUser_store email)"
  "keeps (holds schema_ok) (LoginUser_store m u p)"
  unfolding CreateUser_store_def VerifyUser_store_def LoginUser_store_def
  by (intro keeps_intros schema_keeps; assumption)+

section \<open>The handlers\<close>

record signup_form =
  f_email :: string
  f_password :: string
  f_user_name :: string
  f_first_name :: string
  f_last_name :: string

definition user_of_form :: "signup_form \<Rightarrow> User" where
  "user_of_form f =
     \<lparr>Id = 0, Email = f_email f, First_name = f_first_name f, Last_name = f_last_name f,
      User_name = f_user_name f, Password = f_password f, Verified = False\<rparr>"

text \<open>
  \<open>GenerateToken\<close> gives \<open>None\<close> where it leaves the process. The error of
  \<^verbatim>\<open>SetEmailToken\<close> is not looked at, and the mail is sent by a goroutine.
\<close>

definition CreateUser_handler ::
  "(string \<Rightarrow> string option \<times> go_error option) \<Rightarrow> (string \<Rightarrow> string option) \<Rightarrow> signup_form \<Rightarrow> ('x, unit reply) act" where
  "CreateUser_handler bcrypt generateToken form =
     tri (get_field (\<lambda>w. is_authorized (fst (session w))))
       (\<lambda>isAuthorized.
          let user = user_of_form form in
          if isAuthorized then ret (Redirect ''/'')
          else if \<not> ValidateEmail user then ret (Status 400 ''Email is in the wrong format'')
          else if \<not> ValidatePassword user then ret (Status 400 ''Password format is wrong'')
          else if \<not> ValidateFLNames user
            then ret (Status 400 ''First name or/and last name is in the wrong format'')
          else if \<not> ValidateUserName user then ret (Status 400 ''User name format is wrong'')
          else handle (on_pg (CreateUser_store bcrypt (First_name user) (Last_name user) (Email user)
                        (Password user) (User_name user)))
                 (\<lambda>e. ret (Status 500 (error_text e)))
                 (\<lambda>_. case generateToken (Email user) of
                        None \<Rightarrow> crash ''uuidgen''
                      | Some token \<Rightarrow>
                          tri (logged (on_redis (SetEmailToken (Email user) token)))
                            (\<lambda>_. tri (set_field (\<lambda>w. w\<lparr>mails := mails w @ [(Email user, token)]\<rparr>))
                               (\<lambda>_. ret (Redirect ''/kws_signin'')))))"

fun split_on :: "char \<Rightarrow> string \<Rightarrow> string list" where
  "split_on c [] = [[]]"
| "split_on c (x # xs) =
     (if x = c then [] # split_on c xs
      else case split_on c xs of [] \<Rightarrow> [[x]] | p # ps \<Rightarrow> (x # p) # ps)"

text \<open>Indexing the parts at 2 panics when there are fewer than three.\<close>

definition VerifyUser_handler ::
  "(string \<Rightarrow> content res \<Rightarrow> string) \<Rightarrow> string \<Rightarrow> ('x, unit reply) act" where
  "VerifyUser_handler cmd_text token =
     tri (on_redis (GetEmailFromToken cmd_text token))
       (\<lambda>value.
          let parts = split_on (CHR '':'') value in
          if length parts \<le> 2 then crash ''index out of range''
          else let email = parts ! 2 in
            handle (on_redis (DeleteEmailToken token))
              (\<lambda>e. ret (Status 410 ''The link got expied. Try again''))
              (\<lambda>_. handle (on_pg (VerifyUser_store email))
                 (\<lambda>e. ret (Status 500 ''Failed to verify. Try again''))
                 (\<lambda>_. ret (Redirect ''/kws_signin''))))"

definition LoginUser_handler ::
  "(string \<Rightarrow> string \<Rightarrow> bool) \<Rightarrow> string \<Rightarrow> string \<Rightarrow> ('x, unit reply) act" where
  "LoginUser_handler matches userName password =
     tri (get_field (\<lambda>w. is_authorized (fst (session w))))
       (\<lambda>isAuthorized.
          if isAuthorized then ret (Redirect ''/'')
          else handle (on_pg (LoginUser_store matches userName password))
                 (\<lambda>e. ret (Status 400
                    (if error_text e = USER_NAME_INVALID \<or> error_text e = WRONG_CREDENTIALS
                     then ''Password or user name is wrong''
                     else if error_text e = USER_NOT_VERIFIED then ''You are not verified.''
                     else [])))
                 (\<lambda>userModel.
                    tri (set_field (\<lambda>w. w\<lparr>session :=
                          (\<lparr>is_authorized = True, session_id = Id userModel, session_name = User_name userModel\<rparr>,
                           snd (session w))\<rparr>))
                      (\<lambda>_. ret (Redirect ''/''))))"

definition LogOutUser :: "('x, unit reply) act" where
  "LogOutUser =
     tri (get_field (\<lambda>w. is_authorized (fst (session w))))
       (\<lambda>isAuthorized.
          if \<not> isAuthorized then ret (Status 401 ''You are not authorized to logout'')
          else handle (on_session (serve (\<lambda>s. (Ok (), no_session))))
                 (\<lambda>e. ret (Status 500 ''Failed to logout''))
                 (\<lambda>_. ret (Redirect ''/kws_signin'')))"

section \<open>The guards\<close>

definition IsAuthorized :: "('x, 'b reply) act \<Rightarrow> ('x, 'b reply) act" where
  "IsAuthorized next =
     tri (get_field (\<lambda>w. is_authorized (fst (session w))))
       (\<lambda>isAuthorized. if \<not> isAuthorized then ret (Redirect ''/kws_signin'') else next)"

definition IsTunnelUserAuthorized :: "string \<Rightarrow> (int \<Rightarrow> ('x, 'b reply) act) \<Rightarrow> ('x, 'b reply) act" where
  "IsTunnelUserAuthorized secret next =
     (if secret = [] then ret (http_error ''Missing secret header'' 401)
      else handle (on_redis (GetUidFromTunnelSecret secret))
             (\<lambda>e. ret (http_error ''Unauthorized request'' 401))
             next)"


section \<open>Cutting the rendered command\<close>

lemma split_on_single: "c \<notin> set xs \<Longrightarrow> split_on c xs = [xs]"
  by (induction xs) auto

lemma split_on_sep: "c \<notin> set xs \<Longrightarrow> split_on c (xs @ c # ys) = xs # split_on c ys"
  by (induction xs) auto

lemma parts_of_command:
  assumes "CHR '':'' \<notin> set token"
  shows "split_on (CHR '':'') (''get '' @ token @ '': '' @ v) = (''get '' @ token) # split_on (CHR '':'') ('' '' @ v)"
  using split_on_sep [of "CHR '':''" "''get '' @ token" "'' '' @ v"] assms by simp

lemma parts_of_email:
  assumes "CHR '':'' \<notin> set token" and "CHR '':'' \<notin> set email"
  shows "split_on (CHR '':'') (''get '' @ token @ '': '' @ ''email:'' @ email) = [''get '' @ token, '' email'', email]"
  using parts_of_command [OF assms(1), of "''email:'' @ email"] split_on_sep [of "CHR '':''" "'' email''" email]
    split_on_single [OF assms(2)] by simp

section \<open>From registration to login\<close>

text \<open>The row a registration adds, and the same row once it is verified.\<close>

definition new_user :: "string \<Rightarrow> signup_form \<Rightarrow> int \<Rightarrow> user_row" where
  "new_user h form uid =
     \<lparr>u_id = uid, u_first = f_first_name form, u_last = f_last_name form, u_email = f_email form, u_hash = h,
      u_name = f_user_name form, u_verified = False\<rparr>"

definition valid_form :: "signup_form \<Rightarrow> bool" where
  "valid_form form \<longleftrightarrow> ValidateEmail (user_of_form form) \<and> ValidatePassword (user_of_form form) \<and>
     ValidateFLNames (user_of_form form) \<and> ValidateUserName (user_of_form form)"

definition unused :: "signup_form \<Rightarrow> tables \<Rightarrow> bool" where
  "unused form t \<longleftrightarrow> list_all (\<lambda>u. u_email u \<noteq> f_email form \<and> u_name u \<noteq> f_user_name form) (users t)"

lemma signup_effect:
  assumes "valid_form form" "unused form t" "\<not> is_authorized (fst (session w))"
    and "hashedPassword bcrypt (f_password form) = Some h" "gen (f_email form) = Some token"
    and "pg w = (t, [])" "redis w = (ks, [])"
  shows "CreateUser_handler bcrypt gen form w =
    (Ok (Redirect ''/kws_signin''),
     w\<lparr>pg := (t\<lparr>users := users t @ [new_user h form (next_user_id t)], next_user_id := next_user_id t + 1\<rparr>, []),
       redis := (ks(token \<mapsto> \<lparr>val_of = Text (''email:'' @ f_email form), ttl_hours = Some 24\<rparr>), []),
       mails := mails w @ [(f_email form, token)]\<rparr>)"
proof -
  have "\<not> list_ex (\<lambda>u. u_email u = f_email form \<or> u_name u = f_user_name form) (users t)"
    using assms(2) by (auto simp: unused_def list_ex_iff list_all_iff)
  then show ?thesis
    using assms by (simp add: CreateUser_handler_def valid_form_def act_eqs prog_defs CreateUser_store_def
        SetEmailToken_def sql_insert_user_def r_set_def user_of_form_def new_user_def)
qed

lemma verify_effect:
  assumes "rendered cmd_text" "CHR '':'' \<notin> set token" "CHR '':'' \<notin> set email"
    and "pg w = (t, [])" "redis w = (ks, [])" "ks token = Some \<lparr>val_of = Text (''email:'' @ email), ttl_hours = ttl\<rparr>"
  shows "VerifyUser_handler cmd_text token w =
    (Ok (Redirect ''/kws_signin''), w\<lparr>pg := (snd (sql_verify_user email t), []), redis := (ks(token := None), [])\<rparr>)"
proof -
  have "cmd_text token (Ok (Text (''email:'' @ email))) = ''get '' @ token @ '': '' @ ''email:'' @ email"
    using assms(1) unfolding rendered_def by blast
  with parts_of_email [OF assms(2,3)] have "split_on (CHR '':'') (cmd_text token (Ok (Text (''email:'' @ email)))) =
      [''get '' @ token, '' email'', email]" by simp
  then show ?thesis
    using assms(4-6) by (simp add: VerifyUser_handler_def GetEmailFromToken_def r_get_def DeleteEmailToken_def
        r_del_def VerifyUser_store_def sql_verify_user_def act_eqs prog_defs Let_def)
qed

lemma named_user_last:
  "u_name r = n \<Longrightarrow> list_all (\<lambda>u. u_name u \<noteq> n) us \<Longrightarrow> users t = us @ [r] \<Longrightarrow> named_user n f t = Ok (f r)"
proof -
  assume "u_name r = n" "list_all (\<lambda>u. u_name u \<noteq> n) us" "users t = us @ [r]"
  moreover from this have "filter (\<lambda>u. u_name u = n) us = []" by (simp add: filter_empty_conv list_all_iff)
  ultimately show ?thesis by (simp add: named_user_def first_row_def)
qed

lemma login_effect:
  assumes "named_user n user_model t = Ok m" "named_user n u_verified t = Ok (Verified m)"
    and "matches (Password m) p" "\<not> is_authorized (fst (session w))" "pg w = (t, [])"
  shows "LoginUser_handler matches n p w =
    (if Verified m
     then (Ok (Redirect ''/''),
       w\<lparr>session := (\<lparr>is_authorized = True, session_id = Id m, session_name = User_name m\<rparr>, snd (session w))\<rparr>)
     else (Ok (Status 400 ''You are not verified.''), w))"
  using assms by (simp add: LoginUser_handler_def LoginUser_store_def sql_read_def act_eqs prog_defs)


text \<open>C28: the whole way of an account, on servers that answer: a valid form whose e-mail and user name are
  unused is accepted, login is refused as long as the mailed token has not been used, the token
  verifies exactly this account, and then the login with the password succeeds and puts the new
  account's id and name into the session. (bcrypt and
  \<^verbatim>\<open>uuidgen\<close> must succeed, the hash must fit the password, and the client renders a Redis
  command as documented.)\<close>

theorem signup_verify_login:
  assumes "valid_form form" and "unused form t" and "\<not> is_authorized (fst (session w))"
    and "hashedPassword bcrypt (f_password form) = Some h" and "matches h (f_password form)"
    and "GenerateToken sha uuid now (f_email form) = Some token" and "rendered cmd_text"
    and "pg w = (t, [])" and "redis w = (ks, [])"
  shows "\<exists>w1 w2 w3.
    CreateUser_handler bcrypt (GenerateToken sha uuid now) form w = (Ok (Redirect ''/kws_signin''), w1) \<and>
    LoginUser_handler matches (f_user_name form) (f_password form) w1 = (Ok (Status 400 ''You are not verified.''), w1) \<and>
    VerifyUser_handler cmd_text token w1 = (Ok (Redirect ''/kws_signin''), w2) \<and>
    LoginUser_handler matches (f_user_name form) (f_password form) w2 = (Ok (Redirect ''/''), w3) \<and>
    fst (session w3) = \<lparr>is_authorized = True, session_id = next_user_id t, session_name = f_user_name form\<rparr>"
proof -
  define row where "row = new_user h form (next_user_id t)"
  define t1 where "t1 = t\<lparr>users := users t @ [row], next_user_id := next_user_id t + 1\<rparr>"
  define t2 where "t2 = snd (sql_verify_user (f_email form) t1)"
  note signup = signup_effect [where w = w and bcrypt = bcrypt and gen = "GenerateToken sha uuid now",
      OF assms(1-4,6,8,9), folded row_def, folded t1_def]
  have email: "CHR '':'' \<notin> set (f_email form)"
    using ValidateEmail_no_colon [of "user_of_form form"] assms(1) by (simp add: valid_form_def user_of_form_def)
  have names: "list_all (\<lambda>u. u_name u \<noteq> f_user_name form) (users t)"
    using assms(2) by (simp add: unused_def list_all_iff)
  have "map (\<lambda>u. if u_email u = f_email form then u\<lparr>u_verified := True\<rparr> else u) (users t) = users t"
    using assms(2) by (intro map_idI) (auto simp: unused_def list_all_iff)
  then have t2: "users t2 = users t @ [row\<lparr>u_verified := True\<rparr>]"
    by (simp add: t2_def t1_def sql_verify_user_def row_def new_user_def)
  have r: "u_name row = f_user_name form" "u_name (row\<lparr>u_verified := True\<rparr>) = f_user_name form"
    by (simp_all add: row_def new_user_def)
  have t1: "users t1 = users t @ [row]" by (simp add: t1_def)
  note q1 = named_user_last [OF r(1) names t1] and q2 = named_user_last [OF r(2) names t2]
  have v1: "named_user (f_user_name form) u_verified t1 = Ok (Verified (user_model row))"
    and v2: "named_user (f_user_name form) u_verified t2 = Ok (Verified (user_model (row\<lparr>u_verified := True\<rparr>)))"
    using q1 [where f = u_verified] q2 [where f = u_verified] by (simp_all add: user_model_def)
  define w1 where "w1 = snd (CreateUser_handler bcrypt (GenerateToken sha uuid now) form w)"
  define w2 where "w2 = w1\<lparr>pg := (t2, []), redis := (((fst (redis w1))(token := None)), [])\<rparr>"
  have w1: "pg w1 = (t1, [])" "session w1 = session w"
      "redis w1 = (ks(token \<mapsto> \<lparr>val_of = Text (''email:'' @ f_email form), ttl_hours = Some 24\<rparr>), [])"
    by (simp_all add: w1_def signup)
  have "VerifyUser_handler cmd_text token w1 = (Ok (Redirect ''/kws_signin''), w2)"
    using verify_effect [OF assms(7) is_hex_no_colon [OF GenerateToken_hex [OF assms(6)]] email w1(1) w1(3)] by (simp add: w2_def t2_def w1(3))
  moreover have "LoginUser_handler matches (f_user_name form) (f_password form) w1 =
      (Ok (Status 400 ''You are not verified.''), w1)"
    using login_effect [where w = w1 and matches = matches, OF q1 v1, of "f_password form"] w1 assms(3,5)
    by (simp add: row_def new_user_def user_model_def)
  moreover have "LoginUser_handler matches (f_user_name form) (f_password form) w2 = (Ok (Redirect ''/''),
      w2\<lparr>session := (\<lparr>is_authorized = True, session_id = next_user_id t, session_name = f_user_name form\<rparr>, snd (session w2))\<rparr>)"
    using login_effect [where w = w2 and matches = matches, OF q2 v2, of "f_password form"] w1 assms(3,5)
    by (simp add: row_def new_user_def user_model_def w2_def)
  moreover have "CreateUser_handler bcrypt (GenerateToken sha uuid now) form w = (Ok (Redirect ''/kws_signin''), w1)"
    by (simp add: w1_def signup)
  ultimately show ?thesis by auto
qed

definition plain_cmd :: "string \<Rightarrow> content res \<Rightarrow> string" where
  "plain_cmd token r =
     ''get '' @ token @ '': '' @
       (case r of Ok (Text v) \<Rightarrow> v | Ok _ \<Rightarrow> ''...'' | Er e \<Rightarrow> error_text e | Crash c \<Rightarrow> c)"

lemma plain_cmd_rendered: "rendered plain_cmd"
  by (simp add: rendered_def plain_cmd_def)

definition sample_form :: signup_form where
  "sample_form =
     \<lparr>f_email = ''ann.lee@gmail.com'', f_password = ''Passw0rd!'', f_user_name = ''ann.lee'',
      f_first_name = ''Ann'', f_last_name = ''Lee''\<rparr>"

theorem signup_verify_login_witness:
  "\<exists>w3. fst (session w3) = \<lparr>is_authorized = True, session_id = 1, session_name = ''ann.lee''\<rparr> \<and>
     (\<exists>w2. LoginUser_handler (\<lambda>h p. h = p) ''ann.lee'' ''Passw0rd!'' w2 = (Ok (Redirect ''/''), w3 :: unit world))"
proof -
  let ?w = "quiet_world empty_tables Map.empty" and ?eq = "\<lambda>h p. h = p"
  have "\<exists>w1 w2 w3.
      CreateUser_handler (\<lambda>p. (Some p, None)) (GenerateToken id (Some ''u1'') ''12:00'') sample_form ?w = (Ok (Redirect ''/kws_signin''), w1) \<and>
      LoginUser_handler ?eq (f_user_name sample_form) (f_password sample_form) w1 = (Ok (Status 400 ''You are not verified.''), w1) \<and>
      VerifyUser_handler plain_cmd (hex_text (''ann.lee@gmail.com'' @ ''12:00'' @ hex_text ''u1'')) w1 = (Ok (Redirect ''/kws_signin''), w2) \<and>
      LoginUser_handler ?eq (f_user_name sample_form) (f_password sample_form) w2 = (Ok (Redirect ''/''), w3) \<and>
      fst (session w3) = \<lparr>is_authorized = True, session_id = next_user_id empty_tables, session_name = f_user_name sample_form\<rparr>"
  proof (rule signup_verify_login)
    show "valid_form sample_form" "unused sample_form empty_tables" by code_simp+
    show "rendered plain_cmd" by (rule plain_cmd_rendered)
  qed (simp_all add: quiet_world_def no_session_def hashedPassword_def GenerateToken_def sample_form_def)
  then show ?thesis by (auto simp: sample_form_def empty_tables_def)
qed

section \<open>Login\<close>

text \<open>A session becomes authorized by \<open>LoginUser\<close> only for a verified account with that user name
  whose stored hash the given password matches, and it then carries that account's id, whatever the
  database answers.\<close>

lemma LoginUser_store_Ok:
  assumes "LoginUser_store matches n p (t, as) = (Ok m, (t', as'))"
  shows "t' = t \<and> (\<exists>u \<in> set (users t). u_name u = n \<and> u_verified u \<and> matches (u_hash u) p \<and> m = user_model u)"
proof -
  obtain q1 t1 as1 where s1: "serve (sql_read (named_user n u_verified)) (t, as) = (q1, (t1, as1))"
    by (metis prod.exhaust)
  have t1: "t1 = t" using serve_read_state [of "named_user n u_verified" "(t, as)"] s1 by simp
  obtain q2 t2 as2 where s2: "serve (sql_read (named_user n user_model)) (t, as1) = (q2, (t2, as2))"
    by (metis prod.exhaust)
  have t2: "t2 = t" using serve_read_state [of "named_user n user_model" "(t, as1)"] s2 by simp
  have q: "q1 = Ok True" "q2 = Ok m" "matches (Password m) p" "t' = t"
    using assms s1 s2 t1 t2
    by (cases q1; cases q2; auto simp: LoginUser_store_def prog_defs split: if_splits)+
  have read: "named_user n u_verified t = Ok True" "named_user n user_model t = Ok m"
    using serve_OkD [OF s1 [unfolded q(1)]] serve_OkD [OF s2 [unfolded q(2)]] t1 by (auto simp: sql_read_def)
  then obtain u rest where f: "filter (\<lambda>u. u_name u = n) (users t) = u # rest"
    by (auto simp: named_user_def first_row_def split: list.splits)
  then have "u \<in> set (filter (\<lambda>u. u_name u = n) (users t))" by simp
  moreover have "u_verified u" "m = user_model u"
    using read f by (simp_all add: named_user_def first_row_def)
  ultimately show ?thesis using q by (auto simp: user_model_def)
qed

lemma login_sound:
  assumes "LoginUser_handler matches n p w = (r, w')" and "\<not> is_authorized (fst (session w))"
    and "is_authorized (fst (session w'))"
  shows "\<exists>u \<in> set (users (fst (pg w))). u_name u = n \<and> u_verified u \<and> matches (u_hash u) p \<and>
    fst (session w') = \<lparr>is_authorized = True, session_id = u_id u, session_name = n\<rparr>"
proof -
  obtain t as where w: "pg w = (t, as)" by (cases "pg w")
  obtain q t' as' where l: "LoginUser_store matches n p (t, as) = (q, (t', as'))" by (metis prod.exhaust)
  with assms w obtain m where m: "q = Ok m"
    "fst (session w') = \<lparr>is_authorized = True, session_id = Id m, session_name = User_name m\<rparr>"
    by (cases q) (auto simp: LoginUser_handler_def act_eqs prog_defs)
  from LoginUser_store_Ok [OF l [unfolded m(1)]] m(2) w show ?thesis by (auto simp: user_model_def)
qed

definition sample_accounts :: tables where
  "sample_accounts = empty_tables\<lparr>users := [(new_user ''pw'' sample_form 4)\<lparr>u_verified := True\<rparr>]\<rparr>"

lemma login_sound_witness:
  "\<exists>u \<in> set (users sample_accounts). u_id u = 4 \<and> u_verified u \<and> u_hash u = ''pw''"
proof -
  let ?w = "quiet_world sample_accounts Map.empty"
  obtain r w' where l: "LoginUser_handler (\<lambda>h p. h = p) ''ann.lee'' ''pw'' ?w = (r, w')"
    by (metis prod.exhaust)
  moreover have "is_authorized (fst (session (snd (LoginUser_handler (\<lambda>h p. h = p) ''ann.lee'' ''pw'' ?w))))"
    and "session_id (fst (session (snd (LoginUser_handler (\<lambda>h p. h = p) ''ann.lee'' ''pw'' ?w)))) = 4"
    by code_simp+
  moreover have "\<not> is_authorized (fst (session ?w))" by code_simp
  moreover have "fst (pg ?w) = sample_accounts" by (simp add: quiet_world_def)
  ultimately show ?thesis using login_sound [OF l] by auto
qed

section \<open>The verification link\<close>

text \<open>Every key of Redis can be named in a verification link. For the secret of a tunnel the rendered
  command has no third part, so the handler panics; the account and the secret are untouched.\<close>

lemma verify_panics_on_tunnel_secret:
  assumes "rendered cmd_text" and "CHR '':'' \<notin> set secret"
    and "fst (redis w) secret = Some \<lparr>val_of = Text (itoa uid), ttl_hours = ttl\<rparr>" and "snd (redis w) = []"
  shows "VerifyUser_handler cmd_text secret w = (Crash ''index out of range'', w)"
proof -
  obtain ks where r: "redis w = (ks, [])" using assms(4) by (cases "redis w") simp
  have "CHR '':'' \<notin> set (itoa uid)"
    using itoa_chars [of "CHR '':''" uid] by (auto simp: char_class_defs)
  then have "split_on (CHR '':'') ('' '' @ itoa uid) = ['' '' @ itoa uid]" by (intro split_on_single) simp
  moreover have "cmd_text secret (Ok (Text (itoa uid))) = ''get '' @ secret @ '': '' @ itoa uid"
    using assms(1) unfolding rendered_def by blast
  ultimately have "length (split_on (CHR '':'') (cmd_text secret (Ok (Text (itoa uid))))) = 2"
    using parts_of_command [OF assms(2), of "itoa uid"] by simp
  moreover have "w\<lparr>redis := (ks, [])\<rparr> = w" using r by simp
  ultimately show ?thesis
    using assms(3) r by (simp add: VerifyUser_handler_def GetEmailFromToken_def r_get_def act_eqs prog_defs Let_def)
qed

lemma verify_panics_on_tunnel_secret_witness:
  "fst (VerifyUser_handler plain_cmd ''s1'' (quiet_world empty_tables [''s1'' \<mapsto> \<lparr>val_of = Text (itoa 7), ttl_hours = Some 24\<rparr>]))
     = Crash ''index out of range''"
  by (subst verify_panics_on_tunnel_secret [OF plain_cmd_rendered]) (simp_all add: quiet_world_def)

text \<open>The link is consumed before the account is verified, so when the database refuses the update the
  user is told to try again with a token that no longer exists, and stays unverified.\<close>

lemma verify_loses_token:
  assumes "rendered cmd_text" and "CHR '':'' \<notin> set token" and "CHR '':'' \<notin> set email"
    and "pg w = (t, [Refused e])" and "redis w = (ks, [])"
    and "ks token = Some \<lparr>val_of = Text (''email:'' @ email), ttl_hours = ttl\<rparr>"
  shows "VerifyUser_handler cmd_text token w =
    (Ok (Status 500 ''Failed to verify. Try again''), w\<lparr>pg := (t, []), redis := (ks(token := None), [])\<rparr>)"
proof -
  have "cmd_text token (Ok (Text (''email:'' @ email))) = ''get '' @ token @ '': '' @ ''email:'' @ email"
    using assms(1) unfolding rendered_def by blast
  with parts_of_email [OF assms(2,3)] have "split_on (CHR '':'') (cmd_text token (Ok (Text (''email:'' @ email)))) =
      [''get '' @ token, '' email'', email]" by simp
  then show ?thesis
    using assms(4-6) by (simp add: VerifyUser_handler_def GetEmailFromToken_def r_get_def DeleteEmailToken_def
        r_del_def VerifyUser_store_def act_eqs prog_defs Let_def)
qed

definition one_token :: keyspace where
  "one_token = [''t1'' \<mapsto> \<lparr>val_of = Text (''email:'' @ ''ann.lee@gmail.com''), ttl_hours = Some 24\<rparr>]"

lemma verify_loses_token_witness:
  "fst (redis (snd (VerifyUser_handler plain_cmd ''t1''
     ((quiet_world sample_accounts one_token)\<lparr>pg := (sample_accounts, [Refused (ConnErr ''timeout'')])\<rparr>)))) ''t1'' = None"
  by (subst verify_loses_token [where token = "''t1''" and email = "''ann.lee@gmail.com''" and ks = one_token
        and t = sample_accounts and e = "ConnErr ''timeout''" and ttl = "Some 24"])
     (simp_all add: quiet_world_def plain_cmd_rendered one_token_def)

end
