(* ===== verification/Tunnels_App.thy ===== *)
theory Tunnels_App
  imports Message_Queue Nginx_Conf Auth
begin

text \<open>
  \<^verbatim>\<open>cmd/tunnel_handler.go\<close> and \<^verbatim>\<open>cmd/tunnel_utility.go\<close>: login of the
  tunnel client, the requests that create and destroy a tunnel, and the consumer of the tunnel queue. The
  lemmas give what a delivery is told to the broker, and the fate of a request to destroy.
\<close>

section \<open>The requests\<close>

text \<open>\<open>randomBytes\<close> is what \<^verbatim>\<open>rand.Read\<close> fills the 32 bytes with, \<open>None\<close> when it fails.\<close>

definition LoginTunnelUser ::
  "(string \<Rightarrow> string \<Rightarrow> bool) \<Rightarrow> string option \<Rightarrow> string \<Rightarrow> string \<Rightarrow> ('x, string reply) act" where
  "LoginTunnelUser matches randomBytes userName password =
     handle (on_pg (LoginUser_store matches userName password))
       (\<lambda>e. ret (http_error
          (if error_text e = USER_NAME_INVALID \<or> error_text e = WRONG_CREDENTIALS
           then ''Password or user name is wrong''
           else if error_text e = USER_NOT_VERIFIED then ''You are not verified.''
           else []) 400))
       (\<lambda>userModel. case randomBytes of
            None \<Rightarrow> ret (http_error ''Failed to generate secret'' 500)
          | Some secretBytes \<Rightarrow>
              let secret = hex_text secretBytes in
              handle (on_redis (SetTunnelLogin secret (Id userModel)))
                (\<lambda>e. ret (http_error ''Failed to save session'' 500))
                (\<lambda>_. ret (Body secret)))"

text \<open>\<^verbatim>\<open>strconv.ParseBool\<close>.\<close>

definition parse_bool :: "string \<Rightarrow> bool option" where
  "parse_bool s =
     (if s \<in> {''1'', ''t'', ''T'', ''true'', ''TRUE'', ''True''} then Some True
      else if s \<in> {''0'', ''f'', ''F'', ''false'', ''FALSE'', ''False''} then Some False
      else None)"

text \<open>An accepted request is answered with an empty body.\<close>

definition CreateTunnel_handler ::
  "'x amqp \<Rightarrow> nat \<Rightarrow> MQ \<Rightarrow> string \<Rightarrow> string \<Rightarrow> string \<Rightarrow> int \<Rightarrow> ('x, unit reply) act" where
  "CreateTunnel_handler a cap q domain isCustom tunnelName uid =
     (case parse_bool isCustom of
        None \<Rightarrow> ret (http_error ''Bad format'' 400)
      | Some isCustomB \<Rightarrow>
          handle (PushMessageInstance a cap q
              (TunnelMessage \<lparr>Tm_Domain = domain, Tm_IsCustom = isCustomB, Tm_Name = tunnelName, Tm_Uid = uid\<rparr>))
            (\<lambda>e. ret (http_error ''failed to process your tunnel request'' 500))
            (\<lambda>_. ret (Body ())))"

text \<open>
  The row is deleted first, then its domain is looked up, without the user id. The error of
  \<^verbatim>\<open>RemoveConf\<close> is overwritten.
\<close>

definition DestroyTunnel_handler :: "'x docker \<Rightarrow> string \<Rightarrow> int \<Rightarrow> ('x, unit reply) act" where
  "DestroyTunnel_handler dk tunnelName uid =
     handle (on_pg (DestroyTunnel_store
         \<lparr>Tun_Name = tunnelName, Tun_UID = uid, Tun_Domain = [], Tun_IsCustom = False\<rparr>))
       (\<lambda>e. ret (http_error ''Internal server error'' 500))
       (\<lambda>_. handle (on_pg (GetDomainFromTunnel
              \<lparr>Tun_Name = tunnelName, Tun_UID = 0, Tun_Domain = [], Tun_IsCustom = False\<rparr>))
          (\<lambda>e. ret (http_error ''Internal error'' 500))
          (\<lambda>domain. tri (logged (on_disk (RemoveConf (domain_only domain))))
             (\<lambda>_. handle (ReloadNginxConf dk NGINX_CONTAINER)
                (\<lambda>e. ret (http_error ''Internal error'' 500))
                (\<lambda>_. ret (Body ())))))"

section \<open>The consumer\<close>

text \<open>\<^verbatim>\<open>strconv.Atoi\<close> with its error dropped: a range error comes with the nearest bound.\<close>

definition wrap64 :: "int \<Rightarrow> int" where
  "wrap64 n = (n + 2 ^ 63) mod 2 ^ 64 - 2 ^ 63"

fun signed_value :: "string \<Rightarrow> int option" where
  "signed_value [] = None"
| "signed_value (c # cs) =
     (if c = CHR ''-'' then map_option (\<lambda>n. - int n) (parse_unsigned cs)
      else if c = CHR ''+'' then map_option int (parse_unsigned cs)
      else map_option int (parse_unsigned (c # cs)))"

definition atoi_lax :: "string \<Rightarrow> int" where
  "atoi_lax s = (case signed_value s of None \<Rightarrow> 0 | Some n \<Rightarrow> max (- (2 ^ 63)) (min (2 ^ 63 - 1) n))"

definition retry_count :: "header_value option \<Rightarrow> int" where
  "retry_count v =
     (case v of
        Some (HInt32 n) \<Rightarrow> n | Some (HInt64 n) \<Rightarrow> n | Some (HStr s) \<Rightarrow> atoi_lax s | _ \<Rightarrow> 0)"

text \<open>Writing to the nil table of a delivery without headers panics.\<close>

definition IncrementRetryCounter :: "('x, unit) act" where
  "IncrementRetryCounter =
     tri (get_field headers)
       (\<lambda>h. case h of
            None \<Rightarrow> crash ''assignment to entry in nil map''
          | Some t \<Rightarrow> set_field (\<lambda>w. w\<lparr>headers :=
              Some (t(X_RETRY_COUNTER \<mapsto> HInt (wrap64 (retry_count (t X_RETRY_COUNTER) + 1))))\<rparr>))"

definition to_retry_queue :: "('x, unit) act" where
  "to_retry_queue = tri IncrementRetryCounter (\<lambda>_. settle_with Nack)"

definition undo_conf :: "'x docker \<Rightarrow> Template \<Rightarrow> ('x, unit) act" where
  "undo_conf dk template =
     tri (logged (on_disk (RemoveConf template)))
       (\<lambda>_. tri (logged (ReloadNginxConf dk NGINX_CONTAINER)) (\<lambda>_. to_retry_queue))"

definition tunnel_row_of :: "TunnelQueueMessage \<Rightarrow> Tunnels" where
  "tunnel_row_of m =
     \<lparr>Tun_Name = Tm_Name m, Tun_UID = Tm_Uid m, Tun_Domain = Tm_Domain m, Tun_IsCustom = Tm_IsCustom m\<rparr>"

text \<open>No branch returns: every step runs whatever became of the one before.\<close>

definition CreateTunnelUtility :: "'x docker \<Rightarrow> TunnelQueueMessage \<Rightarrow> ('x, unit) act" where
  "CreateTunnelUtility dk m =
     (let template = domain_only (Tm_Domain m)
      in tri (handle (on_disk (AddNewConf template DOMAIN_TEMPLATE)) (\<lambda>e. to_retry_queue) ret)
           (\<lambda>_. tri (handle (ReloadNginxConf dk NGINX_CONTAINER) (\<lambda>e. undo_conf dk template) ret)
              (\<lambda>_. tri (handle (on_pg (CreateTunnel_store (tunnel_row_of m))) (\<lambda>e. undo_conf dk template) ret)
                 (\<lambda>_. settle_with Ack))))"

text \<open>
  One round of the loop. The header is compared with the untyped constant 3, which becomes an
  \<^verbatim>\<open>int\<close>: a value of another type is different whatever its number.
\<close>

definition ConsumeMessageTunnel :: "'x docker \<Rightarrow> TunnelQueueMessage \<Rightarrow> ('x, unit) act" where
  "ConsumeMessageTunnel dk m =
     tri (get_field headers)
       (\<lambda>h. if (case h of None \<Rightarrow> None | Some t \<Rightarrow> t X_RETRY_COUNTER) = Some (HInt 3)
            then settle_with Ack
            else CreateTunnelUtility dk m)"

section \<open>What a delivery is told\<close>

text \<open>\<open>refusal r\<close> is what the broker hears of a step that came back with \<open>r\<close>; \<open>ran r p\<close>: \<open>p\<close> holds if the program came back.\<close>

definition refusal :: "unit res \<Rightarrow> settle list" where
  "refusal r = (if r = Ok () then [] else [Nack])"

definition ran :: "unit res \<Rightarrow> bool \<Rightarrow> bool" where
  "ran r p \<longleftrightarrow> (case r of Ok u \<Rightarrow> p | Er e \<Rightarrow> False | Crash c \<Rightarrow> True)"

lemma ran_simps [simp]: "ran (Ok u) p = p" "ran (Er e) p = False" "ran (Crash c) p = True"
  by (simp_all add: ran_def)

lemma reload_run:
  assumes "ReloadNginxConf dk c w = (r, w')"
  shows "(\<exists>x. w' = w\<lparr>outside := x\<rparr>) \<and> (\<forall>e. r \<noteq> Er e)"
  using assms
  by (auto simp: ReloadNginxConf_def ExecAndPrint_def extern_eq handle_def fail_def crash_def ret_def
      split: prod.splits res.splits)

lemma to_retry_run:
  assumes "to_retry_queue w = (r, w')"
  shows "ran r (\<exists>h. w' = w\<lparr>headers := h, settled := settled w @ [Nack]\<rparr>)"
  using assms
  by (auto simp: to_retry_queue_def IncrementRetryCounter_def tri_eq get_field_def set_field_def settle_with_def
      crash_def split: option.splits)

lemma undo_run:
  assumes "undo_conf dk t w = (r, w')"
  shows "ran r (settled w' = settled w @ [Nack] \<and> pg w' = pg w)"
proof -
  obtain q1 w1 where 1: "logged (on_disk (RemoveConf t)) w = (q1, w1)" by (metis prod.exhaust)
  then have w1: "settled w1 = settled w" "pg w1 = pg w" "\<forall>e. q1 \<noteq> Er e"
    by (auto simp: logged_def handle_def on_disk_eq ret_def split: prod.splits res.splits)
  obtain q2 w2 where 2: "logged (ReloadNginxConf dk NGINX_CONTAINER) w1 = (q2, w2)" by (metis prod.exhaust)
  have w2: "settled w2 = settled w1" "pg w2 = pg w1" "\<forall>e. q2 \<noteq> Er e"
    using 2 by (auto simp: logged_def handle_def ret_def split: prod.splits res.splits dest!: reload_run)
  obtain q3 w3 where 3: "to_retry_queue w2 = (q3, w3)" by (metis prod.exhaust)
  have undo: "undo_conf dk t w = (case q1 of Ok u \<Rightarrow> (case q2 of Ok v \<Rightarrow> (q3, w3) | Er e \<Rightarrow> (Er e, w2) | Crash c \<Rightarrow> (Crash c, w2))
      | Er e \<Rightarrow> (Er e, w1) | Crash c \<Rightarrow> (Crash c, w1))"
    using 1 2 3 by (simp add: undo_conf_def tri_eq split: res.split)
  show ?thesis
  proof (cases q1)
    case 1: (Ok u)
    show ?thesis
    proof (cases q2)
      case (Ok v)
      with 1 undo assms have "q3 = r" "w3 = w'" by simp_all
      with to_retry_run [OF 3] w1 w2 show ?thesis by (cases r) auto
    qed (use 1 undo assms w2 in auto)
  qed (use undo assms w1 in auto)
qed

lemma conf_step:
  assumes "handle (on_disk m) (\<lambda>e. to_retry_queue) ret w = (r, w')" and "quiet m"
  shows "ran r (settled w' = settled w @ refusal (fst (m (disk w))) \<and> pg w' = pg w \<and> disk w' = snd (m (disk w)))"
proof -
  obtain q d where m: "m (disk w) = (q, d)" by (metis prod.exhaust)
  have "q \<noteq> Crash c" for c by (rule quiet_result [OF assms(2) m])
  with assms(1) m show ?thesis
    by (cases q) (auto simp: handle_def on_disk_eq ret_def refusal_def ran_def split: res.splits dest!: to_retry_run)
qed

lemma row_step:
  assumes "handle (on_pg m) (\<lambda>e. undo_conf dk t) ret w = (r, w')" and "quiet m"
  shows "ran r (settled w' = settled w @ refusal (fst (m (pg w))) \<and> pg w' = snd (m (pg w)) \<and>
    (fst (m (pg w)) = Ok () \<longrightarrow> disk w' = disk w))"
proof -
  obtain q d where m: "m (pg w) = (q, d)" by (metis prod.exhaust)
  have "q \<noteq> Crash c" for c by (rule quiet_result [OF assms(2) m])
  with assms(1) m show ?thesis
    by (cases q) (auto simp: handle_def on_pg_eq ret_def refusal_def ran_def split: res.splits dest!: undo_run)
qed

lemma AddNewConf_quiet: "quiet (AddNewConf t ty)"
  unfolding AddNewConf_def Let_def by (intro quiet_intros quiet_serve) (simp_all add: os_write_def)

lemma utility_run:
  assumes "CreateTunnelUtility dk m w = (r, w')"
  shows "ran r (settled w' = settled w @ refusal (fst (AddNewConf (domain_only (Tm_Domain m)) DOMAIN_TEMPLATE (disk w))) @
      refusal (fst (CreateTunnel_store (tunnel_row_of m) (pg w))) @ [Ack] \<and>
    pg w' = snd (CreateTunnel_store (tunnel_row_of m) (pg w)) \<and>
    (fst (CreateTunnel_store (tunnel_row_of m) (pg w)) = Ok () \<longrightarrow>
       disk w' = snd (AddNewConf (domain_only (Tm_Domain m)) DOMAIN_TEMPLATE (disk w))))"
proof -
  let ?t = "domain_only (Tm_Domain m)"
  obtain q1 w1 where 1: "handle (on_disk (AddNewConf ?t DOMAIN_TEMPLATE)) (\<lambda>e. to_retry_queue) ret w = (q1, w1)"
    by (metis prod.exhaust)
  obtain q2 w2 where 2: "handle (ReloadNginxConf dk NGINX_CONTAINER) (\<lambda>e. undo_conf dk ?t) ret w1 = (q2, w2)"
    by (metis prod.exhaust)
  have w2: "settled w2 = settled w1 \<and> pg w2 = pg w1 \<and> disk w2 = disk w1 \<and> (\<forall>e. q2 \<noteq> Er e)"
    using 2 by (auto simp: handle_def ret_def split: prod.splits res.splits dest!: reload_run)
  obtain q3 w3 where 3: "handle (on_pg (CreateTunnel_store (tunnel_row_of m))) (\<lambda>e. undo_conf dk ?t) ret w2 = (q3, w3)"
    by (metis prod.exhaust)
  have run: "CreateTunnelUtility dk m w =
      (case q1 of Ok u \<Rightarrow> (case q2 of Ok v \<Rightarrow>
          (case q3 of Ok x \<Rightarrow> settle_with Ack w3 | Er e \<Rightarrow> (Er e, w3) | Crash c \<Rightarrow> (Crash c, w3))
        | Er e \<Rightarrow> (Er e, w2) | Crash c \<Rightarrow> (Crash c, w2)) | Er e \<Rightarrow> (Er e, w1) | Crash c \<Rightarrow> (Crash c, w1))"
    using 1 2 3 by (simp add: CreateTunnelUtility_def Let_def tri_eq split: res.split)
  note c = conf_step [OF 1 AddNewConf_quiet] and t = row_step [OF 3 domain_store_quiet(7)]
  show ?thesis
  proof (cases q1)
    case q1: (Ok u)
    show ?thesis
    proof (cases q2)
      case q2: (Ok v)
      show ?thesis
      proof (cases q3)
        case (Ok x)
        with q1 q2 run assms have "r = Ok ()" "w' = w3\<lparr>settled := settled w3 @ [Ack]\<rparr>"
          by (simp_all add: settle_with_def)
        with c t w2 q1 Ok show ?thesis by simp
      qed (use q1 q2 run assms t in auto)
    qed (use q1 run assms w2 in auto)
  qed (use run assms c in auto)
qed

lemma AddNewConf_written:
  assumes "fst (AddNewConf t DOMAIN_TEMPLATE d) = Ok ()"
  shows "fst (snd (AddNewConf t DOMAIN_TEMPLATE d)) (conf_path (T_Domain t)) = Some (domainTemplate t)"
proof -
  let ?p = "conf_path (T_Domain t)"
  obtain f as where d: "d = (f, as)" by (cases d)
  obtain q1 f1 as1 where 1: "serve (os_write ?p []) (f, as) = (q1, (f1, as1))" by (metis prod.exhaust)
  obtain q2 d2 where 2: "serve (os_write ?p (domainTemplate t)) (f1, as1) = (q2, d2)" by (metis prod.exhaust)
  from assms 1 2 d have "q2 = Ok ()" by (cases q1) (auto simp: AddNewConf_def Let_def tri_eq)
  with 2 serve_OkD [of "os_write ?p (domainTemplate t)" f1 as1 "()" d2]
  have "fst d2 = f1(?p \<mapsto> domainTemplate t)" by (simp add: os_write_def)
  with assms 1 2 d show ?thesis by (cases q1) (auto simp: AddNewConf_def Let_def tri_eq)
qed

lemma CreateTunnel_stored:
  assumes "fst (CreateTunnel_store tn d) = Ok ()"
  shows "\<lparr>t_name = Tun_Name tn, t_user = Tun_UID tn, t_domain = Tun_Domain tn, t_custom = Tun_IsCustom tn\<rparr>
    \<in> set (tunnels (fst (snd (CreateTunnel_store tn d))))"
proof -
  let ?f = "sql_insert_tunnel (Tun_UID tn) (Tun_Domain tn) (Tun_IsCustom tn) (Tun_Name tn)"
  obtain t as where d: "d = (t, as)" by (cases d)
  obtain q d2 where 1: "serve ?f (t, as) = (q, d2)" by (metis prod.exhaust)
  from assms 1 d have "q = Ok ()" by (cases q) (auto simp: CreateTunnel_store_def handle_def fail_def split: if_splits)
  with serve_OkD [of ?f t as "()" d2] 1 have "?f t = (Ok (), fst d2)" by simp
  then have "fst d2 = t\<lparr>tunnels := tunnels t @
      [\<lparr>t_name = Tun_Name tn, t_user = Tun_UID tn, t_domain = Tun_Domain tn, t_custom = Tun_IsCustom tn\<rparr>]\<rparr>"
    by (auto simp: sql_insert_tunnel_def split: if_splits)
  with \<open>q = Ok ()\<close> 1 d show ?thesis by (auto simp: CreateTunnel_store_def handle_def ret_def)
qed

definition from_broker :: "header_table option \<Rightarrow> bool" where
  "from_broker h \<longleftrightarrow> (case h of None \<Rightarrow> True | Some t \<Rightarrow> (case t X_RETRY_COUNTER of Some (HInt n) \<Rightarrow> False | _ \<Rightarrow> True))"

text \<open>C34: a delivery of the tunnel queue that is worked on to its end is told \<open>Nack\<close> once for each step that
  failed and then \<open>Ack\<close>, so a delivery is either acknowledged alone, and then configuration and row are
  in place, or it is settled two or three times. The count of retries in its header, which the broker
  delivers in another integer type than the one compared with, plays no part.\<close>

theorem tunnel_settlements:
  assumes "from_broker (headers w)" and "ConsumeMessageTunnel dk m w = (Ok (), w')"
  shows "settled w' = settled w @ refusal (fst (AddNewConf (domain_only (Tm_Domain m)) DOMAIN_TEMPLATE (disk w))) @
      refusal (fst (CreateTunnel_store (tunnel_row_of m) (pg w))) @ [Ack] \<and>
    (settled w' = settled w @ [Ack] \<longrightarrow>
       fst (disk w') (conf_path (Tm_Domain m)) = Some (domainTemplate (domain_only (Tm_Domain m))) \<and>
       \<lparr>t_name = Tm_Name m, t_user = Tm_Uid m, t_domain = Tm_Domain m, t_custom = Tm_IsCustom m\<rparr>
         \<in> set (tunnels (fst (pg w'))))"
proof -
  let ?t = "domain_only (Tm_Domain m)"
  have "CreateTunnelUtility dk m w = (Ok (), w')"
    using assms by (auto simp: ConsumeMessageTunnel_def from_broker_def tri_eq get_field_def
        split: option.splits header_value.splits if_splits)
  note u = utility_run [OF this, simplified]
  have "fst (AddNewConf ?t DOMAIN_TEMPLATE (disk w)) = Ok () \<and> fst (CreateTunnel_store (tunnel_row_of m) (pg w)) = Ok ()"
    if "settled w' = settled w @ [Ack]"
    using u that by (simp add: refusal_def split: if_splits)
  with u show ?thesis
    using AddNewConf_written [of ?t "disk w"] CreateTunnel_stored [of "tunnel_row_of m" "pg w"]
    by (auto simp: domain_only_def tunnel_row_of_def)
qed

definition refused_insert :: "unit world" where
  "refused_insert = (quiet_world empty_tables Map.empty)
     \<lparr>headers := Some [X_RETRY_COUNTER \<mapsto> HInt32 3], pg := (empty_tables, [Refused (ConnErr ''timeout'')])\<rparr>"

definition tunnel_msg :: TunnelQueueMessage where
  "tunnel_msg = \<lparr>Tm_Domain = ''d'', Tm_IsCustom = False, Tm_Name = ''t'', Tm_Uid = 1\<rparr>"

theorem tunnel_settlements_witness:
  "settled (snd (ConsumeMessageTunnel idle_docker tunnel_msg refused_insert)) = [Nack, Ack]"
proof -
  let ?r = "ConsumeMessageTunnel idle_docker tunnel_msg refused_insert"
  have "from_broker (headers refused_insert)" by (simp add: from_broker_def refused_insert_def)
  moreover have "fst ?r = Ok ()" by code_simp
  then have "?r = (Ok (), snd ?r)" by (metis prod.collapse)
  ultimately have "settled (snd ?r) = settled refused_insert @
      refusal (fst (AddNewConf (domain_only (Tm_Domain tunnel_msg)) DOMAIN_TEMPLATE (disk refused_insert))) @
      refusal (fst (CreateTunnel_store (tunnel_row_of tunnel_msg) (pg refused_insert))) @ [Ack]"
    using tunnel_settlements by blast
  moreover have "fst (CreateTunnel_store (tunnel_row_of tunnel_msg) (pg refused_insert)) = Er (ErrText ''timeout'')"
    and "fst (AddNewConf (domain_only (Tm_Domain tunnel_msg)) DOMAIN_TEMPLATE (disk refused_insert)) = Ok ()"
    and "settled refused_insert = []"
    by code_simp+
  ultimately show ?thesis by (simp add: refusal_def)
qed

section \<open>Destroying a tunnel\<close>

text \<open>C35: no request to destroy a tunnel succeeds. Whatever the servers answer, the reply is an internal error
  (user ids start at 1, and the domain is looked up for user 0), the configuration of the tunnel stays on
  the disk and the proxy is not reloaded.\<close>

theorem DestroyTunnel_never_succeeds:
  assumes "schema_ok (fst (pg w))" and "0 \<notin> u_id ` set (users (fst (pg w)))"
    and "DestroyTunnel_handler dk name uid w = (r, w')"
  shows "(\<exists>msg. r = Ok (Status 500 msg)) \<and> disk w' = disk w \<and> outside w' = outside w"
proof -
  let ?d = "\<lparr>Tun_Name = name, Tun_UID = uid, Tun_Domain = [], Tun_IsCustom = False\<rparr>"
  let ?g = "\<lparr>Tun_Name = name, Tun_UID = 0, Tun_Domain = [], Tun_IsCustom = False\<rparr>"
  obtain t as where w: "pg w = (t, as)" by (cases "pg w")
  obtain q1 d1 where 1: "DestroyTunnel_store ?d (t, as) = (q1, d1)" by (metis prod.exhaust)
  obtain q2 d2 where 2: "GetDomainFromTunnel ?g d1 = (q2, d2)" by (metis prod.exhaust)
  have "q1 \<noteq> Crash c" for c by (rule quiet_result [OF domain_store_quiet(8) 1])
  moreover have "q1 \<noteq> Er e" for e
    using 1 by (auto simp: DestroyTunnel_store_def handle_def ret_def split: prod.splits res.splits)
  ultimately have q1: "q1 = Ok ()" by (cases q1) auto
  have "list_all (\<lambda>r. t_user r \<noteq> 0) (tunnels t)"
    using assms(1,2) w by (auto simp: schema_ok_def tunnels_ok_def list_all_iff known_user_iff)
  then have h: "holds (\<lambda>t. list_all (\<lambda>r. t_user r \<noteq> 0) (tunnels t)) d1"
    using serve_state [of "sql_delete_tunnel name uid" "(t, as)"] 1
    by (auto simp: DestroyTunnel_store_def handle_def ret_def holds_def sql_delete_tunnel_def list_all_iff
        split: prod.splits res.splits)
  have q2: "q2 \<noteq> Ok dom" for dom
  proof
    assume "q2 = Ok dom"
    obtain t1 as1 where d1: "d1 = (t1, as1)" by (cases d1)
    let ?f = "\<lambda>t. first_row (\<lambda>r. t_name r = name \<and> t_user r = 0) t_domain (tunnels t)"
    obtain q3 d3 where s: "serve (sql_read ?f) (t1, as1) = (q3, d3)" by (metis prod.exhaust)
    from \<open>q2 = Ok dom\<close> 2 s d1 have "q3 = Ok dom"
      by (cases q3) (auto simp: GetDomainFromTunnel_def handle_def fail_def ret_def)
    with serve_OkD [of "sql_read ?f" t1 as1 dom d3] s have "?f t1 = Ok dom" by (auto simp: sql_read_def)
    moreover have "filter (\<lambda>r. t_name r = name \<and> t_user r = 0) (tunnels t1) = []"
      using h d1 by (auto simp: filter_empty_conv list_all_iff)
    ultimately show False by (simp add: first_row_def)
  qed
  have "q2 \<noteq> Crash c" for c by (rule quiet_result [OF domain_store_quiet(9) 2])
  with q2 obtain e where "q2 = Er e" by (cases q2) auto
  with assms(3) w 1 2 q1 show ?thesis
    by (auto simp: DestroyTunnel_handler_def handle_def on_pg_eq ret_def http_error_def)
qed

theorem DestroyTunnel_never_succeeds_witness:
  "\<exists>msg. fst (DestroyTunnel_handler idle_docker ''t'' 1 (quiet_world empty_tables Map.empty)) = Ok (Status 500 msg)"
proof -
  let ?w = "quiet_world empty_tables Map.empty"
  let ?r = "DestroyTunnel_handler idle_docker ''t'' 1 ?w"
  have "schema_ok (fst (pg ?w))" "0 \<notin> u_id ` set (users (fst (pg ?w)))"
    using schema_ok_empty by (simp_all add: quiet_world_def) (simp add: empty_tables_def)
  moreover have "?r = (fst ?r, snd ?r)" by simp
  ultimately show ?thesis using DestroyTunnel_never_succeeds by blast
qed

end
