(* ===== verification/Wg_Ops.thy ===== *)
theory Wg_Ops
  imports Ip_Calls Nginx_Conf
begin

text \<open>
  \<^verbatim>\<open>internal/wg/operations.go\<close> and \<^verbatim>\<open>cmd/wireguard_handler.go\<close>: the
  WireGuard interface, the peers in the kernel beside their rows in the database, and the three
  requests. The netlink and wgctrl libraries are parameters. The lemmas show which keys are stored, what an
  online query does with one that does not parse, and how two texts of one key disturb each other.
\<close>

section \<open>The libraries\<close>

text \<open>
  A key is known by its 32 bytes. An allowed address is the text given to \<^verbatim>\<open>net.ParseIP\<close>
  with the length of its mask; a handshake is a time in nanoseconds, \<open>None\<close> when it is zero.
\<close>

record PeerConfig =
  Pc_PublicKey :: string
  Pc_AllowedIPs :: "(string \<times> nat) list"
  Pc_Keepalive :: "int option"
  Pc_ReplaceAllowedIPs :: bool
  Pc_Remove :: bool

record wg_config =
  Cf_PrivateKey :: "string option"
  Cf_ListenPort :: "int option"
  Cf_ReplacePeers :: bool
  Cf_Peers :: "PeerConfig list"

record kernel_peer =
  Kp_PublicKey :: string
  Kp_LastHandshake :: "int option"

record 'x wgctrl =
  ParseKey :: "string \<Rightarrow> go_error + string"
  ConfigureDevice :: "string \<Rightarrow> wg_config \<Rightarrow> ('x, unit) call"
  Device :: "string \<Rightarrow> ('x, kernel_peer list) call"

record 'x netlink =
  LinkList :: "('x, string list) call"
  LinkAdd :: "string \<Rightarrow> string \<Rightarrow> ('x, unit) call"
  ParseAddr :: "string \<Rightarrow> go_error + string"
  AddrAdd :: "string \<Rightarrow> string \<Rightarrow> ('x, unit) call"
  LinkSetUp :: "string \<Rightarrow> ('x, unit) call"

section \<open>The interface\<close>

definition SetForwardBitToOne :: "('x, unit) act" where
  "SetForwardBitToOne = on_disk (serve (os_write ''/proc/sys/net/ipv4/ip_forward'' ''1''))"

definition interfaceExists :: "'x netlink \<Rightarrow> string \<Rightarrow> ('x, bool) act" where
  "interfaceExists n iface = handle (extern (LinkList n)) (\<lambda>e. ret False) (\<lambda>links. ret (iface \<in> set links))"

definition CreateInterfaceWgMain :: "'x netlink \<Rightarrow> ('x, unit) act" where
  "CreateInterfaceWgMain n =
     tri (interfaceExists n INTERFACE_NAME)
       (\<lambda>exists.
          if exists then fail (ErrText INTERFACE_ALREADY_EXISTS)
          else tri (extern (LinkAdd n INTERFACE_NAME ''wireguard''))
            (\<lambda>_. case ParseAddr n INTERFACE_ADDRESS of
                Inl e \<Rightarrow> fail e
              | Inr addr \<Rightarrow>
                  tri (extern (AddrAdd n INTERFACE_NAME addr)) (\<lambda>_. extern (LinkSetUp n INTERFACE_NAME))))"

definition ConfigureWireguard :: "'x wgctrl \<Rightarrow> string \<Rightarrow> ('x, unit) act" where
  "ConfigureWireguard c wgPrivateKey =
     (case ParseKey c wgPrivateKey of
        Inl e \<Rightarrow> fail e
      | Inr privateKey \<Rightarrow>
          extern (ConfigureDevice c INTERFACE_NAME
            \<lparr>Cf_PrivateKey = Some privateKey, Cf_ListenPort = Some 51820, Cf_ReplacePeers = False, Cf_Peers = []\<rparr>))"

section \<open>Peers\<close>

definition peers_only :: "PeerConfig list \<Rightarrow> wg_config" where
  "peers_only ps = \<lparr>Cf_PrivateKey = None, Cf_ListenPort = None, Cf_ReplacePeers = False, Cf_Peers = ps\<rparr>"

definition peer_conf :: "string \<Rightarrow> string \<Rightarrow> PeerConfig" where
  "peer_conf peerPubKey peerIP =
     \<lparr>Pc_PublicKey = peerPubKey, Pc_AllowedIPs = [(peerIP, 32)], Pc_Keepalive = Some (25 * 10 ^ 9),
      Pc_ReplaceAllowedIPs = True, Pc_Remove = False\<rparr>"

definition peer_removal :: "string \<Rightarrow> PeerConfig" where
  "peer_removal peerPubKey =
     \<lparr>Pc_PublicKey = peerPubKey, Pc_AllowedIPs = [], Pc_Keepalive = None, Pc_ReplaceAllowedIPs = False, Pc_Remove = True\<rparr>"

text \<open>The row is committed before the kernel is configured, and stays when that fails.\<close>

definition AddPeer :: "IPAllocator \<Rightarrow> 'x wgctrl \<Rightarrow> int \<Rightarrow> string \<Rightarrow> ('x, string) act" where
  "AddPeer ipAlloc c uid pubKey =
     (case ParseKey c pubKey of
        Inl e \<Rightarrow> fail e
      | Inr peerPubKey \<Rightarrow>
          tri (AllocateFreeIp ipAlloc uid pubKey)
            (\<lambda>peerIP. tri (extern (ConfigureDevice c INTERFACE_NAME (peers_only [peer_conf peerPubKey peerIP])))
               (\<lambda>_. ret peerIP)))"

definition RemovePeer :: "'x wgctrl \<Rightarrow> string \<Rightarrow> int \<Rightarrow> ('x, unit) act" where
  "RemovePeer c pubKey uid =
     tri (DeAllocateIP pubKey uid)
       (\<lambda>_. case ParseKey c pubKey of
           Inl e \<Rightarrow> fail e
         | Inr peerPubKey \<Rightarrow> extern (ConfigureDevice c INTERFACE_NAME (peers_only [peer_removal peerPubKey])))"

text \<open>A key that does not parse ends the process through \<^verbatim>\<open>log.Fatalf\<close>.\<close>

definition recently :: "int \<Rightarrow> int option \<Rightarrow> bool" where
  "recently now handshake = (case handshake of None \<Rightarrow> False | Some t \<Rightarrow> now - t < 2 * 60 * 10 ^ 9)"

definition IsOnline :: "'x wgctrl \<Rightarrow> int \<Rightarrow> string \<Rightarrow> ('x, bool) act" where
  "IsOnline c now publicKey =
     (case ParseKey c publicKey of
        Inl e \<Rightarrow> crash (''Invalid public key: '' @ error_text e)
      | Inr pubKey \<Rightarrow>
          tri (extern (Device c ''wg0''))
            (\<lambda>peers. case filter (\<lambda>p. Kp_PublicKey p = pubKey) peers of
                [] \<Rightarrow> ret False
              | p # _ \<Rightarrow> ret (recently now (Kp_LastHandshake p))))"

section \<open>The requests\<close>

record ResponseBody =
  Rb_Active :: bool
  Rb_Ip :: string
  Rb_PublicKey :: string

definition RegisterDevice :: "IPAllocator \<Rightarrow> 'x wgctrl \<Rightarrow> string \<Rightarrow> ('x, ResponseBody reply) act" where
  "RegisterDevice ipAlloc c publicKey =
     tri uid_of_session
       (\<lambda>uid. handle (AddPeer ipAlloc c uid publicKey)
          (\<lambda>e. ret (http_error ''Cannot add device'' 500))
          (\<lambda>ipAddr. ret (Body \<lparr>Rb_Active = False, Rb_Ip = ipAddr, Rb_PublicKey = publicKey\<rparr>)))"

definition RemoveDevice :: "'x wgctrl \<Rightarrow> string \<Rightarrow> ('x, unit reply) act" where
  "RemoveDevice c publicKey =
     tri uid_of_session
       (\<lambda>uid. handle (RemovePeer c publicKey uid)
          (\<lambda>e. ret (http_error ''Something went wrong'' 500))
          (\<lambda>_. ret (Status 200 ''Successfully removed a peer'')))"

definition IsOnline_handler :: "'x wgctrl \<Rightarrow> int \<Rightarrow> string \<Rightarrow> ('x, bool reply) act" where
  "IsOnline_handler c now publicKey =
     handle (IsOnline c now publicKey)
       (\<lambda>e. ret (http_error ''Something went wrong'' 500))
       (\<lambda>isActive. ret (Body isActive))"

section \<open>Rows that a registration leaves alone\<close>

text \<open>A property of the tables that the insertion of a device row of the user keeps is kept by the whole allocation.\<close>

lemma AllocateFreeIp_keeps:
  assumes "\<And>t ip. I t \<Longrightarrow> I (snd (sql_insert_wgpeer uid key ip t))"
  shows "keeps (\<lambda>w. holds I (pg w)) (AllocateFreeIp al uid key)"
proof -
  have ins: "keeps (holds I) (serve (sql_insert_wgpeer uid key ip))" for ip
    by (rule keeps_serve, erule assms)
  have step: "I t \<Longrightarrow> attempt_insert wg_column (sql_insert_wgpeer uid key) m t ip t' \<Longrightarrow> I t'" for m t ip t'
    using assms [of t ip] attempt_insertD [of wg_column "sql_insert_wgpeer uid key" m t ip t'] by simp
  have "keeps (holds I) (AllocateNextFreeIP_wg m uid \<lparr>PublicKey = key, IpAddress = 0\<rparr>)" for m
    unfolding AllocateNextFreeIP_wg_def HitMaxLimit_def
    by (intro keeps_intros tx_loop_keeps) (simp, erule (1) step)
  moreover have "keeps (holds I) (AddPeer_store uid \<lparr>PublicKey = key, IpAddress = ip\<rparr>)" for ip
    unfolding AddPeer_store_def HitMaxLimit_def by (intro keeps_intros) (simp add: ins)
  ultimately show ?thesis
    unfolding AllocateFreeIp_def by (intro keeps_intros)
qed

lemma DeAllocateIP_keeps:
  assumes "\<And>t. I t \<Longrightarrow> I (snd (sql_delete_wgpeer key uid t))"
  shows "keeps (\<lambda>w. holds I (pg w)) (DeAllocateIP key uid)"
proof -
  have "keeps (holds I) (RemovePeer_store key uid)"
    unfolding RemovePeer_store_def by (intro keeps_intros keeps_serve) (erule assms)
  then show ?thesis unfolding DeAllocateIP_def by (intro keeps_intros)
qed

lemma extern_pg [keeps_intros]: "keeps (\<lambda>w. holds I (pg w)) (extern m)"
  by (auto simp: keeps_def extern_eq split: prod.split)

lemma AddPeer_keeps:
  assumes "\<And>t ip k. ParseKey c key = Inr k \<Longrightarrow> I t \<Longrightarrow> I (snd (sql_insert_wgpeer uid key ip t))"
  shows "keeps (\<lambda>w. holds I (pg w)) (AddPeer al c uid key)"
proof (cases "ParseKey c key")
  case (Inl e)
  then show ?thesis by (simp add: AddPeer_def keeps_fail)
next
  case (Inr k)
  with assms have "keeps (\<lambda>w. holds I (pg w)) (AllocateFreeIp al uid key)" by (intro AllocateFreeIp_keeps)
  with Inr show ?thesis by (simp add: AddPeer_def) (intro keeps_intros)
qed

lemma RemovePeer_keeps:
  assumes "\<And>t. I t \<Longrightarrow> I (snd (sql_delete_wgpeer key uid t))"
  shows "keeps (\<lambda>w. holds I (pg w)) (RemovePeer c key uid)"
  unfolding RemovePeer_def by (intro keeps_intros DeAllocateIP_keeps assms)

lemma insert_wgpeer_rows:
  "wgpeers (snd (sql_insert_wgpeer uid key ip t)) = wgpeers t \<or>
   wgpeers (snd (sql_insert_wgpeer uid key ip t)) = wgpeers t @ [\<lparr>wg_user = uid, wg_key = key, wg_ip = ip\<rparr>]"
  by (simp add: sql_insert_wgpeer_def)

section \<open>Keys in the table\<close>

definition keys_parse :: "'x wgctrl \<Rightarrow> tables \<Rightarrow> bool" where
  "keys_parse c t \<longleftrightarrow> list_all (\<lambda>r. \<not> isl (ParseKey c (wg_key r))) (wgpeers t)"

lemma AddPeer_keys: "keeps (\<lambda>w. holds (keys_parse c) (pg w)) (AddPeer al c uid key)"
proof (rule AddPeer_keeps)
  fix t ip k assume "ParseKey c key = Inr k" "keys_parse c t"
  then show "keys_parse c (snd (sql_insert_wgpeer uid key ip t))"
    using insert_wgpeer_rows [of uid key ip t] by (auto simp: keys_parse_def)
qed

lemma RemovePeer_keys: "keeps (\<lambda>w. holds (keys_parse c) (pg w)) (RemovePeer c key uid)"
proof (rule RemovePeer_keeps)
  show "keys_parse c t \<Longrightarrow> keys_parse c (snd (sql_delete_wgpeer key uid t))" for t
    by (auto simp: keys_parse_def sql_delete_wgpeer_def list_all_iff split: list.splits)
qed

section \<open>Online or not\<close>

text \<open>C31: an online query ends the whole process if the key in the request does not parse, and only then (as long
  as the WireGuard client itself comes back). Every signed-in user can send one.\<close>

theorem IsOnline_answers:
  assumes "quiet (Device c ''wg0'')"
  shows "(\<exists>m w'. IsOnline_handler c now key w = (Crash m, w')) \<longleftrightarrow> isl (ParseKey c key)"
proof (cases "ParseKey c key")
  case (Inl e)
  then show ?thesis by (simp add: IsOnline_handler_def IsOnline_def handle_def crash_def)
next
  case (Inr k)
  obtain q x where d: "Device c ''wg0'' (outside w) = (q, x)" by (metis prod.exhaust)
  have "q \<noteq> Crash m" for m by (rule quiet_result [OF assms d])
  with Inr d show ?thesis
    by (cases q) (auto simp: IsOnline_handler_def IsOnline_def handle_def tri_eq extern_eq ret_def split: list.split)
qed

definition sample_ctl :: "(string \<times> string list) list wgctrl" where
  "sample_ctl =
     \<lparr>ParseKey = (\<lambda>s. if s = [] then Inl (ErrText ''wgtypes: incorrect key size'') else Inr (filter (\<lambda>c. c \<noteq> CHR 0x0A) s)),
      ConfigureDevice = (\<lambda>i cf x. (Ok (), fold (\<lambda>p x. if Pc_Remove p then filter (\<lambda>q. fst q \<noteq> Pc_PublicKey p) x
          else (Pc_PublicKey p, map fst (Pc_AllowedIPs p)) # filter (\<lambda>q. fst q \<noteq> Pc_PublicKey p) x) (Cf_Peers cf) x)),
      Device = (\<lambda>i x. (Ok (map (\<lambda>q. \<lparr>Kp_PublicKey = fst q, Kp_LastHandshake = None\<rparr>) x), x))\<rparr>"

definition two_accounts :: tables where
  "two_accounts = empty_tables
     \<lparr>users := map (\<lambda>i. \<lparr>u_id = i, u_first = [], u_last = [], u_email = itoa i, u_hash = [], u_name = itoa i, u_verified = True\<rparr>) [1, 2],
      wgpeers := [\<lparr>wg_user = 1, wg_key = ''key'', wg_ip = 2\<rparr>]\<rparr>"

definition wg_world :: "(string \<times> string list) list world" where
  "wg_world =
     \<lparr>pg = (two_accounts, []), redis = (Map.empty, []), disk = (Map.empty, []), session = (no_session, []), mails = [],
      settled = [], headers = None, retries = (\<lambda>_. 0), pool = [], outside = [(''key'', [''10.0.0.2''])]\<rparr>"

theorem IsOnline_answers_witness:
  "\<exists>m w'. IsOnline_handler sample_ctl 0 [] wg_world = (Crash m, w')"
  by (subst IsOnline_answers) (simp_all add: sample_ctl_def quiet_def)

section \<open>Two texts of one key\<close>

text \<open>
  What the kernel does, as far as it is relied on: a successful configuration of one peer with
  \<open>ReplaceAllowedIPs\<close> leaves it with exactly the given address, a successful removal leaves none.
\<close>

definition honest_device :: "('x \<Rightarrow> string \<Rightarrow> string list option) \<Rightarrow> 'x wgctrl \<Rightarrow> bool" where
  "honest_device dev c \<longleftrightarrow>
     (\<forall>k ip x x'. ConfigureDevice c INTERFACE_NAME (peers_only [peer_conf k ip]) x = (Ok (), x') \<longrightarrow>
        dev x' = (dev x)(k \<mapsto> [ip])) \<and>
     (\<forall>k x x'. ConfigureDevice c INTERFACE_NAME (peers_only [peer_removal k]) x = (Ok (), x') \<longrightarrow>
        dev x' = (dev x)(k := None))"

lemma outside_kept [keeps_intros]:
  "keeps (\<lambda>w. outside w = x) (on_pg a)" "keeps (\<lambda>w. outside w = x) (on_redis b)"
  by (auto simp: keeps_def on_pg_eq on_redis_eq split: prod.split)

lemma alloc_outside:
  "outside (snd (AllocateFreeIp al uid key w)) = outside w" "outside (snd (DeAllocateIP key uid w)) = outside w"
proof -
  have "keeps (\<lambda>v. outside v = outside w) (AllocateFreeIp al uid key)" "keeps (\<lambda>v. outside v = outside w) (DeAllocateIP key uid)"
    unfolding AllocateFreeIp_def DeAllocateIP_def by (intro keeps_intros)+
  then show "outside (snd (AllocateFreeIp al uid key w)) = outside w" "outside (snd (DeAllocateIP key uid w)) = outside w"
    by (auto dest: keepsD)
qed

lemma AddPeer_kernel:
  assumes "honest_device dev c" and "ParseKey c key = Inr k" and "AddPeer al c uid key w = (Ok addr, w')"
  shows "dev (outside w') = (dev (outside w))(k \<mapsto> [addr])"
proof -
  obtain q w1 where a: "AllocateFreeIp al uid key w = (q, w1)" by (metis prod.exhaust)
  with alloc_outside(1) [of al uid key w] have o1: "outside w1 = outside w" by simp
  obtain p x where e: "ConfigureDevice c INTERFACE_NAME (peers_only [peer_conf k addr]) (outside w1) = (p, x)"
    by (metis prod.exhaust)
  from assms(2,3) a e have "p = Ok ()" "w' = w1\<lparr>outside := x\<rparr>"
    by (cases q; auto simp: AddPeer_def tri_eq extern_eq ret_def split: prod.splits res.splits)+
  with assms(1) e o1 show ?thesis unfolding honest_device_def by auto
qed

lemma RemovePeer_kernel:
  assumes "honest_device dev c" and "ParseKey c key = Inr k" and "RemovePeer c key uid w = (Ok (), w')"
  shows "dev (outside w') = (dev (outside w))(k := None)"
proof -
  obtain q w1 where a: "DeAllocateIP key uid w = (q, w1)" by (metis prod.exhaust)
  with alloc_outside(2) [of key uid w] have o1: "outside w1 = outside w" by simp
  obtain p x where e: "ConfigureDevice c INTERFACE_NAME (peers_only [peer_removal k]) (outside w1) = (p, x)"
    by (metis prod.exhaust)
  from assms(2,3) a e have "p = Ok ()" "w' = w1\<lparr>outside := x\<rparr>"
    by (cases q; auto simp: RemovePeer_def tri_eq extern_eq)+
  with assms(1) e o1 show ?thesis unfolding honest_device_def by auto
qed

text \<open>C36: the table tells keys apart by their text, the kernel by their bytes. Base64 has several texts for one key
  (Go's decoder skips line breaks), so a second user who registers another text of a key that is in
  use takes the peer over: the kernel gives the key the second user's address only, and when the
  second user removes his device the key has no address at all, while the first user's row still
  lists the device.\<close>

theorem second_text_evicts_peer:
  assumes "honest_device dev c" and "ParseKey c b = Inr k"
    and "\<lparr>wg_user = u1, wg_key = a, wg_ip = ip1\<rparr> \<in> set (wgpeers (fst (pg w)))" and "ParseKey c a = Inr k" and "u1 \<noteq> u2"
    and "AddPeer al c u2 b w = (Ok addr, w1)" and "RemovePeer c b u2 w1 = (Ok (), w2)"
  shows "dev (outside w1) k = Some [addr] \<and> dev (outside w2) k = None \<and>
    \<lparr>wg_user = u1, wg_key = a, wg_ip = ip1\<rparr> \<in> set (wgpeers (fst (pg w2)))"
proof -
  let ?row = "\<lparr>wg_user = u1, wg_key = a, wg_ip = ip1\<rparr>"
  let ?I = "\<lambda>t. ?row \<in> set (wgpeers t)"
  have add: "keeps (\<lambda>w. holds ?I (pg w)) (AddPeer al c u2 b)"
  proof (rule AddPeer_keeps)
    show "?I t \<Longrightarrow> ?I (snd (sql_insert_wgpeer u2 b ip t))" for t ip
      using insert_wgpeer_rows [of u2 b ip t] by auto
  qed
  have rem: "keeps (\<lambda>w. holds ?I (pg w)) (RemovePeer c b u2)"
    by (rule RemovePeer_keeps) (use assms(5) in \<open>auto simp: sql_delete_wgpeer_def split: list.splits\<close>)
  have "holds ?I (pg w1)" by (rule keeps_run [OF add _ assms(6)]) (simp add: holds_def assms(3))
  then have "holds ?I (pg w2)" by (rule keeps_run [OF rem _ assms(7)])
  with AddPeer_kernel [OF assms(1,2,6)] RemovePeer_kernel [OF assms(1,2,7)] show ?thesis
    by (simp add: holds_def)
qed

lemma sample_ctl_honest: "honest_device map_of sample_ctl"
proof -
  have "map_of (filter (\<lambda>q. fst q \<noteq> k) x) = (map_of x)(k := None)" for k and x :: "(string \<times> string list) list"
    by (induction x) auto
  then show ?thesis
    by (simp add: honest_device_def sample_ctl_def peers_only_def peer_conf_def peer_removal_def)
qed

theorem second_text_evicts_peer_witness:
  "map_of (outside (snd (RemovePeer sample_ctl (''key'' @ [CHR 0x0A]) 2
     (snd (AddPeer \<lparr>CidrValue = 24\<rparr> sample_ctl 2 (''key'' @ [CHR 0x0A]) wg_world))))) ''key'' = None"
proof -
  let ?b = "''key'' @ [CHR 0x0A]"
  let ?a = "AddPeer \<lparr>CidrValue = 24\<rparr> sample_ctl 2 ?b wg_world"
  let ?r = "RemovePeer sample_ctl ?b 2 (snd ?a)"
  have "fst ?a = Ok ''10.0.0.3''" "fst ?r = Ok ()" by code_simp+
  then have "?a = (Ok ''10.0.0.3'', snd ?a)" "?r = (Ok (), snd ?r)" by (metis prod.collapse)+
  moreover have "ParseKey sample_ctl ?b = Inr ''key''" "ParseKey sample_ctl ''key'' = Inr ''key''" by code_simp+
  moreover have "\<lparr>wg_user = 1, wg_key = ''key'', wg_ip = 2\<rparr> \<in> set (wgpeers (fst (pg wg_world)))"
    by (simp add: wg_world_def two_accounts_def)
  ultimately show ?thesis
    using second_text_evicts_peer [OF sample_ctl_honest, of ?b "''key''" 1 "''key''" 2 wg_world 2] by simp
qed

end
