(* ===== verification/Pg_Service.thy ===== *)
theory Pg_Service
  imports Pg_Store World
begin

text \<open>
  \<^verbatim>\<open>internal/docker/services/pg.go\<close> and \<^verbatim>\<open>cmd/pg_service_handler.go\<close>: the
  users and databases on the shared Postgres service, beside their record in the program's own database. The
  connection to the service and the quoting of identifiers are parameters. The lemmas show which statements
  the service is sent and when record and service can part.
\<close>

section \<open>The service\<close>

text \<open>\<open>Sanitize\<close> is \<^verbatim>\<open>pgx.Identifier{name}.Sanitize()\<close>.\<close>

record 'x pgx =
  Exec :: "string \<Rightarrow> ('x, unit) call"
  Sanitize :: "string \<Rightarrow> string"

definition SanitizeIdentifier :: "'x pgx \<Rightarrow> string \<Rightarrow> string" where
  "SanitizeIdentifier p name = Sanitize p name"

definition create_user_sql :: "'x pgx \<Rightarrow> string \<Rightarrow> string \<Rightarrow> string" where
  "create_user_sql p username password =
     ''CREATE USER '' @ SanitizeIdentifier p username @ '' WITH PASSWORD '' @ [CHR 0x27] @ password @ [CHR 0x27] @
     '' NOSUPERUSER NOCREATEDB NOCREATEROLE NOINHERIT''"

definition CreatePostgresUser :: "'x pgx \<Rightarrow> string \<Rightarrow> string \<Rightarrow> ('x, unit) act" where
  "CreatePostgresUser p username password =
     wrap_error ''failed to create user'' (extern (Exec p (create_user_sql p username password)))"

definition CreateDatabase :: "'x pgx \<Rightarrow> string \<Rightarrow> string \<Rightarrow> ('x, unit) act" where
  "CreateDatabase p dbName own =
     tri (wrap_error ''failed to create database''
           (extern (Exec p (''CREATE DATABASE '' @ SanitizeIdentifier p dbName @ '' OWNER '' @ SanitizeIdentifier p own))))
       (\<lambda>_. wrap_error ''failed to revoke public connect''
           (extern (Exec p (''REVOKE CONNECT ON DATABASE '' @ SanitizeIdentifier p dbName @ '' FROM PUBLIC''))))"

definition drop_database_sql :: "'x pgx \<Rightarrow> string \<Rightarrow> string" where
  "drop_database_sql p dbName = ''DROP DATABASE IF EXISTS '' @ SanitizeIdentifier p dbName"

definition DropDatabase :: "'x pgx \<Rightarrow> string \<Rightarrow> ('x, unit) act" where
  "DropDatabase p dbName = wrap_error ''failed to drop database'' (extern (Exec p (drop_database_sql p dbName)))"

fun drop_databases :: "'x pgx \<Rightarrow> string list \<Rightarrow> ('x, unit) act" where
  "drop_databases p [] = ret ()"
| "drop_databases p (d # ds) = tri (DropDatabase p d) (\<lambda>_. drop_databases p ds)"

definition DropPostgresUser :: "'x pgx \<Rightarrow> int \<Rightarrow> string \<Rightarrow> string \<Rightarrow> ('x, unit) act" where
  "DropPostgresUser p uid username password =
     tri (on_pg (GetUserDatabases uid username password))
       (\<lambda>dbs. tri (drop_databases p dbs)
          (\<lambda>_. wrap_error ''failed to drop user''
              (extern (Exec p (''DROP USER IF EXISTS '' @ SanitizeIdentifier p username)))))"

section \<open>The requests\<close>

record ResponseCreateUser =
  Rc_ID :: int
  Rc_Username :: string
  Rc_Password :: string
  Rc_Permissions :: string
  Rc_UserLimit :: int

text \<open>The forms are taken as parsed.\<close>

definition CreatePGUser :: "'x pgx \<Rightarrow> string \<Rightarrow> string \<Rightarrow> ('x, ResponseCreateUser reply) act" where
  "CreatePGUser p userName password =
     tri uid_of_session
       (\<lambda>uid. handle (on_pg (AddUser_pg (CreatePgServiceUser uid userName password)))
          (\<lambda>e. ret (if error_text e = PG_MAX_USER_LIMIT then http_error ''user limit exceeded'' 400
                   else if error_text e = PG_USER_ALREDAY_EXISTS then http_error ''user already exists'' 409
                   else http_error ''something went wrong'' 500))
          (\<lambda>ident. handle (CreatePostgresUser p userName password)
             (\<lambda>e. tri (logged (on_pg (RemoveUser_pg (CreatePgServiceUser uid userName password))))
                (\<lambda>_. ret (http_error ''failed to create pg user'' 500)))
             (\<lambda>_. ret (Body \<lparr>Rc_ID = ident, Rc_Username = userName, Rc_Password = password,
                Rc_Permissions = ''Limited'', Rc_UserLimit = MAX_SERVICE_DB_USERS\<rparr>))))"

definition pg_database :: "string \<Rightarrow> PGServiceDatabase" where
  "pg_database dbName = \<lparr>Pg_Pid = 0, Pg_DbName = dbName\<rparr>"

definition CreatePgDatabase :: "'x pgx \<Rightarrow> string \<Rightarrow> string \<Rightarrow> string \<Rightarrow> ('x, unit reply) act" where
  "CreatePgDatabase p userName password dbName =
     tri uid_of_session
       (\<lambda>uid. handle (on_pg (AddDatabase (CreatePgServiceUser uid userName password) (pg_database dbName)))
          (\<lambda>e. ret (if error_text e = PG_MAX_DB_LIMIT then http_error ''db limit exceeded'' 400
                   else if error_text e = PG_DB_ALREDAY_EXISTS then http_error ''DB already exists for the user'' 409
                   else http_error ''something went wrong'' 500))
          (\<lambda>_. handle (CreateDatabase p dbName userName)
             (\<lambda>e. tri (logged (on_pg (RemoveDatabase (CreatePgServiceUser uid userName password) (pg_database dbName))))
                (\<lambda>_. ret (http_error ''failed to create database'' 500)))
             (\<lambda>_. ret (Status 201 ''Successfully created database''))))"

definition RemovePgUser :: "'x pgx \<Rightarrow> string \<Rightarrow> string \<Rightarrow> ('x, unit reply) act" where
  "RemovePgUser p userName password =
     tri uid_of_session
       (\<lambda>uid. handle (DropPostgresUser p uid userName password)
          (\<lambda>e. ret (http_error ''failed to remove user'' 500))
          (\<lambda>_. handle (on_pg (RemoveUser_pg (CreatePgServiceUser uid userName password)))
             (\<lambda>e. ret (http_error ''failed to remove user'' 500))
             (\<lambda>_. ret (Status 200 ''Successfully removed user''))))"

text \<open>The service drops the database before anyone asks whose it is.\<close>

definition RemovePgDatabase :: "'x pgx \<Rightarrow> string \<Rightarrow> string \<Rightarrow> string \<Rightarrow> ('x, unit reply) act" where
  "RemovePgDatabase p userName password dbName =
     tri uid_of_session
       (\<lambda>uid. handle (DropDatabase p dbName)
          (\<lambda>e. ret (http_error ''failed to remove database'' 500))
          (\<lambda>_. handle (on_pg (RemoveDatabase (CreatePgServiceUser uid userName password) (pg_database dbName)))
             (\<lambda>e. ret (http_error ''failed to remove pg database'' 500))
             (\<lambda>_. ret (Status 200 ''Successfully removed database''))))"

section \<open>Recording and creating a user\<close>

text \<open>When a name can be recorded for a user, what the table is then, and the reply of a request that fails.\<close>

definition may_add :: "int \<Rightarrow> string \<Rightarrow> tables \<Rightarrow> bool" where
  "may_add uid n t \<longleftrightarrow> known_user t uid \<and> rows_matching (\<lambda>r. p_user r = uid) (pg_users t) < MAX_SERVICE_DB_USERS \<and>
     (\<forall>r \<in> set (pg_users t). p_name r \<noteq> n)"

definition failed_reply :: "int \<Rightarrow> string \<Rightarrow> tables \<Rightarrow> ResponseCreateUser reply" where
  "failed_reply uid n t =
     (if MAX_SERVICE_DB_USERS \<le> rows_matching (\<lambda>r. p_user r = uid) (pg_users t) then http_error ''user limit exceeded'' 400
      else if \<exists>r \<in> set (pg_users t). p_name r = n then http_error ''user already exists'' 409
      else if \<not> known_user t uid then http_error ''something went wrong'' 500
      else http_error ''failed to create pg user'' 500)"

definition pg_user_added :: "int \<Rightarrow> string \<Rightarrow> string \<Rightarrow> tables \<Rightarrow> tables" where
  "pg_user_added uid n p t = t\<lparr>next_pg_id := next_pg_id t + 1, pg_users := pg_users t @
     [\<lparr>p_id = next_pg_id t, p_user = uid, p_name = n, p_pass = p\<rparr>]\<rparr>"

lemma violation_texts:
  "contains (error_text unique_violation) ''23505''" "\<not> contains (error_text fk_violation) ''23505''"
  "error_text fk_violation \<noteq> PG_MAX_USER_LIMIT" "error_text fk_violation \<noteq> PG_USER_ALREDAY_EXISTS"
  by code_simp+

lemma AddUser_runs:
  "AddUser_pg (CreatePgServiceUser uid n p) (t, []) =
     (if MAX_SERVICE_DB_USERS \<le> rows_matching (\<lambda>r. p_user r = uid) (pg_users t) then (Er (ErrText PG_MAX_USER_LIMIT), (t, []))
      else if \<exists>r \<in> set (pg_users t). p_name r = n
      then (Er (ErrText PG_USER_ALREDAY_EXISTS), (t\<lparr>next_pg_id := next_pg_id t + 1\<rparr>, []))
      else if \<not> known_user t uid then (Er fk_violation, (t\<lparr>next_pg_id := next_pg_id t + 1\<rparr>, []))
      else (Ok (next_pg_id t), (t\<lparr>next_pg_id := next_pg_id t + 1, pg_users := pg_users t @
             [\<lparr>p_id = next_pg_id t, p_user = uid, p_name = n, p_pass = p\<rparr>]\<rparr>, [])))"
  using violation_texts
  by (auto simp: AddUser_pg_def CreatePgServiceUser_def tri_eq handle_def sql_read_def fail_def ret_def
      sql_insert_pg_user_def list_ex_iff Let_def)

lemma remove_added:
  assumes "schema_ok t" and "\<forall>r \<in> set (pg_users t). p_name r \<noteq> n"
  shows "RemoveUser_pg (CreatePgServiceUser uid n p) (pg_user_added uid n p t, []) = (Ok (), (t\<lparr>next_pg_id := next_pg_id t + 1\<rparr>, []))"
proof -
  let ?row = "\<lparr>p_id = next_pg_id t, p_user = uid, p_name = n, p_pass = p\<rparr>" and ?t = "pg_user_added uid n p t"
  have hit: "filter (\<lambda>u. p_name u = n \<and> p_pass u = p \<and> p_user u = uid) (pg_users ?t) = [?row]"
    and rest: "filter (\<lambda>u. \<not> (p_name u = n \<and> p_pass u = p \<and> p_user u = uid)) (pg_users ?t) = pg_users t"
    using assms(2) by (auto simp: pg_user_added_def filter_id_conv filter_empty_conv)
  have "filter (\<lambda>d. pd_pid d \<noteq> next_pg_id t) (pg_dbs t) = pg_dbs t"
    using assms(1) by (fastforce simp: filter_id_conv schema_ok_def pg_dbs_ok_def pg_users_ok_def)
  then have "sql_delete_pg_user uid n p ?t = (Ok 1, t\<lparr>next_pg_id := next_pg_id t + 1\<rparr>)"
    unfolding sql_delete_pg_user_def Let_def rows_matching_def hit rest by (simp add: pg_user_added_def)
  then show ?thesis by (simp add: RemoveUser_pg_def CreatePgServiceUser_def tri_eq ret_def)
qed

lemma service_call:
  assumes "Exec p s (outside v) = (r, x)"
  shows "wrap_error m (extern (Exec p s)) v =
    (case r of Ok u \<Rightarrow> Ok u | Er e \<Rightarrow> Er (ErrText (m @ '': '' @ error_text e)) | Crash c \<Rightarrow> Crash c, v\<lparr>outside := x\<rparr>)"
  using assms by (simp add: wrap_error_def handle_def extern_eq ret_def fail_def split: res.split)

text \<open>The second half of \<open>CreatePGUser\<close>, once the row has been recorded.\<close>

definition after_record :: "'x pgx \<Rightarrow> int \<Rightarrow> string \<Rightarrow> string \<Rightarrow> int \<Rightarrow> ('x, ResponseCreateUser reply) act" where
  "after_record p uid n pass i =
     handle (CreatePostgresUser p n pass)
       (\<lambda>e. tri (logged (on_pg (RemoveUser_pg (CreatePgServiceUser uid n pass))))
          (\<lambda>_. ret (http_error ''failed to create pg user'' 500)))
       (\<lambda>_. ret (Body \<lparr>Rc_ID = i, Rc_Username = n, Rc_Password = pass, Rc_Permissions = ''Limited'',
          Rc_UserLimit = MAX_SERVICE_DB_USERS\<rparr>))"

lemma after_record_runs:
  assumes "schema_ok t" and "\<forall>r \<in> set (pg_users t). p_name r \<noteq> n" and "pg v = (pg_user_added uid n pass t, [])"
    and "Exec p (create_user_sql p n pass) (outside v) = (q, x)"
  shows "after_record p uid n pass i v =
    (case q of
       Ok u \<Rightarrow> (Ok (Body \<lparr>Rc_ID = i, Rc_Username = n, Rc_Password = pass, Rc_Permissions = ''Limited'',
                  Rc_UserLimit = MAX_SERVICE_DB_USERS\<rparr>), v\<lparr>outside := x\<rparr>)
     | Er e \<Rightarrow> (Ok (http_error ''failed to create pg user'' 500),
                v\<lparr>pg := (t\<lparr>next_pg_id := next_pg_id t + 1\<rparr>, []), outside := x\<rparr>)
     | Crash c \<Rightarrow> (Crash c, v\<lparr>outside := x\<rparr>))"
  using assms(3) service_call [OF assms(4)] remove_added [OF assms(1,2)]
  by (cases q) (simp_all add: after_record_def CreatePostgresUser_def handle_def tri_eq ret_def logged_def on_pg_eq)

lemma CreatePGUser_run:
  "CreatePGUser p n pass w =
     (let uid = session_id (fst (session w)) in
      handle (on_pg (AddUser_pg (CreatePgServiceUser uid n pass)))
        (\<lambda>e. ret (if error_text e = PG_MAX_USER_LIMIT then http_error ''user limit exceeded'' 400
                 else if error_text e = PG_USER_ALREDAY_EXISTS then http_error ''user already exists'' 409
                 else http_error ''something went wrong'' 500))
        (after_record p uid n pass) w)"
  unfolding CreatePGUser_def after_record_def [abs_def] by (simp add: uid_of_session_def tri_eq get_field_def Let_def)

lemma CreatePGUser_refused:
  assumes "pg w = (t, [])" and "uid = session_id (fst (session w))" and "\<not> may_add uid n t"
  shows "\<exists>i. CreatePGUser p n pass w = (Ok (failed_reply uid n t), w\<lparr>pg := (t\<lparr>next_pg_id := i\<rparr>, [])\<rparr>)"
proof -
  have step: "\<exists>i. CreatePGUser p n pass w = (Ok (failed_reply uid n t), w\<lparr>pg := (t\<lparr>next_pg_id := i\<rparr>, [])\<rparr>)"
    if "AddUser_pg (CreatePgServiceUser uid n pass) (t, []) = (Er e, (t\<lparr>next_pg_id := j\<rparr>, []))"
      and "(if error_text e = PG_MAX_USER_LIMIT then http_error ''user limit exceeded'' 400
            else if error_text e = PG_USER_ALREDAY_EXISTS then http_error ''user already exists'' 409
            else http_error ''something went wrong'' 500) = failed_reply uid n t" for e j
    using that assms(1,2) unfolding CreatePGUser_run handle_def on_pg_eq ret_def by (intro exI [of _ j]) simp
  consider "MAX_SERVICE_DB_USERS \<le> rows_matching (\<lambda>r. p_user r = uid) (pg_users t)"
    | "rows_matching (\<lambda>r. p_user r = uid) (pg_users t) < MAX_SERVICE_DB_USERS" "\<exists>r \<in> set (pg_users t). p_name r = n"
    | "rows_matching (\<lambda>r. p_user r = uid) (pg_users t) < MAX_SERVICE_DB_USERS" "\<forall>r \<in> set (pg_users t). p_name r \<noteq> n"
      "\<not> known_user t uid"
    using assms(3) unfolding may_add_def by fastforce
  then show ?thesis
  proof cases
    case 1
    then show ?thesis by (intro step [of "ErrText PG_MAX_USER_LIMIT" "next_pg_id t"]) (simp_all add: AddUser_runs failed_reply_def)
  next
    case 2
    then show ?thesis
      by (intro step [of "ErrText PG_USER_ALREDAY_EXISTS" "next_pg_id t + 1"]) (auto simp: AddUser_runs failed_reply_def)
  next
    case 3
    then show ?thesis using violation_texts(3,4)
      by (intro step [of fk_violation "next_pg_id t + 1"]) (auto simp: AddUser_runs failed_reply_def)
  qed
qed

text \<open>C33: with a record database that answers, a Postgres user is recorded exactly when the service answers that it
  has created it. If the signed-in user is known, has fewer than five service users and the name is free, the service is
  sent the statement that creates the user. If it confirms it, the reply is the new user and the row is in the table;
  if it answers with an error, the reply is an error and the table is what it was, except for its counter of ids. If
  one of the three conditions fails, the reply says which, the service is sent nothing and nothing is recorded. (The
  client library of the service answers, it does not panic.)\<close>

theorem CreatePGUser_all_or_nothing:
  assumes "schema_ok t" and "pg w = (t, [])" and uid: "uid = session_id (fst (session w))"
    and "Exec p (create_user_sql p n pass) (outside w) = (q, x)" and "\<forall>c. q \<noteq> Crash c"
  shows "if may_add uid n t \<and> q = Ok ()
    then CreatePGUser p n pass w =
      (Ok (Body \<lparr>Rc_ID = next_pg_id t, Rc_Username = n, Rc_Password = pass, Rc_Permissions = ''Limited'',
          Rc_UserLimit = MAX_SERVICE_DB_USERS\<rparr>),
       w\<lparr>pg := (pg_user_added uid n pass t, []), outside := x\<rparr>)
    else \<exists>i. CreatePGUser p n pass w =
      (Ok (failed_reply uid n t),
       w\<lparr>pg := (t\<lparr>next_pg_id := i\<rparr>, []), outside := if may_add uid n t then x else outside w\<rparr>)"
proof (cases "may_add uid n t")
  case True
  let ?w = "w\<lparr>pg := (pg_user_added uid n pass t, [])\<rparr>"
  have "on_pg (AddUser_pg (CreatePgServiceUser uid n pass)) w = (Ok (next_pg_id t), ?w)"
    using AddUser_runs [of uid n pass t] True assms(2) by (auto simp: on_pg_eq may_add_def pg_user_added_def)
  then have "CreatePGUser p n pass w = after_record p uid n pass (next_pg_id t) ?w"
    by (simp add: CreatePGUser_run uid handle_def Let_def)
  with after_record_runs [OF assms(1), of n ?w uid pass p q x "next_pg_id t"] True assms(4,5) show ?thesis
    by (cases q) (auto simp: may_add_def failed_reply_def)
next
  case False
  with CreatePGUser_refused [OF assms(2) uid False, of p pass] show ?thesis by simp
qed

definition refusing_pgx :: "string list pgx" where
  "refusing_pgx = \<lparr>Exec = (\<lambda>s x. (Er (ErrText ''role exists''), x @ [s])), Sanitize = (\<lambda>s. [CHR 0x22] @ s @ [CHR 0x22])\<rparr>"

definition willing_pgx :: "string list pgx" where
  "willing_pgx = \<lparr>Exec = (\<lambda>s x. (Ok (), x @ [s])), Sanitize = (\<lambda>s. [CHR 0x22] @ s @ [CHR 0x22])\<rparr>"

definition pg_world :: "tables \<Rightarrow> string list world" where
  "pg_world t =
     \<lparr>pg = (t, []), redis = (Map.empty, []), disk = (Map.empty, []),
      session = (\<lparr>is_authorized = True, session_id = 1, session_name = ''ann''\<rparr>, []), mails = [],
      settled = [], headers = None, retries = (\<lambda>_. 0), pool = [], outside = []\<rparr>"

definition pg_accounts :: tables where
  "pg_accounts = empty_tables
     \<lparr>users := map (\<lambda>i. \<lparr>u_id = i, u_first = [], u_last = [], u_email = itoa i, u_hash = [], u_name = itoa i, u_verified = True\<rparr>) [1, 2],
      next_user_id := 3, pg_users := [\<lparr>p_id = 1, p_user = 2, p_name = ''bob'', p_pass = ''b''\<rparr>], next_pg_id := 2,
      pg_dbs := [\<lparr>pd_pid = 1, pd_name = ''shop''\<rparr>]\<rparr>"

lemma pg_accounts_ok: "schema_ok pg_accounts"
  by (simp add: schema_ok_def table_ok_defs known_user_def pg_accounts_def empty_tables_def itoa_inject)

theorem CreatePGUser_all_or_nothing_witness:
  "pg (snd (CreatePGUser willing_pgx ''ann'' ''a'' (pg_world pg_accounts))) = (pg_user_added 1 ''ann'' ''a'' pg_accounts, []) \<and>
   (\<exists>i. pg (snd (CreatePGUser refusing_pgx ''ann'' ''a'' (pg_world pg_accounts))) = (pg_accounts\<lparr>next_pg_id := i\<rparr>, []))"
proof -
  let ?w = "pg_world pg_accounts"
  have w: "pg ?w = (pg_accounts, [])" "1 = session_id (fst (session ?w))" by (simp_all add: pg_world_def)
  have "may_add 1 ''ann'' pg_accounts"
    by (simp add: may_add_def known_user_def rows_matching_def pg_accounts_def empty_tables_def)
  moreover have "Exec willing_pgx s (outside ?w) = (Ok (), [s])"
      "Exec refusing_pgx s (outside ?w) = (Er (ErrText ''role exists''), [s])" for s
    by (simp_all add: willing_pgx_def refusing_pgx_def pg_world_def)
  note served = CreatePGUser_all_or_nothing [OF pg_accounts_ok w this(1), where n = "''ann''" and pass = "''a''"]
    and refused = CreatePGUser_all_or_nothing [OF pg_accounts_ok w this(2), where n = "''ann''" and pass = "''a''"]
  ultimately have "pg (snd (CreatePGUser willing_pgx ''ann'' ''a'' ?w)) = (pg_user_added 1 ''ann'' ''a'' pg_accounts, [])" by auto
  moreover obtain i where "CreatePGUser refusing_pgx ''ann'' ''a'' ?w = (Ok (failed_reply 1 ''ann'' pg_accounts),
      ?w\<lparr>pg := (pg_accounts\<lparr>next_pg_id := i\<rparr>, []), outside := if may_add 1 ''ann'' pg_accounts
         then [create_user_sql refusing_pgx ''ann'' ''a''] else outside ?w\<rparr>)"
    using refused by auto
  then have "pg (snd (CreatePGUser refusing_pgx ''ann'' ''a'' ?w)) = (pg_accounts\<lparr>next_pg_id := i\<rparr>, [])" by simp
  ultimately show ?thesis by blast
qed

section \<open>Dropping a database\<close>

text \<open>C37: a signed-in user who names a database of somebody else loses nothing and drops it: the service has
  executed the \<open>DROP DATABASE\<close> by the time the record finds that the caller has no such service user. The
  reply is an error and the owner's row remains.\<close>

theorem RemovePgDatabase_drops_any:
  assumes "pg w = (t, [])" and "\<forall>i. pg_id_of (CreatePgServiceUser (session_id (fst (session w))) n pass) t \<noteq> Ok i"
    and "Exec p (drop_database_sql p db) (outside w) = (Ok (), x)"
  shows "RemovePgDatabase p n pass db w =
    (Ok (http_error ''failed to remove pg database'' 500), w\<lparr>outside := x\<rparr>)"
proof -
  let ?u = "CreatePgServiceUser (session_id (fst (session w))) n pass"
  have "pg_id_of ?u t \<noteq> Crash c" for c
    using pg_id_no_crash [of ?u t c] by (simp add: sql_read_def)
  with assms(2) obtain e where "pg_id_of ?u t = Er e" by (cases "pg_id_of ?u t") auto
  with assms(1,3) show ?thesis
    by (simp add: RemovePgDatabase_def uid_of_session_def tri_eq get_field_def handle_def DropDatabase_def wrap_error_def
        extern_eq ret_def fail_def on_pg_eq RemoveDatabase_def sql_read_def same_pg)
qed

theorem RemovePgDatabase_drops_any_witness:
  "outside (snd (RemovePgDatabase willing_pgx ''x'' ''y'' ''shop'' (pg_world pg_accounts))) =
     [''DROP DATABASE IF EXISTS '' @ [CHR 0x22] @ ''shop'' @ [CHR 0x22]]"
  by (subst RemovePgDatabase_drops_any [where t = pg_accounts and x = "[''DROP DATABASE IF EXISTS '' @ [CHR 0x22] @ ''shop'' @ [CHR 0x22]]"])
     (simp_all add: pg_world_def willing_pgx_def drop_database_sql_def SanitizeIdentifier_def pg_id_of_def first_row_def
       pg_accounts_def empty_tables_def CreatePgServiceUser_def)

end
