(* ===== verification/Web_Pages.thy ===== *)
theory Web_Pages
  imports Wg_Ops Pg_Service Instance_Store Auth
begin

text \<open>
  \<^verbatim>\<open>cmd/web_handler.go\<close> and \<^verbatim>\<open>consts/services\<close>: the pages. What a template is
  given is modelled, its rendering is not: \<open>renders\<close> says whether \<^verbatim>\<open>ExecuteTemplate\<close> comes
  back without an error. The lemmas show what one user's page can contain of another's data and that the page
  of devices does not end the process.
\<close>

section \<open>The services offered\<close>

record WebService =
  Ws_ServiceName :: string
  Ws_Name :: string
  Ws_Description :: string
  Ws_IconURL :: string
  Ws_IP :: string
  Ws_Hostname :: string
  Ws_Port :: string

definition Adminer :: WebService where
  "Adminer =
     \<lparr>Ws_ServiceName = ''adminer'', Ws_Name = ''Adminer'', Ws_Description = ''Web Based SQL client'',
      Ws_IconURL = ''https://www.adminer.org/static/images/logo.png'', Ws_IP = ''172.25.0.4'',
      Ws_Hostname = ''adminer.kws.services'', Ws_Port = ''8080''\<rparr>"

definition Services :: "WebService list" where
  "Services =
     [\<lparr>Ws_ServiceName = ''postgres'', Ws_Name = ''PostgreSQL'', Ws_Description = ''Relational database service'',
       Ws_IconURL = ''https://www.postgresql.org/media/img/about/press/elephant.png'', Ws_IP = ''172.25.0.2'',
       Ws_Hostname = ''postgres.kws.services'', Ws_Port = ''5432''\<rparr>]"

definition GetServiceList :: "WebService list" where
  "GetServiceList = Services"

definition GetAdminerData :: WebService where
  "GetAdminerData = Adminer"

definition GetPgServiceData :: WebService where
  "GetPgServiceData = hd Services"

section \<open>What the templates are given\<close>

record web_device =
  Dv_PublicKey :: string
  Dv_IP :: string
  Dv_Active :: bool

record PGUserPageData =
  Pu_HostName :: string
  Pu_ServiceIP :: string
  Pu_Port :: string
  Pu_LoggedInUser :: string
  Pu_UserLimit :: int
  Pu_Users :: "web_User list"

record PgDatabasePage =
  Pd_Password :: string
  Pd_HostName :: string
  Pd_Username :: string
  Pd_TotalDatabases :: int
  Pd_Owner :: string
  Pd_AvailableSlots :: int
  Pd_Limit :: int
  Pd_UsagePercent :: int
  Pd_Databases :: "web_Database list"

datatype page =
    Register
  | Signin
  | Home string
  | Devices string "web_device list"
  | ServicesPage string "WebService list" WebService
  | PgUsers PGUserPageData
  | DbManagement PgDatabasePage
  | InstanceManagement InsData
  | PublishInstance string "web_Domain list" bool

text \<open>A page, or the message when its template fails.\<close>

definition execute :: "(page \<Rightarrow> bool) \<Rightarrow> string \<Rightarrow> page \<Rightarrow> page reply" where
  "execute renders msg p = (if renders p then Body p else http_error msg 500)"

definition user_name_of_session :: "('x, string) act" where
  "user_name_of_session = get_field (\<lambda>w. session_name (fst (session w)))"

section \<open>The handlers\<close>

definition RenderRegisterPage :: "(page \<Rightarrow> bool) \<Rightarrow> ('x, page reply) act" where
  "RenderRegisterPage renders =
     tri (get_field (\<lambda>w. is_authorized (fst (session w))))
       (\<lambda>isAuthorized. ret (if isAuthorized then Redirect ''/'' else execute renders ''something went wrong'' Register))"

definition RenderSignInPage :: "(page \<Rightarrow> bool) \<Rightarrow> ('x, page reply) act" where
  "RenderSignInPage renders =
     tri (get_field (\<lambda>w. is_authorized (fst (session w))))
       (\<lambda>isAuthorized. ret (if isAuthorized then Redirect ''/'' else execute renders ''something went wrong'' Signin))"

definition HomeHandler :: "(page \<Rightarrow> bool) \<Rightarrow> ('x, page reply) act" where
  "HomeHandler renders =
     tri user_name_of_session (\<lambda>userName. ret (execute renders ''something went wrong'' (Home userName)))"

text \<open>
  The loop over the peers; an error of the online query ends it. When the devices cannot be read the
  handler reports that and goes on with none, so it can answer twice: what it writes is a list.
\<close>

fun device_rows :: "'x wgctrl \<Rightarrow> int \<Rightarrow> WireguardType list \<Rightarrow> ('x, web_device list) act" where
  "device_rows c now [] = ret []"
| "device_rows c now (p # ps) =
     tri (IsOnline c now (PublicKey p))
       (\<lambda>isActive. tri (device_rows c now ps)
          (\<lambda>ds. ret (\<lparr>Dv_PublicKey = PublicKey p, Dv_IP = GenerateIP (IpAddress p), Dv_Active = isActive\<rparr> # ds)))"

definition RenderDevicesPage :: "(page \<Rightarrow> bool) \<Rightarrow> 'x wgctrl \<Rightarrow> int \<Rightarrow> ('x, page reply list) act" where
  "RenderDevicesPage renders c now =
     tri uid_of_session
       (\<lambda>uid. tri user_name_of_session
          (\<lambda>userName. tri (handle (on_pg (GetDevices uid))
                 (\<lambda>e. ret ([http_error ''cannot load this page right now'' 500], []))
                 (\<lambda>peers. ret ([], peers)))
             (\<lambda>(written, peers). handle (device_rows c now peers)
                (\<lambda>e. ret (written @ [http_error ''something went wrong'' 500]))
                (\<lambda>devices. ret (written @ [execute renders ''Template rendering error'' (Devices userName devices)])))))"

definition RenderServicesPage :: "(page \<Rightarrow> bool) \<Rightarrow> ('x, page reply) act" where
  "RenderServicesPage renders =
     tri user_name_of_session
       (\<lambda>userName. ret (execute renders ''Template rendering error''
          (ServicesPage userName GetServiceList GetAdminerData)))"

definition RenderPgUsersPage :: "(page \<Rightarrow> bool) \<Rightarrow> ('x, page reply) act" where
  "RenderPgUsersPage renders =
     tri uid_of_session
       (\<lambda>uid. tri user_name_of_session
          (\<lambda>userName. handle (on_pg (GetUsers uid))
             (\<lambda>e. ret (http_error ''something went wrong'' 500))
             (\<lambda>users. let pgs = GetPgServiceData
                in ret (execute renders ''Template rendering error''
                     (PgUsers \<lparr>Pu_HostName = Ws_Hostname pgs, Pu_ServiceIP = Ws_IP pgs, Pu_Port = ''5432'',
                        Pu_LoggedInUser = userName, Pu_UserLimit = MAX_SERVICE_DB_USERS, Pu_Users = users\<rparr>)))))"

text \<open>\<open>percent\<close> is \<^verbatim>\<open>int(float64(a) / float64(b) * 100)\<close>.\<close>

definition RenderPgDatabasesPage ::
  "(page \<Rightarrow> bool) \<Rightarrow> (int \<Rightarrow> int \<Rightarrow> int) \<Rightarrow> string \<Rightarrow> string \<Rightarrow> ('x, page reply) act" where
  "RenderPgDatabasesPage renders percent pidStr own =
     tri uid_of_session
       (\<lambda>uid. tri user_name_of_session
          (\<lambda>userName. case atoi pidStr of
               None \<Rightarrow> ret (http_error ''Invalid pid'' 400)
             | Some pid \<Rightarrow>
                 handle (on_pg (GetDatabases pid uid))
                   (\<lambda>e. ret (http_error ''Something went wrong'' 500))
                   (\<lambda>(cnt, dbs). handle (on_pg (GetPassword pid))
                      (\<lambda>e. ret (http_error ''Something went wrong'' 500))
                      (\<lambda>password. ret (execute renders ''Template rendering error''
                         (DbManagement \<lparr>Pd_Password = password, Pd_HostName = Ws_Hostname GetPgServiceData,
                            Pd_Username = userName, Pd_TotalDatabases = cnt, Pd_Owner = own,
                            Pd_AvailableSlots = MAX_SERVICE_DB_DB - cnt, Pd_Limit = MAX_SERVICE_DB_DB,
                            Pd_UsagePercent = percent cnt MAX_SERVICE_DB_DB, Pd_Databases = dbs\<rparr>))))))"

definition RenderInstancePage :: "(page \<Rightarrow> bool) \<Rightarrow> ('x, page reply) act" where
  "RenderInstancePage renders =
     tri uid_of_session
       (\<lambda>uid. tri user_name_of_session
          (\<lambda>userName. handle (on_pg (GetData uid))
             (\<lambda>e. ret (http_error ''Something went wrong'' 500))
             (\<lambda>d. tri (handle (on_pg (GetIPFromUID uid)) (\<lambda>e. ret []) (\<lambda>ip. ret (GenerateIPLXC ip)))
                (\<lambda>addr. ret (execute renders ''something went wrong''
                   (InstanceManagement (d\<lparr>Id_Username := userName,
                      Id_Instance := (Id_Instance d)\<lparr>Wi_IP := addr\<rparr>\<rparr>)))))))"

definition RenderPublishPage :: "(page \<Rightarrow> bool) \<Rightarrow> ('x, page reply) act" where
  "RenderPublishPage renders =
     tri uid_of_session
       (\<lambda>uid. tri user_name_of_session
          (\<lambda>userName. handle (on_pg (GetUserDomains \<lparr>Dom_Uid = uid, Dom_Name = [], Dom_Port = 0\<rparr>))
             (\<lambda>e. ret (http_error ''something went wrong'' 500))
             (\<lambda>ds. ret (execute renders ''something went wrong'' (PublishInstance userName ds (ds \<noteq> []))))))"

section \<open>Another user's password\<close>

lemma foreign_reads:
  assumes "r \<in> set (pg_users t)" and "distinct (map p_id (pg_users t))" and "p_user r \<noteq> uid"
  shows "GetPassword (p_id r) (t, []) = (Ok (p_pass r), (t, []))"
    and "GetDatabases (p_id r) uid (t, []) = (Ok (0, []), (t, []))"
proof -
  have eq: "x = r" if "x \<in> set (pg_users t)" "p_id x = p_id r" for x
    using that assms(1,2) by (auto simp: distinct_map inj_on_def)
  have "filter (\<lambda>x. p_id x = p_id r) (pg_users t) \<noteq> []" using assms(1) by (auto simp: filter_empty_conv)
  then obtain x xs where f: "filter (\<lambda>x. p_id x = p_id r) (pg_users t) = x # xs" by (meson neq_Nil_conv)
  then have "x \<in> set (filter (\<lambda>x. p_id x = p_id r) (pg_users t))" by simp
  then have "x = r" using eq by simp
  with f have "first_row (\<lambda>x. p_id x = p_id r) p_pass (pg_users t) = Ok (p_pass r)"
    by (simp add: first_row_def)
  then show "GetPassword (p_id r) (t, []) = (Ok (p_pass r), (t, []))" by (simp add: GetPassword_def sql_read_def)
  have "filter (\<lambda>u. p_user u = uid \<and> p_id u = p_id r) (pg_users t) = []"
    using eq assms(3) by (auto simp: filter_empty_conv)
  then show "GetDatabases (p_id r) uid (t, []) = (Ok (0, []), (t, []))"
    by (simp add: GetDatabases_def joined_dbs_def prog_defs)
qed

text \<open>C38: the page of the databases of a service user shows the password of whatever service user the query
  names. For one of another user it lists no databases, but the page still carries that user's password.\<close>

theorem db_page_leaks_password:
  assumes "pg w = (t, [])" and "schema_ok t" and "r \<in> set (pg_users t)"
    and "p_user r \<noteq> session_id (fst (session w))" and "atoi pid_text = Some (p_id r)" and "\<And>p. renders p"
  shows "\<exists>d. RenderPgDatabasesPage renders percent pid_text own w = (Ok (Body (DbManagement d)), w) \<and>
    Pd_Password d = p_pass r \<and> Pd_Databases d = []"
proof -
  have "distinct (map p_id (pg_users t))" using assms(2) by (simp add: schema_ok_def pg_users_ok_def)
  note reads = foreign_reads [OF assms(3) this assms(4)]
  show ?thesis
    using assms(1,5,6) reads
    by (simp add: RenderPgDatabasesPage_def uid_of_session_def user_name_of_session_def tri_eq get_field_def handle_def
        on_pg_eq same_pg ret_def execute_def)
qed

theorem db_page_leaks_password_witness:
  "\<exists>d. fst (RenderPgDatabasesPage (\<lambda>p. True) (\<lambda>a b. 0) ''1'' ''bob'' (pg_world pg_accounts)) = Ok (Body (DbManagement d)) \<and>
    Pd_Password d = ''b''"
proof -
  let ?r = "\<lparr>p_id = 1, p_user = 2, p_name = ''bob'', p_pass = ''b''\<rparr>"
  have "pg (pg_world pg_accounts) = (pg_accounts, [])" "?r \<in> set (pg_users pg_accounts)"
    "p_user ?r \<noteq> session_id (fst (session (pg_world pg_accounts)))"
    by (simp_all add: pg_world_def pg_accounts_def)
  moreover have "atoi ''1'' = Some (p_id ?r)" by code_simp
  ultimately show ?thesis
    using db_page_leaks_password [OF _ pg_accounts_ok, of "pg_world pg_accounts" ?r "''1''" "\<lambda>p. True" "\<lambda>a b. 0" "''bob''"]
    by auto
qed

section \<open>The page of devices\<close>

text \<open>What has been done to the devices since the start: registrations and removals by any users.\<close>

datatype device_call = Register_call int string | Remove_call int string

fun run_device :: "IPAllocator \<Rightarrow> 'x wgctrl \<Rightarrow> device_call \<Rightarrow> 'x world \<Rightarrow> 'x world" where
  "run_device al c (Register_call uid key) w = snd (AddPeer al c uid key w)"
| "run_device al c (Remove_call uid key) w = snd (RemovePeer c key uid w)"

lemma run_device_keys: "holds (keys_parse c) (pg w) \<Longrightarrow> holds (keys_parse c) (pg (run_device al c x w))"
  by (cases x) (simp_all add: keepsD [OF AddPeer_keys] keepsD [OF RemovePeer_keys])

lemma run_devices_keys:
  "holds (keys_parse c) (pg w) \<Longrightarrow> holds (keys_parse c) (pg (fold (run_device al c) cs w))"
  by (induction cs arbitrary: w) (simp_all add: run_device_keys)

lemma quiet_sum_case [quiet_intros]:
  "(\<And>x. quiet (f x)) \<Longrightarrow> (\<And>y. quiet (g y)) \<Longrightarrow> quiet (case z of Inl x \<Rightarrow> f x | Inr y \<Rightarrow> g y)"
  by (cases z) auto

lemma device_rows_run:
  assumes "quiet (Device c ''wg0'')" and "list_all (\<lambda>p. \<not> isl (ParseKey c (PublicKey p))) ps"
  shows "quiet (device_rows c now ps)"
  using assms(2)
proof (induction ps)
  case (Cons p ps)
  then obtain k where k: "ParseKey c (PublicKey p) = Inr k" by (cases "ParseKey c (PublicKey p)") auto
  have "quiet (case filter (\<lambda>p. Kp_PublicKey p = k) peers of [] \<Rightarrow> ret False | p # _ \<Rightarrow> ret (recently now (Kp_LastHandshake p)))"
    for peers by (auto intro: quiet_intros split: list.split)
  then have "quiet (IsOnline c now (PublicKey p))"
    using k assms(1) by (simp add: IsOnline_def) (intro quiet_intros)
  with Cons show ?case by (simp add: k) (intro quiet_intros)
qed (simp add: quiet_ret)

text \<open>C32: the page of devices never ends the process, although it asks for each device with the call that a
  malformed key is fatal to: after any sequence of registrations and removals from an empty table, whatever
  failed in it and whatever the database answers now, every stored key parses.\<close>

theorem devices_page_survives:
  assumes "wgpeers (fst (pg w)) = []" and "quiet (Device c ''wg0'')"
  shows "fst (RenderDevicesPage renders c now (fold (run_device al c) cs w)) \<noteq> Crash m"
proof -
  let ?w = "fold (run_device al c) cs w"
  have k: "holds (keys_parse c) (pg ?w)"
    by (rule run_devices_keys) (simp add: holds_def keys_parse_def assms(1))
  obtain q d where g: "GetDevices (session_id (fst (session ?w))) (pg ?w) = (q, d)" by (metis prod.exhaust)
  have "q \<noteq> Crash x" for x by (rule quiet_result [OF wg_store_quiet(1) g])
  moreover have "list_all (\<lambda>p. \<not> isl (ParseKey c (PublicKey p))) peers" if "q = Ok peers" for peers
  proof -
    obtain t as where t: "pg ?w = (t, as)" by (cases "pg ?w")
    from g that t have "set peers \<subseteq> set (map peer_of (wgpeers t))"
      by (cases as rule: list.exhaust; cases "hd as")
         (auto simp: GetDevices_def tri_eq ret_def dest!: in_set_takeD)
    with k t show ?thesis by (auto simp: keys_parse_def list_all_iff peer_of_def)
  qed
  note rows = this
  show ?thesis
  proof (cases q)
    case (Ok peers)
    obtain q2 w2 where r: "device_rows c now peers (?w\<lparr>pg := d\<rparr>) = (q2, w2)" by (metis prod.exhaust)
    have "q2 \<noteq> Crash x" for x by (rule quiet_result [OF device_rows_run [OF assms(2) rows [OF Ok]] r])
    with g Ok r show ?thesis
      by (cases q2) (auto simp: RenderDevicesPage_def uid_of_session_def user_name_of_session_def tri_eq get_field_def handle_def
          on_pg_eq ret_def)
  next
    case (Er e)
    with g show ?thesis
      by (simp add: RenderDevicesPage_def uid_of_session_def user_name_of_session_def tri_eq get_field_def handle_def
          on_pg_eq ret_def)
  qed (use calculation in simp)
qed

theorem devices_page_survives_witness:
  "fst (RenderDevicesPage (\<lambda>p. True) sample_ctl 0
     (fold (run_device \<lparr>CidrValue = 24\<rparr> sample_ctl) [Register_call 1 ''key'', Register_call 2 [], Remove_call 1 ''key'']
        (wg_world\<lparr>pg := (two_accounts\<lparr>wgpeers := []\<rparr>, [])\<rparr>))) \<noteq> Crash ''Invalid public key''"
  by (rule devices_page_survives) (simp_all add: sample_ctl_def quiet_def)

end
