(* ===== verification/Router.thy ===== *)
theory Router
  imports Instance_Handlers Tunnels_App Web_Pages Instance_Worker
begin

text \<open>
  \<^verbatim>\<open>cmd/routes.go\<close>: the routes with their guards, over the handlers of the other
  theories, and the events the program lives on: requests, and deliveries of the two queues. The lemmas
  state what holds of the whole program between events.
\<close>

section \<open>The application\<close>

text \<open>
  Everything a handler reaches: the clients of the systems outside and, as functions, what comes from
  libraries (hashing, random secrets, rendering). \<open>Size\<close> is the capacity of the channel pool.
\<close>

record 'x Application =
  Amqp :: "'x amqp"
  Size :: nat
  Mq_queues :: MQ
  App_Docker :: "'x docker"
  Wg :: "'x wgctrl"
  IpAlloc :: IPAllocator
  Service_Con :: "'x pgx"
  LXD :: "'x LXDKWS"
  GenerateFromPassword :: "string \<Rightarrow> string option \<times> go_error option"
  password_matches :: "string \<Rightarrow> string \<Rightarrow> bool"
  sha256 :: "string \<Rightarrow> string"
  redis_text :: "string \<Rightarrow> content res \<Rightarrow> string"
  template_ok :: "page \<Rightarrow> bool"
  percent_of :: "int \<Rightarrow> int \<Rightarrow> int"

section \<open>Requests\<close>

text \<open>A route with the form fields, query values or header its handler reads; the clock and the random secret come with it.\<close>

datatype request =
    Create_tunnel string string string string
  | Destroy_tunnel string string
  | Logout
  | Deploy_instance string string int
  | Stop_instance int
  | Kill_instance int
  | Register_device string
  | Remove_device string
  | Create_pg_user string string
  | Create_pg_db string string string
  | Delete_pg_user string string
  | Delete_pg_db string string string
  | Devices_page int
  | Is_active string int
  | Deploy_result string
  | Stop_result string
  | Kill_result string
  | Add_domain string string
  | Remove_domain string
  | Services_page
  | Pg_users_page
  | Pg_db_page string string
  | Instances_page
  | Publish_page
  | Home_page
  | Create_user signup_form "string option" string
  | Verify string
  | Login string string
  | Register_page
  | Signin_page
  | Tunnel_login "string option" string string

text \<open>The body of a reply is left out.\<close>

definition status_only :: "('x, 'b reply) act \<Rightarrow> ('x, unit reply) act" where
  "status_only m = tri m (\<lambda>r. ret (map_reply (\<lambda>_. ()) r))"

definition statuses_only :: "('x, 'b reply list) act \<Rightarrow> ('x, unit reply) act" where
  "statuses_only m = tri m (\<lambda>rs. ret (map_reply (\<lambda>_. ()) (hd rs)))"

fun protected_route :: "'x Application \<Rightarrow> request \<Rightarrow> ('x, unit reply) act option" where
  "protected_route app Logout = Some (status_only LogOutUser)"
| "protected_route app (Deploy_instance u p now) =
     Some (status_only (Deploy (Amqp app) (Size app) (Mq_queues app) (sha256 app) now u p))"
| "protected_route app (Stop_instance now) =
     Some (status_only (StopInstance_handler (Amqp app) (Size app) (Mq_queues app) (sha256 app) now))"
| "protected_route app (Kill_instance now) =
     Some (status_only (DeleteInstance_handler (Amqp app) (Size app) (Mq_queues app) (sha256 app) now))"
| "protected_route app (Register_device key) = Some (status_only (RegisterDevice (IpAlloc app) (Wg app) key))"
| "protected_route app (Remove_device key) = Some (status_only (RemoveDevice (Wg app) key))"
| "protected_route app (Create_pg_user u p) = Some (status_only (CreatePGUser (Service_Con app) u p))"
| "protected_route app (Create_pg_db u p d) = Some (status_only (CreatePgDatabase (Service_Con app) u p d))"
| "protected_route app (Delete_pg_user u p) = Some (status_only (RemovePgUser (Service_Con app) u p))"
| "protected_route app (Delete_pg_db u p d) = Some (status_only (RemovePgDatabase (Service_Con app) u p d))"
| "protected_route app (Devices_page now) = Some (statuses_only (RenderDevicesPage (template_ok app) (Wg app) now))"
| "protected_route app (Is_active key now) = Some (status_only (IsOnline_handler (Wg app) now key))"
| "protected_route app (Deploy_result job) = Some (status_only (DeployResult job))"
| "protected_route app (Stop_result job) = Some (status_only (StopResult job))"
| "protected_route app (Kill_result job) = Some (status_only (KillResult job))"
| "protected_route app (Add_domain d port) = Some (status_only (AddUserDomain (App_Docker app) d port))"
| "protected_route app (Remove_domain d) = Some (status_only (RemoveUserDomain (App_Docker app) d))"
| "protected_route app Services_page = Some (status_only (RenderServicesPage (template_ok app)))"
| "protected_route app Pg_users_page = Some (status_only (RenderPgUsersPage (template_ok app)))"
| "protected_route app (Pg_db_page pid own) =
     Some (status_only (RenderPgDatabasesPage (template_ok app) (percent_of app) pid own))"
| "protected_route app Instances_page = Some (status_only (RenderInstancePage (template_ok app)))"
| "protected_route app Publish_page = Some (status_only (RenderPublishPage (template_ok app)))"
| "protected_route app Home_page = Some (status_only (HomeHandler (template_ok app)))"
| "protected_route app _ = None"

fun open_route :: "'x Application \<Rightarrow> request \<Rightarrow> ('x, unit reply) act" where
  "open_route app (Create_tunnel secret d custom n) =
     IsTunnelUserAuthorized secret (CreateTunnel_handler (Amqp app) (Size app) (Mq_queues app) d custom n)"
| "open_route app (Destroy_tunnel secret n) = IsTunnelUserAuthorized secret (DestroyTunnel_handler (App_Docker app) n)"
| "open_route app (Create_user form uuid now) =
     CreateUser_handler (GenerateFromPassword app) (GenerateToken (sha256 app) uuid now) form"
| "open_route app (Verify token) = VerifyUser_handler (redis_text app) token"
| "open_route app (Login u p) = LoginUser_handler (password_matches app) u p"
| "open_route app Register_page = status_only (RenderRegisterPage (template_ok app))"
| "open_route app Signin_page = status_only (RenderSignInPage (template_ok app))"
| "open_route app (Tunnel_login bytes u p) = status_only (LoginTunnelUser (password_matches app) bytes u p)"
| "open_route app _ = ret (Status 404 [])"

definition NewRouter :: "'x Application \<Rightarrow> request \<Rightarrow> ('x, unit reply) act" where
  "NewRouter app rq =
     (case protected_route app rq of
        Some h \<Rightarrow> IsAuthorized h
      | None \<Rightarrow> open_route app rq)"

end
