(* ===== verification/Events.thy ===== *)
theory Events
  imports Router Ip_Calls
begin

text \<open>
  The whole program between events: a request of any session, or a delivery of one of the two queues, run to
  completion. What is to be kept by every event is stated once, as the locale \<open>event_invariant\<close>: its laws
  speak of the calls the handlers, jobs and consumers make of the stores, the allocator and the tunnel login, and its
  lemmas carry the invariant through every handler, job and consumer. The theories on the limits, the pools of
  addresses, the keyspace and the tunnel logins interpret it.
\<close>

section \<open>Events\<close>

text \<open>A request comes with its session, a delivery of the tunnel queue with its headers.\<close>

datatype event =
    Request "session server" request
  | Deliver_instance InstanceQueueMessage
  | Deliver_tunnel "header_table option" TunnelQueueMessage

fun run_event :: "'x Application \<Rightarrow> event \<Rightarrow> 'x world \<Rightarrow> 'x world" where
  "run_event app (Request s rq) w = snd (NewRouter app rq (w\<lparr>session := s\<rparr>))"
| "run_event app (Deliver_instance m) w = snd (ConsumeMessageInstance (LXD app) m w)"
| "run_event app (Deliver_tunnel h m) w = snd (ConsumeMessageTunnel (App_Docker app) m (w\<lparr>headers := h\<rparr>))"

lemma wrap_error_keeps [keeps_intros]: "keeps I m \<Longrightarrow> keeps I (wrap_error msg m)"
  unfolding wrap_error_def by (intro keeps_intros)

lemma status_keeps [keeps_intros]:
  "keeps I m \<Longrightarrow> keeps I (status_only m)" "keeps I ms \<Longrightarrow> keeps I (statuses_only ms)"
  unfolding status_only_def statuses_only_def by (intro keeps_intros; assumption)+

text \<open>Calls that only read the tables.\<close>

definition only_reads :: "(db, 'a) prog \<Rightarrow> bool" where
  "only_reads m \<longleftrightarrow> (\<forall>x. keeps (holds (\<lambda>t. t = x)) m)"

lemma only_readsD: "only_reads m \<Longrightarrow> m d = (r, d') \<Longrightarrow> fst d' = fst d"
  unfolding only_reads_def keeps_def holds_def by (metis snd_conv)

lemma store_reads:
  "only_reads (Exists_store uid)" "only_reads (GetData uid)" "only_reads (GetIPFromUID uid)"
  "only_reads (LoginUser_store mt u p)" "only_reads (GetDomainFromTunnel tn)" "only_reads (GetDevices uid)"
  "only_reads (GetUserDomains d)" "only_reads (GetUserDatabases uid n p)" "only_reads (GetUsers uid)"
  "only_reads (GetDatabases pid uid)" "only_reads (GetPassword pid)"
  unfolding only_reads_def Exists_store_def GetData_def GetIPFromUID_def LoginUser_store_def GetDomainFromTunnel_def
    GetDevices_def GetUserDomains_def GetUserDatabases_def GetUsers_def GetDatabases_def GetPassword_def Let_def
  by (intro allI keeps_intros keeps_serve; simp add: sql_read_def)+

lemmas job_defs = run_job_def deploy_def deploy_rest_def deploy_record_def deploy_done_def stop_def stop_record_def
  kill_def kill_record_def kill_cleanup_def

section \<open>What every event keeps\<close>

text \<open>The invariant is one of an application; \<open>allowed\<close> says for which requests it is kept.\<close>

locale event_invariant =
  fixes inv :: "'x world \<Rightarrow> bool"
    and app :: "'x Application"
    and allowed :: "request \<Rightarrow> bool"
  assumes frame: "inv w \<Longrightarrow> fst (pg w') = fst (pg w) \<Longrightarrow> redis w' = redis w \<Longrightarrow> inv w'"
    and instance_calls:
      "keeps inv (on_pg (CreateInstance_store uid n u p))" "keeps inv (on_pg (StartInstance uid))"
      "keeps inv (on_pg (StopInstance_store uid))" "keeps inv (on_pg (RemoveInstance uid))"
    and account_calls:
      "keeps inv (on_pg (CreateUser_store h a b c d e))" "keeps inv (on_pg (VerifyUser_store email))"
      "keeps inv (on_pg (CreateTunnel_store tn))" "keeps inv (on_pg (DestroyTunnel_store tn))"
    and domain_calls:
      "keeps inv (on_pg (AddDomain dm))" "keeps inv (on_pg (RemoveDomain dm))"
      "keeps inv (on_pg (AddUserDomain_store dm))" "keeps inv (on_pg (DeleteUserDomains dm))"
    and service_calls:
      "keeps inv (on_pg (AddUser_pg pu))" "keeps inv (on_pg (AddDatabase pu pd))"
      "keeps inv (on_pg (RemoveDatabase pu pd))" "keeps inv (on_pg (RemoveUser_pg pu))"
    and address_calls:
      "keeps inv (AllocateFreeIp (IpAlloc app) uid key)" "keeps inv (AllocateFreeLXCIp (Ip (LXD app)) uid)"
      "keeps inv (DeAllocateIP key uid)" "keeps inv (DeAllocateLXCIP uid)"
    and box_calls:
      "keeps inv (on_redis (PutDeployResult un job pw addr ok cid))" "keeps inv (on_redis (GetDeployResult job))"
      "keeps inv (on_redis (PutStopResult ok job))" "keeps inv (on_redis (GetStopResult job))"
      "keeps inv (on_redis (PutKillResult ok job))" "keeps inv (on_redis (GetKillResult job))"
    and token_calls:
      "is_hex token \<Longrightarrow> keeps inv (on_redis (SetEmailToken email token))"
      "keeps inv (on_redis (GetEmailFromToken ct key))" "keeps inv (on_redis (DeleteEmailToken key))"
      "keeps inv (on_redis (GetUidFromTunnelSecret key))"
    and tunnel_login:
      "allowed (Tunnel_login bytes u p) \<Longrightarrow> keeps inv (LoginTunnelUser (password_matches app) bytes u p)"
begin

lemma aside:
  "keeps inv (on_disk b)" "keeps inv (on_session c)" "keeps inv (extern e)" "keeps inv (settle_with s)"
  "keeps inv (get_field f)"
  by (auto simp: keeps_def act_eqs split: prod.split elim!: frame)

lemma set_aside: "(\<And>w. pg (f w) = pg w \<and> redis (f w) = redis w) \<Longrightarrow> keeps inv (set_field f)"
  by (auto simp: keeps_def set_field_def elim!: frame)

lemma read_call: "only_reads m \<Longrightarrow> keeps inv (on_pg m)"
  by (auto simp: keeps_def on_pg_eq split: prod.split elim!: frame dest!: only_readsD)

lemmas reads = store_reads [THEN read_call]

lemmas calls = instance_calls account_calls domain_calls service_calls address_calls box_calls token_calls
  reads aside set_aside

lemma confs: "keeps inv (ReloadNginxConf dk c)" "keeps inv (remove_confs ds)"
proof -
  show 1: "keeps inv (ReloadNginxConf dk c)"
    unfolding ReloadNginxConf_def ExecAndPrint_def by (intro keeps_intros calls)
  show "keeps inv (remove_confs ds)" by (induction ds) (auto intro: keeps_intros calls)
qed

lemma containers:
  "keeps inv (CreateInstance_lxd (LXD app) name uid)"
  "keeps inv (UpdateInstanceState l u p st name ex uid)"
  "keeps inv (DeleteInstance_lxd l uid name)"
  unfolding container_defs Let_def by (intro keeps_intros calls)+

lemma job_parts: "keeps inv (put_failure m)" "keeps inv (nack e)" "keeps inv (forget_job j)"
  unfolding put_failure_def nack_def forget_job_def by (intro keeps_intros calls; simp)+

lemma instance_worker: "keeps inv (ConsumeMessageInstance (LXD app) m)"
  unfolding ConsumeMessageInstance_def job_defs Let_def
  by (intro keeps_intros calls confs containers job_parts; simp)

lemma tunnel_worker: "keeps inv (ConsumeMessageTunnel dk m)"
  unfolding ConsumeMessageTunnel_def CreateTunnelUtility_def undo_conf_def to_retry_queue_def
    IncrementRetryCounter_def Let_def
  by (intro keeps_intros calls confs job_parts; simp)

lemma channels: "keeps inv (GetFreeChannel a)" "keeps inv (PushChannel a cap ch)" "keeps inv (PushMessageInstance a cap q m)"
proof -
  have *: "inv w \<Longrightarrow> inv (w\<lparr>pool := ps\<rparr>)" for w ps by (erule frame) simp_all
  have "keeps inv (handle (extern (OpenChannel a)) (\<lambda>e. ret None) (\<lambda>n. ret (Some n)))" by (intro keeps_intros calls)
  with * show 1: "keeps inv (GetFreeChannel a)" by (auto simp: keeps_def GetFreeChannel_def split: list.split)
  show 2: "keeps inv (PushChannel a cap ch)" for ch unfolding PushChannel_def by (intro keeps_intros calls) simp
  show "keeps inv (PushMessageInstance a cap q m)"
    unfolding PushMessageInstance_def by (intro keeps_intros calls 1 2)
qed

section \<open>Requests\<close>

lemma session_values: "keeps inv uid_of_session" "keeps inv user_name_of_session"
  unfolding uid_of_session_def user_name_of_session_def by (intro calls)+

lemma service:
  "keeps inv (CreatePostgresUser s u pw)" "keeps inv (CreateDatabase s d u)" "keeps inv (DropDatabase s d)"
  "keeps inv (DropPostgresUser s uid u pw)"
proof -
  show "keeps inv (CreatePostgresUser s u pw)" "keeps inv (CreateDatabase s d u)"
    unfolding CreatePostgresUser_def CreateDatabase_def by (intro keeps_intros calls)+
  show 1: "keeps inv (DropDatabase s d)" for d unfolding DropDatabase_def by (intro keeps_intros calls)
  have "keeps inv (drop_databases s ds)" for ds by (induction ds) (auto intro: keeps_intros 1)
  then show "keeps inv (DropPostgresUser s uid u pw)" unfolding DropPostgresUser_def by (intro keeps_intros calls)
qed

lemma devices:
  "keeps inv (RegisterDevice (IpAlloc app) c key)" "keeps inv (RemoveDevice c key)"
  "keeps inv (IsOnline_handler c now key)" "keeps inv (device_rows c now ps)"
proof -
  show "keeps inv (RegisterDevice (IpAlloc app) c key)" "keeps inv (RemoveDevice c key)"
    unfolding RegisterDevice_def AddPeer_def RemoveDevice_def RemovePeer_def
    by (intro keeps_intros calls session_values)+
  have 1: "keeps inv (IsOnline c now key)" for key unfolding IsOnline_def by (intro keeps_intros calls)
  then show "keeps inv (IsOnline_handler c now key)" unfolding IsOnline_handler_def by (intro keeps_intros)
  show "keeps inv (device_rows c now ps)" by (induction ps) (auto intro: keeps_intros 1)
qed

lemma pages:
  "keeps inv (RenderRegisterPage r)" "keeps inv (RenderSignInPage r)" "keeps inv (HomeHandler r)"
  "keeps inv (RenderDevicesPage r c now)" "keeps inv (RenderServicesPage r)" "keeps inv (RenderPgUsersPage r)"
  "keeps inv (RenderPgDatabasesPage r pc pid own)" "keeps inv (RenderInstancePage r)" "keeps inv (RenderPublishPage r)"
  unfolding RenderRegisterPage_def RenderSignInPage_def HomeHandler_def RenderDevicesPage_def RenderServicesPage_def
    RenderPgUsersPage_def RenderPgDatabasesPage_def RenderInstancePage_def RenderPublishPage_def Let_def
  by (intro keeps_intros calls session_values devices)+

lemma service_requests:
  "keeps inv (CreatePGUser s u pw)" "keeps inv (CreatePgDatabase s u pw d)" "keeps inv (RemovePgUser s u pw)"
  "keeps inv (RemovePgDatabase s u pw d)"
  unfolding CreatePGUser_def CreatePgDatabase_def RemovePgUser_def RemovePgDatabase_def
  by (intro keeps_intros calls session_values service)+

lemma instance_requests:
  "keeps inv (Deploy a cap q sha now u pw)" "keeps inv (StopInstance_handler a cap q sha now)"
  "keeps inv (DeleteInstance_handler a cap q sha now)"
  "keeps inv (DeployResult job)" "keeps inv (StopResult job)" "keeps inv (KillResult job)"
  unfolding Deploy_def StopInstance_handler_def DeleteInstance_handler_def handleInstanceAction_def instance_message_def
    DeployResult_def StopResult_def KillResult_def handleDeployResult_def handleSKResult_def Let_def
  by (intro keeps_intros calls channels)+

lemma name_requests:
  "keeps inv (AddUserDomain dk d port)" "keeps inv (RemoveUserDomain dk d)"
  "keeps inv (CreateTunnel_handler a cap q d custom n uid)" "keeps inv (DestroyTunnel_handler dk n uid)"
  unfolding AddUserDomain_def RemoveUserDomain_def CreateTunnel_handler_def DestroyTunnel_handler_def went_wrong_def Let_def
  by (intro keeps_intros calls session_values confs channels)+

lemma account_requests:
  "(\<And>e tk. gt e = Some tk \<Longrightarrow> is_hex tk) \<Longrightarrow> keeps inv (CreateUser_handler bc gt form)"
  "keeps inv (VerifyUser_handler ct token)" "keeps inv (LoginUser_handler mt u pw)" "keeps inv LogOutUser"
proof -
  show "keeps inv (CreateUser_handler bc gt form)" if gt: "\<And>e tk. gt e = Some tk \<Longrightarrow> is_hex tk"
  proof -
    have tail: "keeps inv (case gt e of None \<Rightarrow> crash ''uuidgen''
        | Some token \<Rightarrow> tri (logged (on_redis (SetEmailToken e token)))
            (\<lambda>_. tri (set_field (\<lambda>w. w\<lparr>mails := mails w @ [(e, token)]\<rparr>)) (\<lambda>_. ret (Redirect ''/kws_signin''))))" for e
      using gt [of e] by (cases "gt e") (auto intro!: keeps_intros calls)
    show ?thesis
      unfolding CreateUser_handler_def Let_def by (intro keeps_ret keeps_if keeps_tri keeps_handle tail calls)
  qed
  show "keeps inv (VerifyUser_handler ct token)" "keeps inv (LoginUser_handler mt u pw)" "keeps inv LogOutUser"
    unfolding VerifyUser_handler_def LoginUser_handler_def LogOutUser_def Let_def
    by (intro keeps_intros calls; simp)+
qed

lemmas requests = pages service_requests instance_requests name_requests account_requests devices tunnel_login

lemma guards:
  "keeps inv h \<Longrightarrow> keeps inv (IsAuthorized h)"
  "(\<And>uid. keeps inv (k uid)) \<Longrightarrow> keeps inv (IsTunnelUserAuthorized secret k)"
  unfolding IsAuthorized_def IsTunnelUserAuthorized_def by (intro keeps_intros calls; assumption)+

lemma routes:
  assumes "allowed rq"
  shows "protected_route app rq = Some h \<Longrightarrow> keeps inv h" and "keeps inv (open_route app rq)"
  using assms by (cases rq; auto intro!: keeps_intros requests guards GenerateToken_hex)+

lemma router: "allowed rq \<Longrightarrow> keeps inv (NewRouter app rq)"
  unfolding NewRouter_def using routes [of rq] by (auto intro!: guards split: option.split)

lemma event_keeps:
  assumes "inv w" and "\<And>s rq. e = Request s rq \<Longrightarrow> allowed rq"
  shows "inv (run_event app e w)"
proof -
  have "inv (w\<lparr>session := s\<rparr>)" "inv (w\<lparr>headers := h\<rparr>)" for s h using assms(1) by (rule frame; simp)+
  with assms show ?thesis
    by (cases e) (simp_all add: keepsD [OF router] keepsD [OF instance_worker] keepsD [OF tunnel_worker])
qed

lemma events_keep:
  "inv w \<Longrightarrow> (\<And>s rq. Request s rq \<in> set es \<Longrightarrow> allowed rq) \<Longrightarrow> inv (fold (run_event app) es w)"
proof (induction es arbitrary: w)
  case (Cons e es)
  have "inv (run_event app e w)" by (rule event_keeps [OF Cons.prems(1)]) (use Cons.prems(2) in auto)
  then have "inv (fold (run_event app) es (run_event app e w))"
    by (rule Cons.IH) (rule Cons.prems(2), rule list.set_intros(2))
  then show ?case by simp
qed simp

end

section \<open>An application and its sessions, for concrete runs\<close>

definition idle_app :: "unit Application" where
  "idle_app =
     \<lparr>Amqp = sample_amqp, Size = 32, Mq_queues = main_queues, App_Docker = idle_docker,
      Wg = \<lparr>ParseKey = Inr, ConfigureDevice = (\<lambda>i cf. ret ()), Device = (\<lambda>i. ret [])\<rparr>, IpAlloc = \<lparr>CidrValue = 24\<rparr>,
      Service_Con = \<lparr>Exec = (\<lambda>s. ret ()), Sanitize = (\<lambda>s. s)\<rparr>,
      LXD = \<lparr>Conn =
          \<lparr>GetImageAlias = (\<lambda>a. ret ()), not_found = (\<lambda>e. False), ConnectSimpleStreams = (\<lambda>u. ret ()),
           RemoteImageAlias = ret, RemoteImage = ret, CopyImage = (\<lambda>i a. ret ()), GetNetwork = (\<lambda>n. ret ()),
           CreateNetwork = (\<lambda>n c. ret ()), GetStoragePool = (\<lambda>n. ret ()), CreateStoragePool = (\<lambda>n d. ret ()),
           GetInstances = ret [], LxdCreate = (\<lambda>rq. ret ()), GetInstanceState = (\<lambda>n. ret ''Stopped''),
           LxdUpdate = (\<lambda>n a. ret ()), DeleteContainer = (\<lambda>n. ret ()), ExecInstance = (\<lambda>n c. ret ()),
           GetContainerState = (\<lambda>n. ret []), op_wait = ret ()\<rparr>,
        Ip = \<lparr>CidrValue = 24\<rparr>, Docker = idle_docker\<rparr>,
      GenerateFromPassword = (\<lambda>p. (Some p, None)), password_matches = (\<lambda>h p. h = p), sha256 = (\<lambda>s. s),
      redis_text = plain_cmd, template_ok = (\<lambda>p. True), percent_of = (\<lambda>a b. 100 * a div b)\<rparr>"

definition session_of :: "int \<Rightarrow> session server" where
  "session_of uid = (\<lparr>is_authorized = True, session_id = uid, session_name = itoa uid\<rparr>, [])"

end
