(* ===== verification/Startup.thy ===== *)
theory Startup
  imports Events
begin

text \<open>
  \<^verbatim>\<open>cmd/main.go\<close> up to the call that serves requests, with \<^verbatim>\<open>internal/env.go\<close>, the
  connections it opens and the mail of \<^verbatim>\<open>internal/gmail\<close>. Every failure but one ends the process. The
  lemmas follow the pool of channels through the start and say what is left of it for the requests.
\<close>

section \<open>The environment\<close>

text \<open>\<open>getenv\<close> is \<^verbatim>\<open>os.Getenv\<close> after the file has been loaded, empty for an unset name.\<close>

record 'x machine =
  LoadDotenv :: "string \<Rightarrow> ('x, unit) call"
  getenv :: "string \<Rightarrow> string"
  NewDockerClient :: "('x, unit) call"
  Ping :: "('x, unit) call"
  ParsePgConfig :: "string \<Rightarrow> go_error + unit"
  NewPgPool :: "string \<Rightarrow> ('x, unit) call"
  NewWgctrl :: "('x, unit) call"
  PgxConnect :: "string \<Rightarrow> ('x, unit) call"
  ConnectLXDUnix :: "string \<Rightarrow> ('x, unit) call"
  Links :: "'x netlink"
  DialAndSend :: "(string \<times> string) list \<Rightarrow> string \<Rightarrow> string \<Rightarrow> ('x, unit) call"

text \<open>A file that is not there is only logged.\<close>

definition LoadEnv :: "'x machine \<Rightarrow> ('x, unit) act" where
  "LoadEnv e = logged (extern (LoadDotenv e ''../.env''))"

definition GetDBUserName :: "'x machine \<Rightarrow> string" where "GetDBUserName e = getenv e ''DB_USERNAME''"
definition GetDBPassword :: "'x machine \<Rightarrow> string" where "GetDBPassword e = getenv e ''DB_PASSWORD''"
definition GetDBHost :: "'x machine \<Rightarrow> string" where "GetDBHost e = getenv e ''DB_HOST''"
definition GetDBPort :: "'x machine \<Rightarrow> string" where "GetDBPort e = getenv e ''DB_PORT''"
definition GetDBName :: "'x machine \<Rightarrow> string" where "GetDBName e = getenv e ''DB_DBNAME''"
definition GetRedisHost :: "'x machine \<Rightarrow> string" where "GetRedisHost e = getenv e ''REDIS_HOST''"
definition GetRedisPort :: "'x machine \<Rightarrow> string" where "GetRedisPort e = getenv e ''REDIS_PORT''"
definition GetRedisPassword :: "'x machine \<Rightarrow> string" where "GetRedisPassword e = getenv e ''REDIS_PASSWORD''"
definition GetGmailAppPassword :: "'x machine \<Rightarrow> string" where "GetGmailAppPassword e = getenv e ''GMAIL_APP_PASSWORD''"
definition GetGmail :: "'x machine \<Rightarrow> string" where "GetGmail e = getenv e ''GMAIL_ADDRESS''"
definition GetMqHost :: "'x machine \<Rightarrow> string" where "GetMqHost e = getenv e ''MQ_HOST''"
definition GetMqPort :: "'x machine \<Rightarrow> string" where "GetMqPort e = getenv e ''MQ_SERVER_PORT''"
definition GetMqUser :: "'x machine \<Rightarrow> string" where "GetMqUser e = getenv e ''MQ_USER''"
definition GetMqPassword :: "'x machine \<Rightarrow> string" where "GetMqPassword e = getenv e ''MQ_PASSWORD''"
definition GetWireguardPrivateKey :: "'x machine \<Rightarrow> string" where
  "GetWireguardPrivateKey e = getenv e ''WG_PRIVATE_KEY''"
definition GetPGServiceUserName :: "'x machine \<Rightarrow> string" where "GetPGServiceUserName e = getenv e ''PG_SERVICE_USERNAME''"
definition GetPGServicePassword :: "'x machine \<Rightarrow> string" where "GetPGServicePassword e = getenv e ''PG_SERVICE_PASSWORD''"
definition GetPGServiceHost :: "'x machine \<Rightarrow> string" where "GetPGServiceHost e = getenv e ''PG_SERVICE_HOST''"
definition GetPGServicePort :: "'x machine \<Rightarrow> string" where "GetPGServicePort e = getenv e ''PG_SERVICE_PORT''"
definition GetPGServiceName :: "'x machine \<Rightarrow> string" where "GetPGServiceName e = getenv e ''PG_SERVICE_DB''"

definition getENV :: "'x machine \<Rightarrow> string" where "getENV e = getenv e ''ENV''"

text \<open>
  \<^verbatim>\<open>strings.ToLower\<close>, for comparing with an ASCII text: of the runes beyond ASCII, only U+0130 and U+212A
  have an ASCII letter for their lower case; the others are kept.
\<close>

definition lower_rune :: "string \<Rightarrow> string" where
  "lower_rune r =
     (if r = [CHR 0xC4, CHR 0xB0] then ''i''
      else if r = [CHR 0xE2, CHR 0x84, CHR 0xAA] then ''k''
      else map (\<lambda>c. let n = of_char c :: nat in if 65 \<le> n \<and> n \<le> 90 then char_of (n + 32) else c) r)"

definition IsProd :: "'x machine \<Rightarrow> bool" where
  "IsProd e \<longleftrightarrow> concat (map lower_rune (runes (getENV e))) = ''production''"

section \<open>Connections\<close>

record Pg =
  Pg_User :: string
  Pg_Pass :: string
  Pg_Host :: string
  Pg_Port :: string
  Pg_Name :: string

definition pg_url :: "Pg \<Rightarrow> string" where
  "pg_url p = ''postgresql://'' @ Pg_User p @ '':'' @ Pg_Pass p @ ''@'' @ Pg_Host p @ '':'' @ Pg_Port p @ ''/'' @ Pg_Name p @
     ''?sslmode=disable''"

text \<open>\<^verbatim>\<open>log.Fatal\<close> with a message of its own.\<close>

definition fatal :: "string \<Rightarrow> ('x, 'a) act \<Rightarrow> ('x, 'a) act" where
  "fatal msg m = handle m (\<lambda>e. crash msg) ret"

text \<open>The parsed configuration, with its bound on connections, is not the one the pool is made from.\<close>

definition GetNewDBConnection :: "'x machine \<Rightarrow> Pg \<Rightarrow> ('x, unit) act" where
  "GetNewDBConnection e p =
     (case ParsePgConfig e (pg_url p) of
        Inl er \<Rightarrow> crash ''Failed to parse pg config''
      | Inr config \<Rightarrow> fatal ''Cannot create database pool'' (extern (NewPgPool e (pg_url p))))"

definition ConnectToPGServiceBackend :: "'x machine \<Rightarrow> Pg \<Rightarrow> ('x, unit) act" where
  "ConnectToPGServiceBackend e p = extern (PgxConnect e (pg_url p))"

definition GetConnection :: "'x machine \<Rightarrow> ('x, unit) act" where
  "GetConnection e = tri (extern (NewDockerClient e)) (\<lambda>_. extern (Ping e))"

definition ConnectToWireguard :: "'x machine \<Rightarrow> ('x, unit) act" where
  "ConnectToWireguard e = extern (NewWgctrl e)"

definition ConnectToLXD :: "'x machine \<Rightarrow> ('x, unit) act" where
  "ConnectToLXD e = extern (ConnectLXDUnix e ''/var/lib/lxd/unix.socket'')"

definition main_pg :: "'x machine \<Rightarrow> Pg" where
  "main_pg e = \<lparr>Pg_User = GetDBUserName e, Pg_Pass = GetDBPassword e, Pg_Host = GetDBHost e, Pg_Port = GetDBPort e,
     Pg_Name = GetDBName e\<rparr>"

definition service_pg :: "'x machine \<Rightarrow> Pg" where
  "service_pg e = \<lparr>Pg_User = GetPGServiceUserName e, Pg_Pass = GetPGServicePassword e, Pg_Host = GetPGServiceHost e,
     Pg_Port = GetPGServicePort e, Pg_Name = GetPGServiceName e\<rparr>"

definition main_mq :: "'x machine \<Rightarrow> Mq" where
  "main_mq e = \<lparr>Mq_User = GetMqUser e, Mq_Pass = GetMqPassword e, Mq_Port = GetMqPort e, Mq_Host = GetMqHost e\<rparr>"

section \<open>Redis\<close>

text \<open>The client connects on its first use; \<open>Connect\<close> only makes it, from these options.\<close>

record redis_options =
  Opt_Addr :: string
  Opt_Password :: string
  Opt_DB :: int

record RedisDB =
  Rd_Addr :: string
  Rd_Password :: string
  Rd_DB :: int

definition Connect :: "RedisDB \<Rightarrow> redis_options" where
  "Connect r = \<lparr>Opt_Addr = Rd_Addr r, Opt_Password = Rd_Password r, Opt_DB = Rd_DB r\<rparr>"

definition main_redis :: "'x machine \<Rightarrow> redis_options" where
  "main_redis e = Connect \<lparr>Rd_Addr = GetRedisHost e @ '':'' @ GetRedisPort e, Rd_Password = GetRedisPassword e, Rd_DB = 0\<rparr>"

text \<open>The sessions are kept in a database of their own, behind a pool.\<close>

definition session_redis :: "'x machine \<Rightarrow> redis_options" where
  "session_redis e =
     \<lparr>Opt_Addr = GetRedisHost e @ '':'' @ GetRedisPort e, Opt_Password = GetRedisPassword e, Opt_DB = 1\<rparr>"

lemma sessions_apart: "Opt_DB (main_redis e) \<noteq> Opt_DB (session_redis e)"
  by (simp add: main_redis_def session_redis_def Connect_def)

record session_settings =
  Lifetime_hours :: nat
  Cookie_Name :: string
  Cookie_HttpOnly :: bool
  Cookie_Persist :: bool
  Cookie_Secure :: bool

definition main_sessions :: "'x machine \<Rightarrow> session_settings" where
  "main_sessions e = \<lparr>Lifetime_hours = 24, Cookie_Name = ''kws_session'', Cookie_HttpOnly = True, Cookie_Persist = True,
     Cookie_Secure = IsProd e\<rparr>"

section \<open>Mail\<close>

definition SendMail :: "'x machine \<Rightarrow> string \<Rightarrow> string \<Rightarrow> ('x, unit) act" where
  "SendMail e to token =
     (let url = ''https://kwscloud.in/verify?token='' @ token
      in handle (extern (DialAndSend e [(''From'', GetGmail e), (''To'', to), (''Subject'', ''Hello'')]
           (''<html>Click <a href='' @ [CHR 0x27] @ url @ [CHR 0x27] @
            ''>here</a> to activate your account. This link will expire in 1 day.</html>'') (GetGmailAppPassword e)))
           (\<lambda>er. fail (ErrText (''cannot send Email: '' @ error_text er))) ret)"

section \<open>The queues\<close>

text \<open>A nil channel, which \<open>GetFreeChannel\<close> gives when it cannot open one, fails on its first use.\<close>

definition with_channel :: "'x amqp \<Rightarrow> (nat \<Rightarrow> ('x, 'a) act) \<Rightarrow> ('x, 'a) act" where
  "with_channel a k =
     tri (GetFreeChannel a) (\<lambda>ch. case ch of None \<Rightarrow> crash ''nil pointer dereference'' | Some c \<Rightarrow> k c)"

definition open_queue :: "'x amqp \<Rightarrow> nat \<Rightarrow> string \<Rightarrow> string \<Rightarrow> ('x, string) act" where
  "open_queue a cap queueName retryQueue =
     tri (fatal ''Failed to create instance queue'' (with_channel a (\<lambda>ch. CreateQueueInstance a cap ch queueName retryQueue)))
       (\<lambda>q. tri (fatal ''Failed to create retry queue'' (with_channel a (\<lambda>ch. CreateRetryQueue a cap ch retryQueue queueName)))
          (\<lambda>_. tri (fatal ''Failed to create a consumer'' (with_channel a (\<lambda>ch. CreateConsumer a ch q)))
             (\<lambda>_. ret q)))"

definition open_queues :: "'x machine \<Rightarrow> 'x amqp \<Rightarrow> ('x, MQ) act" where
  "open_queues e a =
     tri (fatal ''Failed to connect to rabbitmq'' (ConnectToMq a (main_mq e)))
       (\<lambda>con. tri (CreateChannelPool a 32 3)
          (\<lambda>_. tri (open_queue a 32 MAIN_INSTANCE_QUEUE INSTANCE_RETRY_QUEUE)
             (\<lambda>instanceQueue. tri (open_queue a 32 MAIN_TUNNEL_QUEUE TUNNEL_RETRY_QUEUE)
                (\<lambda>tunnelQueue. ret \<lparr>InstanceQueue = Some instanceQueue, TunnelQueue = Some tunnelQueue\<rparr>))))"

section \<open>The host\<close>

definition prepare_host :: "'x machine \<Rightarrow> 'x Application \<Rightarrow> ('x, unit) act" where
  "prepare_host e app =
     tri (handle (PullUbuntuImage (LXD app)) (\<lambda>er. crash (error_text er)) ret)
       (\<lambda>_. tri (fatal ''Failed to create bridge network'' (CreateBridgeNetwork (LXD app)))
          (\<lambda>_. tri (fatal ''Failed to create storage pool'' (CreateDirStoragePool (LXD app) STORAGE_POOL))
             (\<lambda>_. tri (handle (CreateInterfaceWgMain (Links e))
                     (\<lambda>er. if error_text er \<noteq> INTERFACE_ALREADY_EXISTS then crash ''Cannot create interface wg0'' else ret ())
                     ret)
                (\<lambda>_. tri (fatal ''Cannot configure wireguard to the kernel module''
                        (ConfigureWireguard (Wg app) (GetWireguardPrivateKey e)))
                   (\<lambda>_. fatal ''Cannot set forward bit to 1'' SetForwardBitToOne)))))"

section \<open>The program\<close>

text \<open>
  The clients of the libraries come in the argument \<open>libs\<close>; the rest of the application is put together
  here. The result is what the consumers and the HTTP server are started with. The \<^verbatim>\<open>MQ\<close> that
  \<open>NewStore\<close> makes for the storage is applied where the storage is used, in \<open>handleInstanceAction\<close>.
\<close>

definition main_application :: "'x Application \<Rightarrow> MQ \<Rightarrow> 'x Application" where
  "main_application libs q =
     libs\<lparr>Size := 32, Mq_queues := q, IpAlloc := \<lparr>CidrValue = CIDR\<rparr>,
        LXD := (LXD libs)\<lparr>Ip := \<lparr>CidrValue = CIDR\<rparr>, Docker := App_Docker libs\<rparr>\<rparr>"

definition main_program :: "'x machine \<Rightarrow> 'x Application \<Rightarrow> ('x, 'x Application) act" where
  "main_program e libs =
     tri (LoadEnv e)
       (\<lambda>_. tri (fatal ''Failed to connect to docker'' (GetConnection e))
       (\<lambda>_. tri (open_queues e (Amqp libs))
          (\<lambda>mqType. tri (GetNewDBConnection e (main_pg e))
             (\<lambda>_. tri (fatal ''Cannot connect to the wireguard server.'' (ConnectToWireguard e))
                (\<lambda>_. tri (fatal ''Failed to connect to pg backend service'' (ConnectToPGServiceBackend e (service_pg e)))
                   (\<lambda>_. tri (handle (ConnectToLXD e) (\<lambda>er. crash (error_text er)) ret)
                      (\<lambda>_. let app = main_application libs mqType
                         in tri (prepare_host e app) (\<lambda>_. ret app))))))))"

section \<open>The pool of channels through the start\<close>

text \<open>\<open>leaves a m b\<close>: from a pool of \<open>a\<close> channels, \<open>m\<close> comes back with a value only with \<open>b\<close> in the pool.\<close>

definition leaves :: "nat \<Rightarrow> ('x, 'a) act \<Rightarrow> nat \<Rightarrow> bool" where
  "leaves a m b \<longleftrightarrow> (\<forall>w r w'. length (pool w) = a \<longrightarrow> m w = (Ok r, w') \<longrightarrow> length (pool w') = b)"

named_theorems leaves_intros \<open>rules that follow the pool through the combinators\<close>

lemma leavesD: "leaves a m b \<Longrightarrow> length (pool w) = a \<Longrightarrow> m w = (Ok r, w') \<Longrightarrow> length (pool w') = b"
  by (simp add: leaves_def)

lemma leaves_tri:
  assumes "leaves a m b" and "\<And>x. leaves b (k x) c"
  shows "leaves a (tri m k) c"
  unfolding leaves_def
proof (intro allI impI)
  fix w r w' assume w: "length (pool w) = a" and run: "tri m k w = (Ok r, w')"
  from run obtain x w1 where 1: "m w = (Ok x, w1)" "k x w1 = (Ok r, w')" by (rule tri_OkE)
  from leavesD [OF assms(1) w 1(1)] leavesD [OF assms(2) _ 1(2)] show "length (pool w') = c" by blast
qed

lemma leaves_handle:
  assumes "\<And>c. leaves a m b" and "\<And>e w r w'. h e w = (Ok r, w') \<Longrightarrow> False" and "\<And>x. leaves b (k x) c"
  shows "leaves a (handle m h k) c"
  unfolding leaves_def
proof (intro allI impI)
  fix w r w' assume w: "length (pool w) = a" and run: "handle m h k w = (Ok r, w')"
  then obtain x w1 where 1: "m w = (Ok x, w1)" "k x w1 = (Ok r, w')"
    using assms(2) by (auto simp: handle_def split: prod.splits res.splits)
  from leavesD [OF assms(1) w 1(1)] leavesD [OF assms(3) _ 1(2)] show "length (pool w') = c" by blast
qed

lemma leaves_fatal [leaves_intros]: "leaves a m b \<Longrightarrow> leaves a (fatal msg m) b"
  unfolding fatal_def by (rule leaves_handle) (auto simp: crash_def leaves_def ret_def)

lemma leaves_ret [leaves_intros]: "leaves a (ret x) a"
  by (simp add: leaves_def ret_def)

lemma leaves_keeps: "(\<And>n. keeps (\<lambda>w. length (pool w) = n) m) \<Longrightarrow> leaves a m a"
  using keepsD [of "\<lambda>w. length (pool w) = a" m] by (fastforce simp: leaves_def)

lemma pool_aside [keeps_intros]:
  "keeps (\<lambda>w. length (pool w) = n) (on_disk c)" "keeps (\<lambda>w. length (pool w) = n) (extern e)"
  by (auto simp: keeps_def act_eqs split: prod.split)

lemma leaves_extern [leaves_intros]: "leaves n (extern m) n"
  by (rule leaves_keeps) (rule keeps_intros)+

lemma leaves_channel:
  assumes "\<And>c. leaves (n - 1) (k c) m"
  shows "leaves n (with_channel a k) m"
  unfolding with_channel_def
proof (rule leaves_tri)
  have "length (pool w') = length (pool w) - 1" if "GetFreeChannel a w = (Ok r, w')" for w r w'
    using that
    by (auto simp: GetFreeChannel_def handle_def extern_eq ret_def split: list.splits if_splits prod.splits res.splits)
  then show "leaves n (GetFreeChannel a) (n - 1)" by (auto simp: leaves_def)
  show "leaves (n - 1) (case ch of None \<Rightarrow> crash ''nil pointer dereference'' | Some c \<Rightarrow> k c) m" for ch
    using assms by (cases ch) (simp_all add: leaves_def crash_def)
qed

lemma leaves_push: "n < cap \<Longrightarrow> leaves n (PushChannel a cap ch) (Suc n)"
  by (auto simp: leaves_def PushChannel_def tri_eq get_field_def set_field_def)

lemma leaves_declare:
  assumes "n < cap"
  shows "leaves n (CreateQueueInstance a cap ch q r) (Suc n)" "leaves n (CreateRetryQueue a cap ch q r) (Suc n)"
  unfolding CreateQueueInstance_def CreateRetryQueue_def
  by (rule leaves_handle [OF leaves_extern],
      fastforce simp: tri_eq fail_def split: prod.splits res.splits,
      rule leaves_tri [OF leaves_push [OF assms] leaves_ret])+

lemma leaves_pool: "leaves m (CreateChannelPool a n pc) (m + n)"
proof (induction n arbitrary: m)
  case 0
  then show ?case by (simp add: leaves_ret)
next
  case (Suc n)
  have "leaves m (logged (extern (Qos a ch pc))) m" for ch by (rule leaves_keeps) (intro keeps_intros)
  moreover have "leaves m (set_field (\<lambda>w. w\<lparr>pool := pool w @ [ch]\<rparr>)) (Suc m)" for ch
    by (auto simp: leaves_def set_field_def)
  moreover have "leaves (Suc m) (CreateChannelPool a n pc) (m + Suc n)" using Suc.IH [of "Suc m"] by simp
  ultimately show ?case
    by (simp del: add_Suc_right)
      (rule leaves_handle [OF leaves_extern]; (simp add: crash_def)?; intro leaves_tri; assumption)
qed

lemma leaves_open_queue:
  assumes "n < cap"
  shows "leaves (Suc n) (open_queue a cap q r) n"
proof -
  have main: "leaves (Suc n) (fatal msg (with_channel a (\<lambda>ch. CreateQueueInstance a cap ch q r))) (Suc n)" for msg
    by (intro leaves_fatal leaves_channel) (simp add: leaves_declare assms)
  have retry: "leaves (Suc n) (fatal msg (with_channel a (\<lambda>ch. CreateRetryQueue a cap ch r q))) (Suc n)" for msg
    by (intro leaves_fatal leaves_channel) (simp add: leaves_declare assms)
  have consumer: "leaves (Suc n) (fatal msg (with_channel a (\<lambda>ch. CreateConsumer a ch x))) n" for msg x
    by (intro leaves_fatal leaves_channel) (simp add: CreateConsumer_def leaves_extern)
  show ?thesis
    unfolding open_queue_def by (intro leaves_tri [OF main] leaves_tri [OF retry] leaves_tri [OF consumer] leaves_ret)
qed

lemma dial_pool: "leaves n (dial_loop a url k er) n"
proof (rule leaves_keeps)
  show "keeps (\<lambda>w. length (pool w) = n) (dial_loop a url k er)" for n :: nat
    by (induction k arbitrary: er) (auto intro!: keeps_intros split: option.split)
qed

lemma leaves_open_queues: "leaves 0 (open_queues e a) 30"
proof -
  have con: "leaves 0 (fatal msg (ConnectToMq a m)) 0" for msg m
    unfolding ConnectToMq_def by (intro leaves_fatal dial_pool)
  have pool: "leaves 0 (CreateChannelPool a 32 3) 32" using leaves_pool [of 0 a 32 3] by simp
  have one: "leaves 32 (open_queue a 32 q r) 31" "leaves 31 (open_queue a 32 q r) 30" for q r
    using leaves_open_queue [of 31 32 a q r] leaves_open_queue [of 30 32 a q r] by simp_all
  show ?thesis
    unfolding open_queues_def
    by (intro leaves_tri [OF con] leaves_tri [OF pool] leaves_tri [OF one(1)] leaves_tri [OF one(2)] leaves_ret)
qed

lemma connections_pool:
  "leaves n (GetNewDBConnection e p) n" "leaves n (GetConnection e) n" "leaves n (ConnectToPGServiceBackend e p) n"
  "leaves n (ConnectToWireguard e) n" "leaves n (ConnectToLXD e) n" "leaves n (prepare_host e app) n"
  unfolding GetNewDBConnection_def GetConnection_def ConnectToPGServiceBackend_def ConnectToWireguard_def ConnectToLXD_def
    prepare_host_def PullUbuntuImage_def AliasExists_def CreateBridgeNetwork_def CreateDirStoragePool_def
    CreateInterfaceWgMain_def interfaceExists_def ConfigureWireguard_def SetForwardBitToOne_def fatal_def
  by (rule leaves_keeps, intro keeps_intros)+

lemma open_queues_value: "open_queues e a w = (Ok q, w') \<Longrightarrow> \<exists>i t. q = \<lparr>InstanceQueue = Some i, TunnelQueue = Some t\<rparr>"
  unfolding open_queues_def by (auto elim!: tri_OkE simp: ret_def)

lemma main_run:
  assumes "main_program e libs w = (Ok app, w')" and "length (pool w) = 0"
  shows "length (pool w') = 30 \<and> (\<exists>q. app = main_application libs q \<and> InstanceQueue q \<noteq> None \<and> TunnelQueue q \<noteq> None)"
proof -
  have fatal_leaves: "leaves n m n \<Longrightarrow> leaves n (fatal msg m) n" for n msg and m :: "('a, 'b) act" by (rule leaves_fatal)
  from assms(1) obtain w0 w1 w2 w3 w4 w5 w6 q where
    r0: "LoadEnv e w = (Ok (), w0)" and
    r: "fatal ''Failed to connect to docker'' (GetConnection e) w0 = (Ok (), w1)" "open_queues e (Amqp libs) w1 = (Ok q, w2)"
      "GetNewDBConnection e (main_pg e) w2 = (Ok (), w3)"
      "fatal ''Cannot connect to the wireguard server.'' (ConnectToWireguard e) w3 = (Ok (), w4)"
      "fatal ''Failed to connect to pg backend service'' (ConnectToPGServiceBackend e (service_pg e)) w4 = (Ok (), w5)"
      "handle (ConnectToLXD e) (\<lambda>er. crash (error_text er)) ret w5 = (Ok (), w6)"
      "prepare_host e (main_application libs q) w6 = (Ok (), w')" "app = main_application libs q"
    unfolding main_program_def Let_def by (auto elim!: tri_OkE simp: ret_def)
  have lxd: "leaves 30 (handle (ConnectToLXD e) (\<lambda>er. crash (error_text er)) ret) 30"
    by (rule leaves_handle [OF connections_pool(5)]) (auto simp: crash_def leaves_ret)
  have "leaves 0 (LoadEnv e) 0" unfolding LoadEnv_def by (rule leaves_keeps) (intro keeps_intros)
  note p0 = leavesD [OF this assms(2) r0]
  note p1 = leavesD [OF leaves_fatal [OF connections_pool(2)] p0 r(1)]
  note p2 = leavesD [OF leaves_open_queues p1 r(2)]
  note p3 = leavesD [OF connections_pool(1) p2 r(3)]
  note p4 = leavesD [OF leaves_fatal [OF connections_pool(4)] p3 r(4)]
  note p5 = leavesD [OF leaves_fatal [OF connections_pool(3)] p4 r(5)]
  note p6 = leavesD [OF lxd p5 r(6)]
  note p7 = leavesD [OF connections_pool(6) p6 r(7)]
  with r(8) open_queues_value [OF r(2)] show ?thesis by auto
qed

section \<open>Thirty requests\<close>

lemma stop_request_loses_channel:
  assumes "\<And>m. \<exists>body. Encode (Amqp app) (InstanceMessage m) = Inr body" and "\<And>x c. \<not> IsClosed (Amqp app) x c"
    and "is_authorized (fst s)"
  shows "pool (run_event app (Request s (Stop_instance now)) w) = tl (pool w)"
proof -
  let ?a = "Amqp app"
  have "\<not> form_rejected STOP [] []" by (simp add: form_rejected_def)
  from request_loses_channel [OF assms(1,2) this, where w = "w\<lparr>session := s\<rparr>"] assms(3) show ?thesis
    by (simp add: NewRouter_def IsAuthorized_def status_only_def StopInstance_handler_def tri_eq get_field_def split: list.split)
qed

text \<open>C17: \<open>main\<close> opens 32 channels, keeps one for each of its two consumers and leaves 30 in the pool. Since the storage it
  builds has no queues, each request to stop an instance (deployments and deletions alike) panics with a channel in
  hand: after 30 of them, from however few users, every publication waits for ever, those of the tunnels included,
  until the process is started again.\<close>

theorem thirty_requests_block_publication:
  assumes "main_program e libs w = (Ok app, w')" and "pool w = []"
    and "\<And>m. \<exists>body. Encode (Amqp libs) m = Inr body" and "\<And>x c. \<not> IsClosed (Amqp libs) x c"
    and "list_all (\<lambda>(s, now). is_authorized (fst s)) rs" and "30 \<le> length rs"
  shows "fst (PushMessageInstance (Amqp app) (Size app) (Mq_queues app) msg
      (fold (run_event app) (map (\<lambda>(s, now). Request s (Stop_instance now)) rs) w')) = Crash ''waits for a channel''"
proof -
  from main_run [OF assms(1)] assms(2) obtain q where w': "length (pool w') = 30" and app: "app = main_application libs q"
    by auto
  then have amqp: "Amqp app = Amqp libs" by (simp add: main_application_def)
  have drain: "length (pool (fold (run_event app) (map (\<lambda>(s, now). Request s (Stop_instance now)) ss) v)) =
      length (pool v) - length ss" if "list_all (\<lambda>(s, now). is_authorized (fst s)) ss" for ss v
    using that
  proof (induction ss arbitrary: v)
    case (Cons x ss)
    obtain s now where x: "x = (s, now)" by (cases x)
    with Cons stop_request_loses_channel [of app s now v] amqp assms(3,4) show ?case by (simp del: run_event.simps)
  qed simp
  let ?v = "fold (run_event app) (map (\<lambda>(s, now). Request s (Stop_instance now)) rs) w'"
  have "pool ?v = []" using drain [OF assms(5), of w'] w' assms(6) by simp
  moreover obtain body where "Encode (Amqp app) msg = Inr body" using assms(3) amqp by auto
  ultimately show ?thesis using push_waits [of "Amqp app" msg body ?v "Size app" "Mq_queues app"] by simp
qed

definition idle_machine :: "unit machine" where
  "idle_machine =
     \<lparr>LoadDotenv = (\<lambda>p. ret ()), getenv = (\<lambda>n. n), NewDockerClient = ret (), Ping = ret (), ParsePgConfig = (\<lambda>u. Inr ()), NewPgPool = (\<lambda>u. ret ()),
      NewWgctrl = ret (), PgxConnect = (\<lambda>u. ret ()), ConnectLXDUnix = (\<lambda>p. ret ()),
      Links = \<lparr>LinkList = ret [INTERFACE_NAME], LinkAdd = (\<lambda>n t. ret ()), ParseAddr = Inr, AddrAdd = (\<lambda>n a. ret ()),
        LinkSetUp = (\<lambda>n. ret ())\<rparr>, DialAndSend = (\<lambda>h b p. ret ())\<rparr>"

definition thirty_stops :: "(session server \<times> int) list" where
  "thirty_stops = map (\<lambda>i. (session_of 1, int i)) [0..<30]"

lemma idle_pool: "CreateChannelPool sample_amqp n k w = (Ok (), w\<lparr>pool := pool w @ replicate n 0\<rparr>)"
  by (induction n arbitrary: w)
    (simp_all add: sample_amqp_def handle_def logged_def tri_eq extern_eq set_field_def ret_def replicate_app_Cons_same)

lemma idle_queue:
  assumes "pool w = replicate (Suc n) 0" and "n < cap"
  shows "open_queue sample_amqp cap q r w = (Ok q, w\<lparr>pool := replicate n 0\<rparr>)"
  using assms
  by (simp add: open_queue_def fatal_def with_channel_def GetFreeChannel_def CreateQueueInstance_def CreateRetryQueue_def
      CreateConsumer_def PushChannel_def sample_amqp_def handle_def tri_eq extern_eq get_field_def set_field_def ret_def
      replicate_append_same)

lemma idle_queues:
  assumes "pool w = []"
  shows "open_queues e sample_amqp w = (Ok main_queues, w\<lparr>pool := replicate 30 0\<rparr>)"
proof -
  have "ConnectToMq sample_amqp m v = (Ok (Some ()), v)" for m v
    by (simp add: ConnectToMq_def eval_nat_numeral sample_amqp_def handle_def extern_eq ret_def)
  with assms idle_queue [of "w\<lparr>pool := replicate 32 0\<rparr>" 31 32 MAIN_INSTANCE_QUEUE INSTANCE_RETRY_QUEUE]
    idle_queue [of "w\<lparr>pool := replicate 31 0\<rparr>" 30 32 MAIN_TUNNEL_QUEUE TUNNEL_RETRY_QUEUE]
  show ?thesis by (simp add: open_queues_def fatal_def tri_eq handle_def ret_def idle_pool main_queues_def)
qed

lemmas connection_defs = GetConnection_def GetNewDBConnection_def ConnectToWireguard_def ConnectToPGServiceBackend_def
  ConnectToLXD_def

lemmas host_defs = PullUbuntuImage_def AliasExists_def CreateBridgeNetwork_def CreateDirStoragePool_def
  CreateInterfaceWgMain_def interfaceExists_def ConfigureWireguard_def SetForwardBitToOne_def

lemma extern_idle [simp]: "extern (ret x) w = (Ok x, w)"
  by (simp add: extern_eq ret_def)

lemma idle_connections:
  "fatal msg (GetConnection idle_machine) w = (Ok (), w)" "GetNewDBConnection idle_machine p w = (Ok (), w)"
  "fatal msg (ConnectToWireguard idle_machine) w = (Ok (), w)"
  "fatal msg (ConnectToPGServiceBackend idle_machine p) w = (Ok (), w)"
  "handle (ConnectToLXD idle_machine) h ret w = (Ok (), w)" "LoadEnv idle_machine w = (Ok (), w)"
  by (simp_all add: LoadEnv_def logged_def connection_defs idle_machine_def fatal_def handle_def tri_eq ret_def)

lemma idle_host:
  assumes "disk w = (fs, [])"
  shows "prepare_host idle_machine (main_application idle_app q) w =
    (Ok (), w\<lparr>disk := (fs(''/proc/sys/net/ipv4/ip_forward'' \<mapsto> ''1''), [])\<rparr>)"
  using assms
  by (simp add: prepare_host_def host_defs idle_machine_def main_application_def idle_app_def fatal_def handle_def tri_eq
      ret_def fail_def on_disk_eq os_write_def)

lemma idle_main:
  assumes "pool w = []" and "snd (disk w) = []"
  shows "\<exists>w'. main_program idle_machine idle_app w = (Ok (main_application idle_app main_queues), w')"
proof -
  obtain fs where "disk w = (fs, [])" using assms(2) by (cases "disk w") simp
  then have d: "disk (w\<lparr>pool := replicate 30 0\<rparr>) = (fs, [])" by simp
  have q: "open_queues idle_machine (Amqp idle_app) w = (Ok main_queues, w\<lparr>pool := replicate 30 0\<rparr>)"
    using idle_queues [OF assms(1)] by (simp add: idle_app_def)
  show ?thesis
    by (simp add: main_program_def Let_def tri_eq q idle_connections idle_host [OF d] ret_def)
qed

theorem thirty_requests_block_publication_witness:
  "\<exists>app w'. main_program idle_machine idle_app (quiet_world empty_tables Map.empty) = (Ok app, w') \<and>
    fst (PushMessageInstance (Amqp app) (Size app) (Mq_queues app) a_tunnel
      (fold (run_event app) (map (\<lambda>(s, now). Request s (Stop_instance now)) thirty_stops) w')) = Crash ''waits for a channel''"
proof -
  let ?r = "main_program idle_machine idle_app (quiet_world empty_tables Map.empty)"
  have "pool (quiet_world empty_tables Map.empty) = []" "snd (disk (quiet_world empty_tables Map.empty)) = []"
    by (simp_all add: quiet_world_def)
  then obtain app w' where r: "?r = (Ok app, w')" using idle_main by blast
  have "list_all (\<lambda>(s, now). is_authorized (fst s)) thirty_stops" "30 \<le> length thirty_stops"
    by (simp_all add: thirty_stops_def session_of_def list_all_iff)
  then have "fst (PushMessageInstance (Amqp app) (Size app) (Mq_queues app) a_tunnel
      (fold (run_event app) (map (\<lambda>(s, now). Request s (Stop_instance now)) thirty_stops) w')) = Crash ''waits for a channel''"
    by (intro thirty_requests_block_publication [OF r]) (simp_all add: quiet_world_def idle_app_def sample_amqp_def)
  with r show ?thesis by blast
qed

end
