(* ===== verification/Limits.thy ===== *)
theory Limits
  imports Events
begin

text \<open>
  The limits of the program: the constraints of the tables, the number of devices, of published names, of service users
  and of their databases. Every method of the stores keeps them, so every event does.
\<close>

section \<open>What the methods leave alone\<close>

text \<open>The parts of the tables that limits speak of, and what is left of them without one.\<close>

definition limited :: "tables \<Rightarrow> wg_row list \<times> domain_row list \<times> pgu_row list \<times> pgd_row list" where
  "limited t = (wgpeers t, domains t, pg_users t, pg_dbs t)"

definition but_devices :: "tables \<Rightarrow> domain_row list \<times> pgu_row list \<times> pgd_row list" where
  "but_devices t = (domains t, pg_users t, pg_dbs t)"

definition but_domains :: "tables \<Rightarrow> wg_row list \<times> pgu_row list \<times> pgd_row list" where
  "but_domains t = (wgpeers t, pg_users t, pg_dbs t)"

definition but_record :: "tables \<Rightarrow> wg_row list \<times> domain_row list" where
  "but_record t = (wgpeers t, domains t)"

lemmas part_defs = limited_def but_devices_def but_domains_def but_record_def

lemmas frame_simps = part_defs sql_defs sql_read_def Let_def

lemma instance_frames:
  "keeps (holds (\<lambda>t. limited t = x)) (CreateInstance_store uid n u p)"
  "keeps (holds (\<lambda>t. limited t = x)) (StartInstance uid)"
  "keeps (holds (\<lambda>t. limited t = x)) (RemoveInstance uid)"
  "keeps (holds (\<lambda>t. limited t = x)) (StopInstance_store uid)"
  "keeps (holds (\<lambda>t. limited t = x)) (Exists_store uid)"
  "keeps (holds (\<lambda>t. limited t = x)) (GetData uid)"
  "keeps (holds (\<lambda>t. limited t = x)) (AddIP uid ip)"
  "keeps (holds (\<lambda>t. limited t = x)) (RemoveIP uid)"
  "keeps (holds (\<lambda>t. limited t = x)) (AllocateNextFreeIP_lxc m uid)"
  "keeps (holds (\<lambda>t. limited t = x)) (GetIPFromUID uid)"
  unfolding instance_store_defs Let_def
  by (intro keeps_intros keeps_serve tx_frame; simp add: frame_simps split: list.split)+

lemma auth_frames:
  "keeps (holds (\<lambda>t. limited t = x)) (CreateUser_store h a b c d e)"
  "keeps (holds (\<lambda>t. limited t = x)) (VerifyUser_store email)"
  "keeps (holds (\<lambda>t. limited t = x)) (LoginUser_store mt u p)"
  "keeps (holds (\<lambda>t. limited t = x)) (CreateTunnel_store tn)"
  "keeps (holds (\<lambda>t. limited t = x)) (DestroyTunnel_store tn)"
  "keeps (holds (\<lambda>t. limited t = x)) (GetDomainFromTunnel tn)"
  unfolding CreateUser_store_def VerifyUser_store_def LoginUser_store_def domain_store_defs
  by (intro keeps_intros keeps_serve; simp add: frame_simps split: option.split)+

lemma wg_frames:
  "keeps (holds (\<lambda>t. but_devices t = x)) (GetDevices uid)"
  "keeps (holds (\<lambda>t. but_devices t = x)) (AddPeer_store uid wg)"
  "keeps (holds (\<lambda>t. but_devices t = x)) (RemovePeer_store key uid)"
  "keeps (holds (\<lambda>t. but_devices t = x)) (AllocateNextFreeIP_wg m uid wg)"
  unfolding wg_store_defs
  by (intro keeps_intros keeps_serve tx_frame; simp add: frame_simps split: list.split)+

lemma domain_frames:
  "keeps (holds (\<lambda>t. but_domains t = x)) (AddDomain d)" "keeps (holds (\<lambda>t. but_domains t = x)) (RemoveDomain d)"
  "keeps (holds (\<lambda>t. but_domains t = x)) (GetUserDomains d)" "keeps (holds (\<lambda>t. but_domains t = x)) (AddUserDomain_store d)"
  "keeps (holds (\<lambda>t. but_domains t = x)) (RemoveUserDomain_store d)" "keeps (holds (\<lambda>t. but_domains t = x)) (DeleteUserDomains d)"
  unfolding domain_store_defs
  by (intro keeps_intros keeps_serve; simp add: frame_simps)+

lemma pg_frames:
  "keeps (holds (\<lambda>t. but_record t = x)) (AddUser_pg u)" "keeps (holds (\<lambda>t. but_record t = x)) (AddDatabase u d)"
  "keeps (holds (\<lambda>t. but_record t = x)) (RemoveDatabase u d)" "keeps (holds (\<lambda>t. but_record t = x)) (RemoveUser_pg u)"
  "keeps (holds (\<lambda>t. but_record t = x)) (GetUserDatabases uid n p)" "keeps (holds (\<lambda>t. but_record t = x)) (GetUsers uid)"
  "keeps (holds (\<lambda>t. but_record t = x)) (GetDatabases pid uid)" "keeps (holds (\<lambda>t. but_record t = x)) (GetPassword pid)"
  unfolding pg_store_defs
  by (intro keeps_intros keeps_serve; simp add: frame_simps)+

section \<open>The limits of the program\<close>

definition program_ok :: "tables \<Rightarrow> bool" where
  "program_ok t \<longleftrightarrow> schema_ok t \<and> within_device_limit t \<and> domain_limit t \<and> pg_quota t"

lemma keeps_program:
  assumes "keeps (holds schema_ok) m" and "keeps (holds within_device_limit) m" and "keeps (holds domain_limit) m"
    and "keeps (holds pg_quota) m"
  shows "keeps (holds program_ok) m"
  using assms by (simp add: keeps_def holds_def program_ok_def)

text \<open>Each limit speaks of one part.\<close>

lemma limits_of_parts:
  "limited t = limited t' \<Longrightarrow> within_device_limit t \<Longrightarrow> within_device_limit t'"
  "limited t = limited t' \<Longrightarrow> domain_limit t \<Longrightarrow> domain_limit t'"
  "limited t = limited t' \<Longrightarrow> pg_quota t \<Longrightarrow> pg_quota t'"
  "but_devices t = but_devices t' \<Longrightarrow> domain_limit t \<Longrightarrow> domain_limit t'"
  "but_devices t = but_devices t' \<Longrightarrow> pg_quota t \<Longrightarrow> pg_quota t'"
  "but_domains t = but_domains t' \<Longrightarrow> within_device_limit t \<Longrightarrow> within_device_limit t'"
  "but_domains t = but_domains t' \<Longrightarrow> pg_quota t \<Longrightarrow> pg_quota t'"
  "but_record t = but_record t' \<Longrightarrow> within_device_limit t \<Longrightarrow> within_device_limit t'"
  "but_record t = but_record t' \<Longrightarrow> domain_limit t \<Longrightarrow> domain_limit t'"
  by (simp_all add: part_defs within_device_limit_def devices_def domain_limit_def own_domains_def pg_quota_def)

lemma limited_program:
  assumes "keeps (holds schema_ok) m" and "\<And>x. keeps (holds (\<lambda>t. limited t = x)) m"
  shows "keeps (holds program_ok) m"
  by (rule keeps_program [OF assms(1)]) (rule keeps_part [OF assms(2)], erule (1) limits_of_parts)+



named_theorems program_keeps \<open>every method keeps the limits\<close>

lemma instance_program [program_keeps]:
  "keeps (holds program_ok) (CreateInstance_store uid n u p)"
  "keeps (holds program_ok) (StartInstance uid)"
  "keeps (holds program_ok) (RemoveInstance uid)"
  "keeps (holds program_ok) (StopInstance_store uid)"
  "keeps (holds program_ok) (Exists_store uid)"
  "keeps (holds program_ok) (GetData uid)"
  "keeps (holds program_ok) (AddIP uid ip)"
  "keeps (holds program_ok) (RemoveIP uid)"
  "keeps (holds program_ok) (AllocateNextFreeIP_lxc m uid)"
  "keeps (holds program_ok) (GetIPFromUID uid)"
  by (rule limited_program, rule instance_store_schema, rule instance_frames)+

lemma account_program [program_keeps]:
  "keeps (holds program_ok) (CreateUser_store h a b c d e)"
  "keeps (holds program_ok) (VerifyUser_store email)"
  "keeps (holds program_ok) (LoginUser_store mt u p)"
  "keeps (holds program_ok) (CreateTunnel_store tn)"
  "keeps (holds program_ok) (DestroyTunnel_store tn)"
  "keeps (holds program_ok) (GetDomainFromTunnel tn)"
  by (rule limited_program, (rule auth_store_schema domain_store_schema), rule auth_frames)+

lemma device_program [program_keeps]:
  "keeps (holds program_ok) (GetDevices uid)"
  "keeps (holds program_ok) (AddPeer_store uid wg)"
  "keeps (holds program_ok) (RemovePeer_store key uid)"
  "keeps (holds program_ok) (AllocateNextFreeIP_wg m uid wg)"
  by (rule keeps_program, rule wg_store_schema,
      rule AddPeer_limit RemovePeer_store_limit AllocateNextFreeIP_limit read_only_limit,
      (rule keeps_part [OF wg_frames(1)] keeps_part [OF wg_frames(2)] keeps_part [OF wg_frames(3)]
         keeps_part [OF wg_frames(4)], erule (1) limits_of_parts)+)+

lemma reads_keep:
  "keeps (holds I) (GetUserDomains d)" "keeps (holds I) (GetUserDatabases uid n p)" "keeps (holds I) (GetUsers uid)"
  "keeps (holds I) (GetDatabases pid uid)" "keeps (holds I) (GetPassword pid)"
  unfolding GetUserDomains_def GetUserDatabases_def GetUsers_def GetDatabases_def GetPassword_def
  by (intro keeps_intros keeps_serve; simp add: sql_read_def)+

lemma domain_program [program_keeps]:
  "keeps (holds program_ok) (AddDomain d)" "keeps (holds program_ok) (RemoveDomain d)"
  "keeps (holds program_ok) (AddUserDomain_store d)"
  "keeps (holds program_ok) (RemoveUserDomain_store d)" "keeps (holds program_ok) (DeleteUserDomains d)"
  by (rule keeps_program, rule domain_store_schema,
      rule keeps_part [where f = but_domains], rule domain_frames, erule (1) limits_of_parts,
      rule domain_store_limit AddUserDomain_limit,
      rule keeps_part [where f = but_domains], rule domain_frames, erule (1) limits_of_parts)+

lemma pg_program [program_keeps]:
  "keeps (holds program_ok) (AddUser_pg u)" "keeps (holds program_ok) (AddDatabase u d)"
  "keeps (holds program_ok) (RemoveDatabase u d)" "keeps (holds program_ok) (RemoveUser_pg u)"
  by (rule keeps_program, rule pg_store_schema,
      rule keeps_part [where f = but_record], rule pg_frames, erule (1) limits_of_parts,
      rule keeps_part [where f = but_record], rule pg_frames, erule (1) limits_of_parts,
      rule AddUser_quota AddDatabase_quota removals_quota)+

lemmas [program_keeps] = reads_keep

section \<open>Events\<close>

definition sound :: "'x world \<Rightarrow> bool" where
  "sound w \<longleftrightarrow> holds program_ok (pg w)"

lemma sound_pg: "keeps (holds program_ok) m \<Longrightarrow> keeps sound (on_pg m)"
  unfolding sound_def by (rule keeps_pg)

lemma sound_redis: "keeps sound (on_redis m)"
  unfolding sound_def by (rule keeps_redis_other)

lemma sound_addresses:
  "keeps sound (AllocateFreeIp al uid key)" "keeps sound (AllocateFreeLXCIp al uid)"
  "keeps sound (DeAllocateIP key uid)" "keeps sound (DeAllocateLXCIP uid)"
  unfolding AllocateFreeIp_def AllocateFreeLXCIp_def DeAllocateIP_def DeAllocateLXCIP_def
  by (intro keeps_intros sound_pg sound_redis program_keeps)+

lemma sound_tunnel_login: "keeps sound (LoginTunnelUser mt bytes u p)"
  unfolding LoginTunnelUser_def Let_def by (intro keeps_intros sound_pg sound_redis program_keeps)

interpretation limits: event_invariant sound app "\<lambda>rq. True" for app
  by unfold_locales
    (rule sound_pg program_keeps sound_redis sound_addresses sound_tunnel_login | assumption | simp add: sound_def holds_def)+

text \<open>C1: whatever requests come from whichever sessions and whatever messages the queues deliver, one
  after the other, with any failures of the servers and the systems outside: the tables stay within their
  schema, with no two devices on one address, no account above the device limit, no account above the
  limit of published names and none above the limits of the Postgres service.\<close>

theorem events_keep_limits:
  assumes "program_ok (fst (pg w))"
  shows "let t = fst (pg (fold (run_event app) es w))
         in schema_ok t \<and> distinct (map wg_ip (wgpeers t)) \<and>
            (\<forall>uid. int (length (devices uid t)) \<le> MAX_WG_DEVICES_PER_USER \<and>
               int (length (own_domains uid t)) \<le> USER_DOMAIN_LIMIT) \<and>
            pg_quota t"
proof -
  have "sound (fold (run_event app) es w)" by (rule limits.events_keep) (use assms in \<open>simp_all add: sound_def holds_def\<close>)
  then have "program_ok (fst (pg (fold (run_event app) es w)))" by (simp add: sound_def holds_def)
  then show ?thesis
    by (simp add: program_ok_def schema_ok_def wgpeers_ok_def within_device_limit_def domain_limit_def Let_def)
qed

theorem events_keep_limits_witness:
  "let t = fst (pg (fold (run_event idle_app)
       [Request (session_of 1) (Register_device ''k1''), Request (session_of 1) (Add_domain ''shop'' ''80''),
        Request (session_of 2) (Create_pg_user ''u'' ''p''), Deliver_instance (job_of DEPLOY),
        Request (session_of 2) (Remove_device ''k0''), Deliver_tunnel None \<lparr>Tm_Domain = ''d'', Tm_IsCustom = False, Tm_Name = ''t'', Tm_Uid = 1\<rparr>]
       (quiet_world two_users Map.empty)))
   in schema_ok t \<and> distinct (map wg_ip (wgpeers t)) \<and>
      (\<forall>uid. int (length (devices uid t)) \<le> MAX_WG_DEVICES_PER_USER \<and>
         int (length (own_domains uid t)) \<le> USER_DOMAIN_LIMIT) \<and>
      pg_quota t"
proof (rule events_keep_limits)
  have "schema_ok two_users" by code_simp
  then show "program_ok (fst (pg (quiet_world two_users Map.empty)))"
    by (simp add: quiet_world_def program_ok_def within_device_limit_def devices_def domain_limit_def own_domains_def
        pg_quota_def two_users_def empty_tables_def rows_matching_def)
qed

end
