(* ===== verification/Pool_Events.thy ===== *)
theory Pool_Events
  imports Events
begin

text \<open>
  The two pools of addresses under the whole program. Only the calls of the allocator touch the stacks and the two
  columns, with one exception: the link of a verification mail may delete a stack, which loses the addresses on it.
  So every event keeps both pools in order: the numbers on the stacks and in the tables stay pairwise different. That is a
  statement about the record. A container can run with an address that is not in it, which is shown elsewhere.
\<close>

section \<open>What the other calls leave alone\<close>

definition addresses :: "tables \<Rightarrow> wg_row list \<times> ip_row list" where
  "addresses t = (wgpeers t, userips t)"

lemmas address_simps = addresses_def sql_defs sql_read_def Let_def

lemma other_calls_addresses:
  "keeps (holds (\<lambda>t. addresses t = x)) (CreateInstance_store uid n u p)"
  "keeps (holds (\<lambda>t. addresses t = x)) (StartInstance uid)"
  "keeps (holds (\<lambda>t. addresses t = x)) (StopInstance_store uid)"
  "keeps (holds (\<lambda>t. addresses t = x)) (RemoveInstance uid)"
  "keeps (holds (\<lambda>t. addresses t = x)) (CreateUser_store h a b c d e)"
  "keeps (holds (\<lambda>t. addresses t = x)) (VerifyUser_store email)"
  "keeps (holds (\<lambda>t. addresses t = x)) (LoginUser_store mt u p)"
  "keeps (holds (\<lambda>t. addresses t = x)) (CreateTunnel_store tn)"
  "keeps (holds (\<lambda>t. addresses t = x)) (DestroyTunnel_store tn)"
  "keeps (holds (\<lambda>t. addresses t = x)) (AddDomain dm)" "keeps (holds (\<lambda>t. addresses t = x)) (RemoveDomain dm)"
  "keeps (holds (\<lambda>t. addresses t = x)) (AddUserDomain_store dm)"
  "keeps (holds (\<lambda>t. addresses t = x)) (DeleteUserDomains dm)"
  "keeps (holds (\<lambda>t. addresses t = x)) (AddUser_pg pu)" "keeps (holds (\<lambda>t. addresses t = x)) (AddDatabase pu pd)"
  "keeps (holds (\<lambda>t. addresses t = x)) (RemoveDatabase pu pd)"
  "keeps (holds (\<lambda>t. addresses t = x)) (RemoveUser_pg pu)"
  unfolding instance_store_defs CreateUser_store_def VerifyUser_store_def LoginUser_store_def domain_store_defs
    pg_store_defs Let_def
  by (intro keeps_intros keeps_serve; simp add: address_simps split: option.split)+

text \<open>Keys that are not a stack.\<close>

definition stack_key :: "string \<Rightarrow> bool" where
  "stack_key k \<longleftrightarrow> k = STACK_KEY \<or> k = LXC_IP"

lemma hex_not_stack: "is_hex k \<Longrightarrow> \<not> stack_key k"
  by (auto simp: stack_key_def is_hex_def)

lemma box_not_stack: "\<not> stack_key (deploy_key job)" "\<not> stack_key (stop_key job)" "\<not> stack_key (kill_key job)"
  by (simp_all add: stack_key_def deploy_key_def stop_key_def kill_key_def)

lemma stack_frames:
  assumes "stack_key key" and "\<not> stack_key k"
  shows "keeps (stack_is key ips) (serve (r_set k c ttl))" and "keeps (stack_is key ips) (serve (r_del k))"
  using assms by (auto intro!: stack_is_frame simp: r_set_def r_del_def split: option.split)

lemma stack_get: "keeps (stack_is key ips) (serve (r_get k))"
  by (rule stack_is_frame) (simp add: r_get_def split: option.split content.split)

lemma other_calls_stack:
  assumes "stack_key key"
  shows "keeps (stack_is key ips) (PutDeployResult un job pw addr ok cid)"
    and "keeps (stack_is key ips) (GetDeployResult job)"
    and "keeps (stack_is key ips) (PutStopResult ok job)" and "keeps (stack_is key ips) (GetStopResult job)"
    and "keeps (stack_is key ips) (PutKillResult ok job)" and "keeps (stack_is key ips) (GetKillResult job)"
    and "is_hex tk \<Longrightarrow> keeps (stack_is key ips) (SetEmailToken email tk)"
    and "is_hex tk \<Longrightarrow> keeps (stack_is key ips) (SetTunnelLogin tk uid)"
    and "keeps (stack_is key ips) (GetEmailFromToken ct k)"
    and "keeps (stack_is key ips) (GetUidFromTunnelSecret k)"
  unfolding redis_store_defs
  by (intro keeps_intros stack_frames [OF assms] stack_get box_not_stack; erule hex_not_stack)+

section \<open>Both pools\<close>

definition pools_kept :: "IPAllocator \<Rightarrow> 'x stores_scheme \<Rightarrow> bool" where
  "pools_kept al w \<longleftrightarrow> (\<exists>cidr. CreateIpAllocator cidr = Ok al) \<and> pools_ok al w"

lemma pools_kept_by:
  assumes "\<And>cidr. CreateIpAllocator cidr = Ok al \<Longrightarrow> keeps (wg_pool_ok (FindNoOfUsableHosts al)) m"
    and "\<And>cidr. CreateIpAllocator cidr = Ok al \<Longrightarrow> keeps (lxc_pool_ok (FindNoOfUsableHostsDocker al)) m"
  shows "keeps (pools_kept al) m"
  using assms by (auto simp: keeps_def pools_kept_def pools_ok_def)

lemma pools_pg:
  assumes "\<And>x. keeps (holds (\<lambda>t. addresses t = x)) m"
  shows "keeps (pools_kept al) (on_pg m :: ('x stores_scheme, 'b) prog)"
proof (rule keepsI)
  fix w :: "'x stores_scheme" assume "pools_kept al w"
  moreover have "addresses (fst (snd (m (pg w)))) = addresses (fst (pg w))"
    using keepsD [OF assms, of "addresses (fst (pg w))" "pg w"] by (simp add: holds_def)
  ultimately show "pools_kept al (snd (on_pg m w))"
    by (simp add: pools_kept_def pools_ok_def wg_pool_ok_def lxc_pool_ok_def pool_ok_def on_pg_eq addresses_def
        wg_column_def ip_column_def case_prod_beta)
qed

lemma pools_redis:
  assumes "\<And>key ips. stack_key key \<Longrightarrow> keeps (stack_is key ips) m"
  shows "keeps (pools_kept al) (on_redis m)"
proof (rule pools_kept_by)
  have "stack_key STACK_KEY" "stack_key LXC_IP" by (simp_all add: stack_key_def)
  note k = this [THEN assms]
  show "keeps (wg_pool_ok (FindNoOfUsableHosts al)) (on_redis m)"
    "keeps (lxc_pool_ok (FindNoOfUsableHostsDocker al)) (on_redis m)"
    unfolding wg_pool_ok_def lxc_pool_ok_def
    by (intro pool_ok_frame keeps_conj keeps_redis keeps_redis_other k)+
qed

text \<open>The one call that may take a stack away.\<close>

lemma stack_deleted:
  assumes "stack_ok key s" and "DeleteEmailToken k s = (r, s')"
  shows "stack_ok key s' \<and> (free_ips key s' = free_ips key s \<or> free_ips key s' = [])"
proof -
  obtain ks as where s: "s = (ks, as)" by (cases s)
  obtain q ks1 as1 where d: "serve (r_del k) (ks, as) = (q, (ks1, as1))" by (metis prod.exhaust)
  have "s' = (ks1, as1)" using assms(2) d s by (cases q) (auto simp: DeleteEmailToken_def prog_defs split: if_splits)
  moreover have "ks1 key = ks key \<or> ks1 key = None"
    using serve_state [of "r_del k" "(ks, as)"] d by (auto simp: r_del_def split: option.splits if_splits)
  moreover have "list_all honest_answer as1" using serve_honest [OF d] assms(1) s by (simp add: stack_ok_def)
  ultimately show ?thesis using assms(1) s by (auto simp: stack_ok_def free_ips_def)
qed

lemma pools_delete: "keeps (pools_kept al) (on_redis (DeleteEmailToken k))"
proof (rule keepsI)
  fix w :: "'a stores_scheme" assume ok: "pools_kept al w"
  obtain r s' where d: "DeleteEmailToken k (redis w) = (r, s')" by (metis prod.exhaust)
  have sub: "pool_col m (free_ips key s' @ taken)"
    if "pool_col m (free_ips key (redis w) @ taken)" "stack_ok key (redis w)" for m key taken
    using stack_deleted [OF that(2) d] that(1) by (auto simp: pool_col_def)
  show "pools_kept al (snd (on_redis (DeleteEmailToken k) w))"
    using ok stack_deleted [OF _ d] sub
    by (simp add: pools_kept_def pools_ok_def wg_pool_ok_def lxc_pool_ok_def pool_ok_def on_redis_eq d)
qed

lemma pools_run: "(\<And>w. snd (m w) = run_alloc al c w) \<Longrightarrow> keeps (pools_kept al) m"
  using run_alloc_pools by (auto simp: keeps_def pools_kept_def)

lemma pools_addresses:
  "keeps (pools_kept al) (AllocateFreeIp al uid key)" "keeps (pools_kept al) (AllocateFreeLXCIp al uid)"
  "keeps (pools_kept al) (DeAllocateIP key uid)" "keeps (pools_kept al) (DeAllocateLXCIP uid)"
  by (rule pools_run [of _ _ "TakeWg uid key"] pools_run [of _ _ "TakeLxc uid"] pools_run [of _ _ "GiveWg key uid"]
      pools_run [of _ _ "GiveLxc uid"], simp)+

lemma pools_tunnel_login: "keeps (pools_kept al) (LoginTunnelUser mt bytes u p)"
  unfolding LoginTunnelUser_def Let_def
  by (intro keeps_intros pools_pg pools_redis other_calls_addresses other_calls_stack is_hex_text)

lemma pools_frame:
  "pools_kept al w \<Longrightarrow> fst (pg w') = fst (pg w) \<Longrightarrow> redis w' = redis w \<Longrightarrow> pools_kept al w'"
  by (simp add: pools_kept_def pools_ok_def wg_pool_ok_def lxc_pool_ok_def pool_ok_def)

text \<open>The two allocators of the program are one.\<close>

definition one_allocator :: "'x Application \<Rightarrow> bool" where
  "one_allocator app \<longleftrightarrow> Ip (LXD app) = IpAlloc app \<and> (\<exists>cidr. CreateIpAllocator cidr = Ok (IpAlloc app))"

definition pooled :: "'x Application \<Rightarrow> 'x world \<Rightarrow> bool" where
  "pooled app w \<longleftrightarrow> one_allocator app \<and> pools_kept (IpAlloc app) w"

lemma pooled_calls:
  assumes "keeps (pools_kept (IpAlloc app)) m"
  shows "keeps (pooled app) m"
  using assms by (simp add: keeps_def pooled_def)

lemma pooled_addresses: "keeps (pooled app) (AllocateFreeLXCIp (Ip (LXD app)) uid)"
  using pools_addresses(2) [of "IpAlloc app" uid] by (auto simp: keeps_def pooled_def one_allocator_def)

interpretation pools: event_invariant "pooled app" app "\<lambda>rq. True" for app
  by unfold_locales
    ((rule pooled_calls,
      ((rule pools_pg, rule other_calls_addresses) | (rule pools_redis, rule other_calls_stack; assumption) |
       rule pools_addresses pools_delete pools_tunnel_login)) |
     rule pooled_addresses | (simp add: pooled_def, erule conjE, erule pools_frame; assumption))+

lemma pools_distinct:
  assumes "CreateIpAllocator cidr = Ok al" and "16 \<le> cidr" and "pools_ok al w"
  shows "distinct (free_ips STACK_KEY (redis w) @ wg_column (fst (pg w))) \<and>
    distinct (free_ips LXC_IP (redis w) @ ip_column (fst (pg w))) \<and>
    distinct (map GenerateIP (wg_column (fst (pg w)))) \<and>
    distinct (map GenerateIPLXC (ip_column (fst (pg w))))"
proof -
  have wg: "pool_col (FindNoOfUsableHosts al) (free_ips STACK_KEY (redis w) @ wg_column (fst (pg w)))"
    and lxc: "pool_col (FindNoOfUsableHostsDocker al) (free_ips LXC_IP (redis w) @ ip_column (fst (pg w)))"
    using assms(3) by (simp_all add: pools_ok_def wg_pool_ok_def lxc_pool_ok_def pool_ok_def)
  note b = allocator_bounds(3) [OF assms(1)] allocator_bounds(5) [OF assms(1,2)]
  have "0 \<le> ip \<and> ip < 2 ^ 24" if "ip \<in> set (wg_column (fst (pg w)))" for ip
    using pool_colD [OF wg that] b by simp
  moreover have "0 \<le> ip \<and> ip < 65536" if "ip \<in> set (ip_column (fst (pg w)))" for ip
    using pool_colD [OF lxc that] b by simp
  ultimately have "set (wg_column (fst (pg w))) \<subseteq> {0..<2 ^ 24}" "set (ip_column (fst (pg w))) \<subseteq> {0..<65536}"
    by auto
  then have "inj_on GenerateIP (set (wg_column (fst (pg w))))"
    "inj_on GenerateIPLXC (set (ip_column (fst (pg w))))"
    using inj_on_subset GenerateIP_inj_on GenerateIPLXC_inj_on by blast+
  with wg lxc show ?thesis by (simp add: pool_col_def distinct_map)
qed

text \<open>C2: the record of the addresses stays free of duplicates: whatever requests and deliveries the program serves, one
  after the other, from a state in which both pools are in order, and however Postgres, Redis and the systems outside
  fail in between (serialization failures, lost answers, commits that happen although they are reported as failed),
  the host numbers on the stack of released addresses and in the rows of the table remain pairwise different, for
  devices and for containers, and so do the address texts of all rows. For containers no constraint of the table backs
  this up. It says nothing of addresses handed out without a row: \<open>lxc_allocation_phantom\<close> and
  \<open>failed_deletion_frees_address\<close> show how a container runs with an address that is not recorded and that another one
  then gets. (Both allocators of the program are made from one prefix length, as \<open>main\<close> does, of at least 16; no
  failure of Redis itself reads as the allocator's text for an empty stack.)\<close>

theorem recorded_addresses_distinct:
  assumes "CreateIpAllocator cidr = Ok al" and "16 \<le> cidr" and "IpAlloc app = al" and "Ip (LXD app) = al"
    and "pools_ok al w"
  shows "let w' = fold (run_event app) es w
         in distinct (free_ips STACK_KEY (redis w') @ wg_column (fst (pg w'))) \<and>
            distinct (free_ips LXC_IP (redis w') @ ip_column (fst (pg w'))) \<and>
            distinct (map GenerateIP (wg_column (fst (pg w')))) \<and>
            distinct (map GenerateIPLXC (ip_column (fst (pg w'))))"
proof -
  have "pooled app (fold (run_event app) es w)"
    by (rule pools.events_keep) (use assms in \<open>auto simp: pooled_def one_allocator_def pools_kept_def\<close>)
  then have "pools_ok al (fold (run_event app) es w)" using assms(3) by (simp add: pooled_def pools_kept_def)
  from pools_distinct [OF assms(1,2) this] show ?thesis by (simp add: Let_def)
qed

theorem recorded_addresses_distinct_witness:
  "distinct (map GenerateIPLXC (ip_column (fst (pg
     (fold (run_event idle_app)
        [Request (session_of 1) (Register_device ''k1''), Deliver_instance (job_of DEPLOY),
         Request (session_of 2) (Register_device ''k2''), Deliver_instance (job_of KILL),
         Request (session_of 1) (Remove_device ''k1''), Deliver_instance (job_of DEPLOY)]
        (quiet_world two_users Map.empty))))))"
proof -
  let ?w = "quiet_world two_users Map.empty"
  have "pools_ok al24 ?w"
    by (simp add: pools_ok_def wg_pool_ok_def lxc_pool_ok_def pool_ok_def stack_ok_def free_ips_def pool_col_def
        quiet_world_def wg_column_def ip_column_def two_users_def empty_tables_def
        FindNoOfUsableHosts_def al24_def)
  moreover have "IpAlloc idle_app = al24" "Ip (LXD idle_app) = al24" by (simp_all add: idle_app_def al24_def)
  moreover have "(16::int) \<le> 24" by simp
  ultimately show ?thesis
    using recorded_addresses_distinct [OF al24, of idle_app ?w] unfolding Let_def by blast
qed

end
