(* ===== verification/Typed_Keys.thy ===== *)
theory Typed_Keys
  imports Pool_Events
begin

text \<open>
  What the keys of the shared keyspace hold. The program gives every key a kind by its name, and every event keeps
  every key at a value of its kind; so the commands the program sends for its own keys never meet a value of another
  kind, and what it reads back decodes.
\<close>

section \<open>Kinds of keys\<close>

datatype key_kind = Stack | Document | Flag | Note

definition kind_of :: "string \<Rightarrow> key_kind" where
  "kind_of k =
     (if stack_key k then Stack
      else if take 14 k = ''deploy:result:'' then Document
      else if take 12 k = ''stop:result:'' \<or> take 12 k = ''kill:result:'' then Flag
      else Note)"

fun has_kind :: "content \<Rightarrow> key_kind \<Rightarrow> bool" where
  "has_kind (Items l) Stack = list_all (\<lambda>v. atoi v \<noteq> None) l"
| "has_kind (Doc d) Document = (unmarshal_Instance (Doc d) \<noteq> None)"
| "has_kind (Text s) Flag = (s = ''true'' \<or> s = ''false'')"
| "has_kind (Text s) Note = True"
| "has_kind _ _ = False"

lemma has_kindE:
  assumes "has_kind c kd"
  obtains l where "kd = Stack" "c = Items l" "list_all (\<lambda>v. atoi v \<noteq> None) l"
  | d where "kd = Document" "c = Doc d" "unmarshal_Instance (Doc d) \<noteq> None"
  | b where "kd = Flag" "c = Text (bool_text b)"
  | s where "kd = Note" "c = Text s"
proof (cases "(c, kd)" rule: has_kind.cases)
  case (3 s)
  with assms have "s = bool_text True \<or> s = bool_text False" by (simp add: bool_text_def)
  with 3 that(3) show thesis by auto
qed (use assms that in auto)

definition well_typed :: "keyspace \<Rightarrow> bool" where
  "well_typed ks \<longleftrightarrow> (\<forall>k e. ks k = Some e \<longrightarrow> has_kind (val_of e) (kind_of k))"

definition boxes_typed :: "keyspace \<Rightarrow> bool" where
  "boxes_typed ks \<longleftrightarrow> (\<forall>k e. ks k = Some e \<longrightarrow> \<not> stack_key k \<longrightarrow> has_kind (val_of e) (kind_of k))"

lemma kind_simps [simp]:
  "kind_of (deploy_key job) = Document" "kind_of (stop_key job) = Flag" "kind_of (kill_key job) = Flag"
  "kind_of STACK_KEY = Stack" "kind_of LXC_IP = Stack"
  by (simp_all add: kind_of_def stack_key_def deploy_key_def stop_key_def kill_key_def)

lemma kind_of_hex: "is_hex k \<Longrightarrow> kind_of k = Note"
proof -
  assume h: "is_hex k"
  then have "CHR '':'' \<notin> set (take n k)" for n using is_hex_no_colon in_set_takeD by metis
  then have "take 14 k \<noteq> ''deploy:result:''" "take 12 k \<noteq> ''stop:result:''" "take 12 k \<noteq> ''kill:result:''"
    by (metis list.set_intros(1) list.set_intros(2))+
  with h show ?thesis by (simp add: kind_of_def hex_not_stack)
qed

section \<open>The commands\<close>

lemma typed_set: "has_kind c (kind_of k) \<Longrightarrow> keeps (holds boxes_typed) (serve (r_set k c ttl))"
  by (rule keeps_serve) (simp add: r_set_def boxes_typed_def)

lemma typed_del: "keeps (holds boxes_typed) (serve (r_del k))"
  by (rule keeps_serve) (auto simp: r_del_def boxes_typed_def split: option.split)

lemma typed_get: "keeps (holds boxes_typed) (serve (r_get k))"
  by (rule keeps_serve) (simp add: r_get_def split: option.split content.split)

lemma typed_stack:
  "stack_key k \<Longrightarrow> keeps (holds boxes_typed) (serve (r_lpop k))"
  "stack_key k \<Longrightarrow> keeps (holds boxes_typed) (serve (r_lpush k v))"
  by (rule keeps_serve; auto simp: r_lpop_def r_lpush_def boxes_typed_def split: option.splits content.splits list.splits)+

lemmas typed_commands = typed_del typed_get

lemma typed_puts:
  "keeps (holds boxes_typed) (PutDeployResult un job pw addr ok cid)"
  "keeps (holds boxes_typed) (PutStopResult ok job)" "keeps (holds boxes_typed) (PutKillResult ok job)"
  "is_hex tk \<Longrightarrow> keeps (holds boxes_typed) (SetEmailToken email tk)"
  "is_hex tk \<Longrightarrow> keeps (holds boxes_typed) (SetTunnelLogin tk uid)"
  unfolding redis_store_defs
  by (rule typed_set, simp add: unmarshal_marshal bool_text_def kind_of_hex)+

lemma typed_gets:
  "keeps (holds boxes_typed) (GetDeployResult job)" "keeps (holds boxes_typed) (GetStopResult job)"
  "keeps (holds boxes_typed) (GetKillResult job)" "keeps (holds boxes_typed) (GetEmailFromToken ct k)"
  "keeps (holds boxes_typed) (DeleteEmailToken k)" "keeps (holds boxes_typed) (GetUidFromTunnelSecret k)"
  "stack_key k \<Longrightarrow> keeps (holds boxes_typed) (PopFreeIp k)"
  "stack_key k \<Longrightarrow> keeps (holds boxes_typed) (PushFreeIp ip k)"
  unfolding redis_store_defs by (intro keeps_intros typed_commands typed_stack; assumption)+

section \<open>Events\<close>

definition typed :: "'x Application \<Rightarrow> 'x world \<Rightarrow> bool" where
  "typed app w \<longleftrightarrow> pooled app w \<and> holds boxes_typed (redis w)"

lemma typed_by: "keeps (pooled app) m \<Longrightarrow> keeps (\<lambda>w. holds boxes_typed (redis w)) m \<Longrightarrow> keeps (typed app) m"
  by (simp add: keeps_def typed_def)

lemma stack_keys: "stack_key STACK_KEY" "stack_key LXC_IP"
  by (simp_all add: stack_key_def)

lemma typed_pg: "keeps (pooled app) (on_pg m) \<Longrightarrow> keeps (typed app) (on_pg m)"
  by (rule typed_by [OF _ keeps_pg_other])

lemma typed_redis:
  "keeps (pooled app) (on_redis m) \<Longrightarrow> keeps (holds boxes_typed) m \<Longrightarrow> keeps (typed app) (on_redis m)"
  by (rule typed_by [OF _ keeps_redis])

lemma typed_addresses:
  "keeps (typed app) (AllocateFreeIp (IpAlloc app) uid key)"
  "keeps (typed app) (AllocateFreeLXCIp (Ip (LXD app)) uid)"
  "keeps (typed app) (DeAllocateIP key uid)" "keeps (typed app) (DeAllocateLXCIP uid)"
  by (rule typed_by, rule pools.calls,
      simp only: AllocateFreeIp_def AllocateFreeLXCIp_def DeAllocateIP_def DeAllocateLXCIP_def,
      intro keeps_intros typed_gets stack_keys)+

lemma typed_tunnel_login: "keeps (typed app) (LoginTunnelUser (password_matches app) bytes u p)"
  by (rule typed_by, rule pools.tunnel_login, simp, unfold LoginTunnelUser_def Let_def,
      intro keeps_intros typed_puts is_hex_text)

interpretation types: event_invariant "typed app" app "\<lambda>rq. True" for app
proof unfold_locales
  show "typed app w \<Longrightarrow> fst (pg w') = fst (pg w) \<Longrightarrow> redis w' = redis w \<Longrightarrow> typed app w'" for w w' :: "'a world"
    using pools.frame [of app w w'] by (simp add: typed_def)
qed ((rule typed_pg, rule pools.calls) |
     (rule typed_redis, rule pools.calls, assumption?, (rule typed_puts typed_gets, assumption?)) |
     rule typed_addresses typed_tunnel_login)+

lemma well_typed_boxes: "well_typed ks \<Longrightarrow> boxes_typed ks"
  by (simp add: well_typed_def boxes_typed_def)

lemma typed_well_typed:
  assumes "typed app w"
  shows "well_typed (fst (redis w))"
proof -
  have ok: "stack_ok k (redis w)" if "stack_key k" for k
    using assms that
    by (auto simp: stack_key_def typed_def pooled_def pools_kept_def pools_ok_def wg_pool_ok_def lxc_pool_ok_def pool_ok_def)
  have "has_kind (val_of e) Stack" if "stack_key k" "fst (redis w) k = Some e" for k e
    using ok [OF that(1)] that(2) by (auto simp: stack_ok_def split: content.splits)
  moreover have "has_kind (val_of e) (kind_of k)" if "\<not> stack_key k" "fst (redis w) k = Some e" for k e
    using assms that by (simp add: typed_def holds_def boxes_typed_def)
  moreover have "kind_of k = Stack" if "stack_key k" for k using that by (simp add: kind_of_def)
  ultimately show ?thesis unfolding well_typed_def by metis
qed

section \<open>What types are good for\<close>

text \<open>On a Redis that answers, a key of its kind never makes a command of the program fail.\<close>

lemma box_reads:
  assumes "well_typed ks"
  shows "\<exists>r. fst (GetDeployResult job (ks, [])) = Ok r" and "\<exists>r. fst (GetStopResult job (ks, [])) = Ok r"
    and "\<exists>r. fst (GetKillResult job (ks, [])) = Ok r"
proof -
  have ty: "ks k = Some e \<Longrightarrow> has_kind (val_of e) (kind_of k)" for k e
    using assms by (simp add: well_typed_def)
  show "\<exists>r. fst (GetDeployResult job (ks, [])) = Ok r"
  proof (cases "ks (deploy_key job)")
    case (Some e)
    from ty [OF Some] obtain d v where "val_of e = Doc d" "unmarshal_Instance (Doc d) = Some v"
      by (auto elim: has_kindE)
    with Some show ?thesis by (simp add: GetDeployResult_def r_get_def r_del_def prog_defs)
  qed (simp add: GetDeployResult_def r_get_def prog_defs)
  have flag: "\<exists>r. fst (get_flag key job (ks, [])) = Ok r" if "kind_of (key job) = Flag" for key
  proof (cases "ks (key job)")
    case (Some e)
    from ty [OF Some] that obtain b where "val_of e = Text (bool_text b)" by (auto elim: has_kindE)
    with Some show ?thesis by (simp add: get_flag_def r_get_def r_del_def prog_defs)
  qed (simp add: get_flag_def r_get_def prog_defs)
  show "\<exists>r. fst (GetStopResult job (ks, [])) = Ok r" "\<exists>r. fst (GetKillResult job (ks, [])) = Ok r"
    by (simp_all add: GetStopResult_def GetKillResult_def flag)
qed

lemma stack_reads:
  assumes "well_typed ks" and "stack_key k"
  shows "(\<exists>ip. fst (PopFreeIp k (ks, [])) = Ok ip) \<or> fst (PopFreeIp k (ks, [])) = Er (ErrText EMPTY_IP_STACK)"
    and "fst (PushFreeIp ip k (ks, [])) = Ok ()"
proof -
  have ty: "\<exists>l. val_of e = Items l \<and> list_all (\<lambda>v. atoi v \<noteq> None) l" if "ks k = Some e" for e
  proof -
    have "kind_of k = Stack" using assms(2) by (simp add: kind_of_def)
    with assms(1) that have "has_kind (val_of e) Stack" by (metis well_typed_def)
    then show ?thesis by (auto elim: has_kindE)
  qed
  show "(\<exists>ip. fst (PopFreeIp k (ks, [])) = Ok ip) \<or> fst (PopFreeIp k (ks, [])) = Er (ErrText EMPTY_IP_STACK)"
    using ty by (cases "ks k") (fastforce simp: PopFreeIp_def r_lpop_def prog_defs split: list.splits)+
  show "fst (PushFreeIp ip k (ks, [])) = Ok ()"
    using ty by (cases "ks k") (fastforce simp: PushFreeIp_def r_lpush_def)+
qed

lemma note_reads:
  assumes "well_typed ks" and "is_hex k"
  shows "fst (serve (r_get k) (ks, [])) \<noteq> Er wrongtype"
proof (cases "ks k")
  case (Some e)
  with assms kind_of_hex have "has_kind (val_of e) Note" unfolding well_typed_def by metis
  with Some show ?thesis by (auto simp: r_get_def elim: has_kindE)
qed (simp add: r_get_def wrongtype_def)

text \<open>C4: the shared keyspace is typed: mail tokens and tunnel secrets hold text, the boxes of deployments hold a
  document that decodes into an instance, the boxes of stop and kill jobs hold a flag, and the two stacks hold lists
  of numerals. Every sequence of requests and deliveries, with any failures, keeps it so; and while it is so, a Redis
  that answers never gives a command of the program an error of its own: every poll decodes what it finds, every
  released address can be pushed, every pop gives an address or says that the stack is empty, and no token or secret
  meets a value of another kind.\<close>

theorem keyspace_well_typed:
  assumes "CreateIpAllocator cidr = Ok al" and "IpAlloc app = al" and "Ip (LXD app) = al" and "pools_ok al w"
    and "well_typed (fst (redis w))"
  shows "let ks = fst (redis (fold (run_event app) es w))
         in well_typed ks \<and>
            (\<forall>job. (\<exists>r. fst (GetDeployResult job (ks, [])) = Ok r) \<and> (\<exists>r. fst (GetStopResult job (ks, [])) = Ok r) \<and>
               (\<exists>r. fst (GetKillResult job (ks, [])) = Ok r)) \<and>
            (\<forall>k \<in> {STACK_KEY, LXC_IP}. \<forall>ip. fst (PushFreeIp ip k (ks, [])) = Ok () \<and>
               ((\<exists>n. fst (PopFreeIp k (ks, [])) = Ok n) \<or> fst (PopFreeIp k (ks, [])) = Er (ErrText EMPTY_IP_STACK))) \<and>
            (\<forall>bytes. fst (serve (r_get (hex_text bytes)) (ks, [])) \<noteq> Er wrongtype)"
proof -
  have "typed app (fold (run_event app) es w)"
    by (rule types.events_keep)
      (use assms in \<open>auto simp: typed_def pooled_def one_allocator_def pools_kept_def holds_def well_typed_boxes\<close>)
  then have "well_typed (fst (redis (fold (run_event app) es w)))" by (rule typed_well_typed)
  note this box_reads [OF this] stack_reads [OF this stack_keys(1)] stack_reads [OF this stack_keys(2)]
    note_reads [OF this is_hex_text]
  then show ?thesis by (simp add: Let_def)
qed

theorem keyspace_well_typed_witness:
  "well_typed (fst (redis (fold (run_event idle_app)
     [Request (session_of 1) (Register_device ''k1''), Deliver_instance (job_of DEPLOY),
      Request (session_of 1) (Remove_device ''k1''), Request (session_of 2) (Verify ''ip_stack''),
      Request (session_of 2) (Tunnel_login (Some ''secret'') ''u'' ''p''), Deliver_instance (job_of KILL)]
     (quiet_world two_users Map.empty))))"
proof -
  let ?w = "quiet_world two_users Map.empty"
  have "pools_ok al24 ?w"
    by (simp add: pools_ok_def wg_pool_ok_def lxc_pool_ok_def pool_ok_def stack_ok_def free_ips_def pool_col_def
        quiet_world_def wg_column_def ip_column_def two_users_def empty_tables_def FindNoOfUsableHosts_def al24_def)
  moreover have "IpAlloc idle_app = al24" "Ip (LXD idle_app) = al24" by (simp_all add: idle_app_def al24_def)
  moreover have "well_typed (fst (redis ?w))" by (simp add: well_typed_def quiet_world_def)
  ultimately show ?thesis using keyspace_well_typed [OF al24, of idle_app ?w] unfolding Let_def by blast
qed

end
