(* ===== verification/Restarts.thy ===== *)
theory Restarts
  imports Startup Limits Typed_Keys
begin

text \<open>
  The program over its whole life: every start runs \<open>main\<close> on what Postgres, Redis and the disk hold, then serves
  events until the process ends, however it ends, and the next start finds what is left. What the stores
  promise between events survives every restart.
\<close>

section \<open>Starting\<close>

context event_invariant
begin

lemma channel_kept: "(\<And>c. keeps inv (k c)) \<Longrightarrow> keeps inv (with_channel a k)"
  unfolding with_channel_def by (intro keeps_intros channels; assumption)

lemma queues_kept: "keeps inv (open_queues e a)"
proof -
  have dial: "keeps inv (dial_loop a url k er)" for url k er
    by (induction k arbitrary: er) (auto intro!: keeps_intros calls split: option.split)
  have pool: "keeps inv (CreateChannelPool a n c)" for n c
    by (induction n) (auto intro!: keeps_intros calls)
  show ?thesis
    unfolding open_queues_def open_queue_def fatal_def ConnectToMq_def CreateQueueInstance_def CreateRetryQueue_def
      CreateConsumer_def
    by (intro keeps_intros calls dial pool channel_kept channels)
qed

lemma main_kept: "keeps inv (main_program e libs)"
  unfolding main_program_def LoadEnv_def connection_defs prepare_host_def host_defs fatal_def Let_def
  by (intro keeps_intros calls queues_kept)

end

text \<open>A new process has an empty pool of channels and no counters; nothing of the old one is left to it.\<close>

definition fresh_process :: "'x world \<Rightarrow> 'x world" where
  "fresh_process w = w\<lparr>pool := [], retries := (\<lambda>_. 0), settled := [], mails := []\<rparr>"

text \<open>One life per element: the machine it starts on, the libraries, and what it serves until it ends.\<close>

fun lives :: "('x machine \<times> 'x Application \<times> event list) list \<Rightarrow> 'x world \<Rightarrow> 'x world" where
  "lives [] w = w"
| "lives ((e, libs, es) # ls) w =
     (case main_program e libs (fresh_process w) of
        (Ok app, w1) \<Rightarrow> lives ls (fold (run_event app) es w1)
      | (_, w1) \<Rightarrow> lives ls w1)"

lemma main_application_result:
  assumes "main_program e libs w = (Ok app, w')"
  shows "\<exists>q. app = main_application libs q"
  using assms unfolding main_program_def Let_def by (auto elim!: tri_OkE simp: ret_def)

section \<open>What survives\<close>

definition in_order :: "'x world \<Rightarrow> bool" where
  "in_order w \<longleftrightarrow> program_ok (fst (pg w)) \<and> pools_ok al24 w \<and> well_typed (fst (redis w))"

lemma in_order_frame:
  "in_order w \<Longrightarrow> fst (pg w') = fst (pg w) \<Longrightarrow> redis w' = redis w \<Longrightarrow> in_order w'"
  by (simp add: in_order_def pools_ok_def wg_pool_ok_def lxc_pool_ok_def pool_ok_def)

lemma in_order_iff:
  assumes "IpAlloc app = al24" and "Ip (LXD app) = al24"
  shows "in_order w \<longleftrightarrow> sound w \<and> typed app w"
proof -
  have "one_allocator app" using assms al24 by (auto simp: one_allocator_def)
  moreover have "\<exists>cidr. CreateIpAllocator cidr = Ok al24" using al24 by blast
  ultimately show ?thesis
    using typed_well_typed [of app w] assms(1)
    by (auto simp: in_order_def sound_def holds_def typed_def pooled_def pools_kept_def well_typed_boxes)
qed

lemma main_allocators: "IpAlloc (main_application libs q) = al24" "Ip (LXD (main_application libs q)) = al24"
  by (simp_all add: main_application_def al24_def)

lemma life_in_order:
  assumes "in_order w" and "main_program e libs (fresh_process w) = (r, w1)"
  shows "in_order w1" and "r = Ok app \<Longrightarrow> in_order (fold (run_event app) es w1)"
proof -
  let ?app = "main_application libs undefined"
  have "in_order (fresh_process w)" using assms(1) by (rule in_order_frame) (simp_all add: fresh_process_def)
  then have start: "sound (fresh_process w)" "typed ?app (fresh_process w)"
    using in_order_iff [OF main_allocators [of libs undefined]] by blast+
  from keeps_run [OF limits.main_kept start(1) assms(2)] keeps_run [OF types.main_kept start(2) assms(2)]
  show w1: "in_order w1" using in_order_iff [OF main_allocators [of libs undefined]] by blast
  assume "r = Ok app"
  with assms(2) obtain q where app: "app = main_application libs q" using main_application_result by blast
  have iff: "in_order v \<longleftrightarrow> sound v \<and> typed app v" for v
    unfolding app by (rule in_order_iff) (rule main_allocators)+
  from w1 have "sound w1" "typed app w1" unfolding iff by blast+
  then have "sound (fold (run_event app) es w1)" "typed app (fold (run_event app) es w1)"
    by (simp_all add: limits.events_keep types.events_keep)
  then show "in_order (fold (run_event app) es w1)" unfolding iff by blast
qed

text \<open>C3: whatever the stores hold is in order for ever, once it is: through any number of lives of the process, each of
  which starts by \<open>main\<close> on some machine (or fails to), serves any events with any failures, and ends
  after any of them, the tables stay within their schema and limits, the two pools of addresses stay without duplicates, and
  every key of Redis keeps its type. \<open>main\<close> need not repair anything, and nothing it does can break them.\<close>

theorem order_survives_restarts:
  assumes "in_order w"
  shows "in_order (lives ls w)"
  using assms
proof (induction ls w rule: lives.induct)
  case (2 e libs es ls w)
  obtain r w1 where r: "main_program e libs (fresh_process w) = (r, w1)" by (metis prod.exhaust)
  note one = life_in_order [OF 2(4) r]
  show ?case using 2(1,2,3) [OF r [symmetric]] one r by (cases r) auto
qed simp

theorem order_survives_restarts_witness:
  "in_order (lives
     [(idle_machine, idle_app, [Request (session_of 1) (Register_device ''k1''), Deliver_instance (job_of DEPLOY)]),
      (idle_machine\<lparr>Ping := fail (ErrText ''docker'')\<rparr>, idle_app, []),
      (idle_machine, idle_app, [Request (session_of 2) (Stop_instance 7), Deliver_instance (job_of KILL)])]
     (quiet_world two_users Map.empty))"
proof (rule order_survives_restarts)
  have "schema_ok two_users" by code_simp
  then have "program_ok two_users"
    by (simp add: program_ok_def within_device_limit_def devices_def domain_limit_def own_domains_def pg_quota_def
        two_users_def empty_tables_def rows_matching_def)
  moreover have "pools_ok al24 (quiet_world two_users Map.empty)"
    by (simp add: pools_ok_def wg_pool_ok_def lxc_pool_ok_def pool_ok_def stack_ok_def free_ips_def pool_col_def
        quiet_world_def wg_column_def ip_column_def two_users_def empty_tables_def FindNoOfUsableHosts_def al24_def)
  ultimately show "in_order (quiet_world two_users Map.empty)"
    by (simp add: in_order_def quiet_world_def well_typed_def)
qed

end
