(* ===== verification/Access.thy ===== *)
theory Access
  imports Limits
begin

text \<open>
  Who can do what without an account: the guard of the routes, the one way a session becomes authorized, and what
  the link of a verification mail can be used for.
\<close>

section \<open>Who is let in\<close>

text \<open>
  The policy, request by request and without the router: which ones need no session, which come with the secret of a
  tunnel client, and which are about an account.
\<close>

fun needs_no_session :: "request \<Rightarrow> bool" where
  "needs_no_session (Create_tunnel s d c n) = True"
| "needs_no_session (Destroy_tunnel s n) = True"
| "needs_no_session (Create_user form uuid now) = True"
| "needs_no_session (Verify token) = True"
| "needs_no_session (Login u p) = True"
| "needs_no_session Register_page = True"
| "needs_no_session Signin_page = True"
| "needs_no_session (Tunnel_login bytes u p) = True"
| "needs_no_session _ = False"

fun tunnel_secret :: "request \<Rightarrow> string option" where
  "tunnel_secret (Create_tunnel s d c n) = Some s"
| "tunnel_secret (Destroy_tunnel s n) = Some s"
| "tunnel_secret _ = None"

fun account_request :: "request \<Rightarrow> bool" where
  "account_request (Create_user form uuid now) = True"
| "account_request (Verify token) = True"
| "account_request _ = False"

text \<open>
  What an account can have: all tables but that of the accounts, the proxy files, and what is outside, with the
  channels to the broker.
\<close>

definition resources :: "'x world \<Rightarrow> tables \<times> files server \<times> nat list \<times> settle list \<times> 'x" where
  "resources w = ((fst (pg w))\<lparr>users := [], next_user_id := 0\<rparr>, disk w, pool w, settled w, outside w)"

definition resources_are :: "(tables \<times> files server \<times> nat list \<times> settle list \<times> 'x) \<Rightarrow> 'x world \<Rightarrow> bool" where
  "resources_are x w \<longleftrightarrow> resources w = x"

definition tables_are :: "tables \<Rightarrow> 'x world \<Rightarrow> bool" where
  "tables_are t w \<longleftrightarrow> fst (pg w) = t"

lemmas held_defs = resources_are_def tables_are_def resources_def

lemma held_calls:
  "keeps (resources_are x) (on_redis b)" "keeps (resources_are x) (on_session c)" "keeps (resources_are x) (get_field f)"
  "keeps (tables_are t) (on_redis b)" "keeps (tables_are t) (on_session c)" "keeps (tables_are t) (get_field f)"
  "only_reads m \<Longrightarrow> keeps (resources_are x) (on_pg m)" "only_reads m \<Longrightarrow> keeps (tables_are t) (on_pg m)"
  by (auto simp: keeps_def held_defs act_eqs split: prod.split dest: only_readsD)

lemma held_fields:
  "keeps (resources_are x) (set_field (\<lambda>w. w\<lparr>mails := f w\<rparr>))"
  "keeps (resources_are x) (set_field (\<lambda>w. w\<lparr>session := g w\<rparr>))"
  "keeps (tables_are t) (set_field (\<lambda>w. w\<lparr>session := g w\<rparr>))"
  by (simp_all add: keeps_def held_defs set_field_def)

lemma account_calls_held:
  "keeps (resources_are x) (on_pg (CreateUser_store h a b c d e) :: ('x, unit) act)"
  "keeps (resources_are x) (on_pg (VerifyUser_store email) :: ('x, unit) act)"
proof -
  have p: "keeps (resources_are x) (on_pg m :: ('x, 'b) act)" if "\<And>y. keeps (holds (\<lambda>t. t\<lparr>users := [], next_user_id := 0\<rparr> = y)) m" for m :: "(db, 'b) prog"
  proof (rule keepsI)
    fix w :: "'x world"
    show "resources_are x w \<Longrightarrow> resources_are x (snd (on_pg m w))"
      using keepsD [OF that, of "(fst (pg w))\<lparr>users := [], next_user_id := 0\<rparr>" "pg w"]
      by (auto simp: held_defs holds_def on_pg_eq split: prod.split)
  qed
  show "keeps (resources_are x) (on_pg (CreateUser_store h a b c d e) :: ('x, unit) act)"
    "keeps (resources_are x) (on_pg (VerifyUser_store email) :: ('x, unit) act)"
    unfolding CreateUser_store_def VerifyUser_store_def
    by (intro p keeps_intros keeps_serve; simp add: sql_defs Let_def split: option.split)+
qed

lemmas open_defs = CreateUser_handler_def VerifyUser_handler_def LoginUser_handler_def
  RenderRegisterPage_def RenderSignInPage_def LoginTunnelUser_def

lemma open_resources:
  "tunnel_secret rq = None \<Longrightarrow> keeps (resources_are x) (open_route app rq)"
  by (cases rq)
     (auto intro!: keeps_intros held_calls held_fields account_calls_held store_reads simp: open_defs Let_def)

lemma open_tables:
  "tunnel_secret rq = None \<Longrightarrow> \<not> account_request rq \<Longrightarrow> keeps (tables_are t) (open_route app rq)"
  by (cases rq) (auto intro!: keeps_intros held_calls held_fields store_reads simp: open_defs Let_def)

lemma turned_away:
  "protected_route app rq \<noteq> None \<Longrightarrow> \<not> is_authorized (fst (session w)) \<Longrightarrow>
   NewRouter app rq w = (Ok (Redirect ''/kws_signin''), w)"
  by (auto simp: NewRouter_def IsAuthorized_def tri_eq get_field_def ret_def)

lemma sessionless_open: "needs_no_session rq \<Longrightarrow> NewRouter app rq = open_route app rq"
  by (cases rq) (simp_all add: NewRouter_def)

lemma guarded_protected: "\<not> needs_no_session rq \<Longrightarrow> protected_route app rq \<noteq> None"
  by (cases rq) simp_all

lemma refused_secret:
  assumes "tunnel_secret rq = Some s" and "\<And>uid. fst (GetUidFromTunnelSecret s (redis w)) \<noteq> Ok uid"
  shows "\<exists>m k. NewRouter app rq w = (Ok (http_error m 401), w\<lparr>redis := k\<rparr>)"
proof -
  obtain q k where g: "GetUidFromTunnelSecret s (redis w) = (q, k)" by (metis prod.exhaust)
  then obtain e where "q = Er e"
    using assms(2) quiet_result [OF redis_store_quiet(5) g] by (cases q) auto
  have "\<exists>m k. IsTunnelUserAuthorized s h w = (Ok (http_error m 401), w\<lparr>redis := k\<rparr>)"
    for h :: "int \<Rightarrow> ('a, unit reply) act"
  proof (cases "s = []")
    case True
    then have "IsTunnelUserAuthorized s h w = (Ok (http_error ''Missing secret header'' 401), w\<lparr>redis := redis w\<rparr>)"
      by (simp add: IsTunnelUserAuthorized_def ret_def)
    then show ?thesis by blast
  next
    case False
    with g \<open>q = Er e\<close>
    have "IsTunnelUserAuthorized s h w = (Ok (http_error ''Unauthorized request'' 401), w\<lparr>redis := k\<rparr>)"
      by (simp add: IsTunnelUserAuthorized_def handle_def on_redis_eq ret_def)
    then show ?thesis by blast
  qed
  with assms(1) show ?thesis by (cases rq) (auto simp: NewRouter_def)
qed

text \<open>C10: what a request can do whose session is not authorized. Every request but the eight of
  \<open>needs_no_session\<close> is redirected to the sign-in page and leaves the whole state as it was. Of those eight, the ones
  with no secret, or with one that Redis does not answer with an account, leave all tables but \<open>users\<close>, the
  proxy files, the channels, the broker and everything outside as they were, whatever the servers answer; only
  a registration and a verification change the accounts, and a tunnel request without a good secret gets 401. (Keys
  of Redis can change: tokens are set and deleted.)\<close>

theorem unauthorized_requests:
  assumes "NewRouter app rq w = (r, w')" and "\<not> is_authorized (fst (session w))"
  shows "(\<not> needs_no_session rq \<longrightarrow> r = Ok (Redirect ''/kws_signin'') \<and> w' = w) \<and>
    ((\<forall>s uid. tunnel_secret rq = Some s \<longrightarrow> fst (GetUidFromTunnelSecret s (redis w)) \<noteq> Ok uid) \<longrightarrow>
       resources w' = resources w \<and> (account_request rq \<or> fst (pg w') = fst (pg w)) \<and>
       (tunnel_secret rq \<noteq> None \<longrightarrow> (\<exists>m. r = Ok (http_error m 401))))"
proof (cases "needs_no_session rq")
  case False
  then have "tunnel_secret rq = None" by (cases rq) simp_all
  moreover have "w' = w \<and> r = Ok (Redirect ''/kws_signin'')"
    using turned_away [OF guarded_protected [OF False] assms(2)] assms(1) by simp
  ultimately show ?thesis by simp
next
  case True
  show ?thesis
  proof (cases "tunnel_secret rq")
    case None
    have run: "open_route app rq w = (r, w')" using sessionless_open [OF True] assms(1) by metis
    have "resources_are (resources w) w'"
      by (rule keeps_run [OF open_resources [OF None] _ run]) (simp add: resources_are_def)
    moreover have "tables_are (fst (pg w)) w'" if "\<not> account_request rq"
      by (rule keeps_run [OF open_tables [OF None that] _ run]) (simp add: tables_are_def)
    ultimately show ?thesis using True None by (auto simp: resources_are_def tables_are_def)
  next
    case (Some s)
    show ?thesis
      using refused_secret [OF Some, of w app] assms(1) True Some by (auto simp: resources_def)
  qed
qed

theorem unauthorized_requests_witness:
  "(let p = NewRouter idle_app (Deploy_instance ''ann'' ''pw'' 0) (quiet_world two_users Map.empty)
    in fst p = Ok (Redirect ''/kws_signin'') \<and> pool (snd p) = []) \<and>
   (let p = NewRouter idle_app (Destroy_tunnel ''abc'' ''t'') (quiet_world two_users Map.empty)
    in \<exists>m. fst p = Ok (http_error m 401))"
proof -
  let ?w = "quiet_world two_users Map.empty"
  have anon: "\<not> is_authorized (fst (session ?w))" by (simp add: quiet_world_def no_session_def)
  have "fst (GetUidFromTunnelSecret ''abc'' (redis ?w)) \<noteq> Ok uid" for uid
    by (simp add: quiet_world_def GetUidFromTunnelSecret_def r_get_def prog_defs)
  then have none: "\<forall>s uid. tunnel_secret (Destroy_tunnel ''abc'' ''t'') = Some s \<longrightarrow>
      fst (GetUidFromTunnelSecret s (redis ?w)) \<noteq> Ok uid" by simp
  have "\<not> needs_no_session (Deploy_instance ''ann'' ''pw'' 0)" by simp
  with unauthorized_requests [OF surjective_pairing anon,  where app = idle_app and rq = "Deploy_instance ''ann'' ''pw'' 0"]
    unauthorized_requests [OF surjective_pairing anon,  where app = idle_app and rq = "Destroy_tunnel ''abc'' ''t''"] none
  show ?thesis by (simp add: quiet_world_def Let_def)
qed

definition anonymous :: "'x world \<Rightarrow> bool" where
  "anonymous w \<longleftrightarrow> \<not> is_authorized (fst (session w))"

lemma anonymous_calls [keeps_intros]:
  "keeps anonymous (on_pg a)" "keeps anonymous (on_redis b)" "keeps anonymous (on_disk c)" "keeps anonymous (extern e)"
  "keeps anonymous (get_field f)"
  by (auto simp: keeps_def anonymous_def act_eqs split: prod.split)

lemma anonymous_set [keeps_intros]: "(\<And>w. session (f w) = session w) \<Longrightarrow> keeps anonymous (set_field f)"
  by (simp add: keeps_def anonymous_def set_field_def)

lemma anonymous_push [keeps_intros]: "keeps anonymous (PushMessageInstance a cap q m)"
proof -
  have p: "keeps anonymous (PushChannel a cap ch)" for ch unfolding PushChannel_def by (intro keeps_intros) simp
  have "keeps anonymous (handle (extern (OpenChannel a)) (\<lambda>e. ret None) (\<lambda>n. ret (Some n)))" by (intro keeps_intros)
  then have "keeps anonymous (GetFreeChannel a)"
    by (auto simp: keeps_def anonymous_def GetFreeChannel_def split: list.split)
  then show ?thesis unfolding PushMessageInstance_def by (intro keeps_intros p)
qed

lemma anonymous_route: "(\<And>u p. rq \<noteq> Login u p) \<Longrightarrow> keeps anonymous (open_route app rq)"
  by (cases rq)
     (auto intro!: keeps_intros simp: IsTunnelUserAuthorized_def CreateTunnel_handler_def DestroyTunnel_handler_def
       ReloadNginxConf_def ExecAndPrint_def wrap_error_def CreateUser_handler_def VerifyUser_handler_def Let_def
       RenderRegisterPage_def RenderSignInPage_def LoginTunnelUser_def)

text \<open>C9: a session becomes authorized in one way only: by \<open>LoginUser\<close>, with the name and a matching
  password of a verified account, and it then carries that account's id, whatever the servers answer and
  whatever is requested.\<close>

theorem only_login_authorizes:
  assumes "NewRouter app rq w = (r, w')" and "\<not> is_authorized (fst (session w))"
    and "is_authorized (fst (session w'))"
  shows "\<exists>n p. rq = Login n p \<and>
    (\<exists>u \<in> set (users (fst (pg w))). u_name u = n \<and> u_verified u \<and> password_matches app (u_hash u) p \<and>
       fst (session w') = \<lparr>is_authorized = True, session_id = u_id u, session_name = n\<rparr>)"
proof (cases "\<exists>n p. rq = Login n p")
  case True
  then obtain n p where rq: "rq = Login n p" by blast
  with assms(1) have "LoginUser_handler (password_matches app) n p w = (r, w')" by (simp add: NewRouter_def)
  from login_sound [OF this assms(2,3)] rq show ?thesis by blast
next
  case False
  have "protected_route app rq \<noteq> None \<Longrightarrow> w' = w"
    using turned_away [of app rq w] assms(1,2) by simp
  moreover have "protected_route app rq = None \<Longrightarrow> anonymous w'"
    using keeps_run [OF anonymous_route [of rq app], of w r w'] False assms(1,2)
    by (auto simp: NewRouter_def anonymous_def)
  ultimately show ?thesis using assms(2,3) by (auto simp: anonymous_def)
qed

theorem only_login_authorizes_witness:
  "\<exists>u \<in> set (users sample_accounts). u_id u = 4 \<and> u_verified u \<and> u_hash u = ''pw''"
proof -
  let ?w = "quiet_world sample_accounts Map.empty"
  obtain r w' where l: "NewRouter idle_app (Login ''ann.lee'' ''pw'') ?w = (r, w')" by (metis prod.exhaust)
  moreover have "is_authorized (fst (session (snd (NewRouter idle_app (Login ''ann.lee'' ''pw'') ?w))))"
    and "session_id (fst (session (snd (NewRouter idle_app (Login ''ann.lee'' ''pw'') ?w)))) = 4"
    by code_simp+
  moreover have "\<not> is_authorized (fst (session ?w))" by code_simp
  moreover have "fst (pg ?w) = sample_accounts" by (simp add: quiet_world_def)
  moreover have "password_matches idle_app = (\<lambda>h p. h = p)" by (simp add: idle_app_def)
  ultimately show ?thesis using only_login_authorizes [OF l] by auto
qed

section \<open>A link that is not a verification link\<close>

lemma split_on_pos: "split_on c xs \<noteq> []"
  by (cases xs) (auto split: list.split)

lemma split_on_length: "length (split_on c (xs @ c # ys)) = length (split_on c xs) + length (split_on c ys)"
proof (induction xs)
  case (Cons x xs)
  then show ?case
    using split_on_pos [of c xs] split_on_pos [of c "xs @ c # ys"] by (auto split: list.split)
qed simp

lemma split_on_length_pos: "0 < length (split_on c xs)"
  using split_on_pos by simp

text \<open>C39: the verification link takes any key of Redis for a token. For the key under which the outcome of a
  stop job waits, the rendered command has more than two parts, so the outcome is deleted: whoever knows a job's
  id, signed in or not, can destroy its result.\<close>

theorem verify_link_removes_results:
  assumes "rendered (redis_text app)" and "redis w = (ks, [])"
    and "ks (stop_key job) = Some \<lparr>val_of = Text (bool_text b), ttl_hours = None\<rparr>"
  shows "fst (redis (snd (NewRouter app (Verify (stop_key job)) w))) = ks(stop_key job := None)"
proof -
  let ?line = "redis_text app (stop_key job) (Ok (Text (bool_text b)))"
  have "?line = ''get stop'' @ CHR '':'' # ''result'' @ CHR '':'' # (job @ CHR '':'' # '' '' @ bool_text b)"
    using assms(1) unfolding rendered_def by (simp add: stop_key_def)
  then have "2 < length (split_on (CHR '':'') ?line)"
    using split_on_length_pos [of "CHR '':''" job] split_on_length_pos [of "CHR '':''" "'' '' @ bool_text b"]
      split_on_length_pos [of "CHR '':''" "''result''"] split_on_length_pos [of "CHR '':''" "''get stop''"]
    by (simp only: split_on_length)
  with assms(2,3) show ?thesis
    by (auto simp: NewRouter_def VerifyUser_handler_def GetEmailFromToken_def r_get_def DeleteEmailToken_def r_del_def
        act_eqs prog_defs Let_def split: prod.split res.split)
qed

theorem verify_link_removes_results_witness:
  "fst (redis (snd (NewRouter idle_app (Verify (stop_key ''j1'')) (quiet_world empty_tables
     [stop_key ''j1'' \<mapsto> \<lparr>val_of = Text (bool_text True), ttl_hours = None\<rparr>])))) (stop_key ''j1'') = None"
  by (subst verify_link_removes_results [where job = "''j1''" and b = True and
        ks = "[stop_key ''j1'' \<mapsto> \<lparr>val_of = Text (bool_text True), ttl_hours = None\<rparr>]"])
    (simp_all add: idle_app_def plain_cmd_rendered quiet_world_def)

end
