(* ===== verification/Tunnel_Logins.thy ===== *)
theory Tunnel_Logins
  imports Typed_Keys
begin

text \<open>
  Whom a tunnel secret stands for. The invariant is one between the keyspace and the accounts: a key whose
  content reads as a user id was issued by a login of that user. Accounts are never removed and a verified row never
  changes, so it outlives every other request.
\<close>

section \<open>Accounts only grow\<close>

definition verified_rows :: "tables \<Rightarrow> user_row set" where
  "verified_rows t = set (filter u_verified (users t))"

definition has_accounts :: "user_row set \<Rightarrow> tables \<Rightarrow> bool" where
  "has_accounts us t \<longleftrightarrow> us \<subseteq> verified_rows t"

lemma users_frames:
  "keeps (holds (\<lambda>t. users t = x)) (CreateInstance_store uid n u p)" "keeps (holds (\<lambda>t. users t = x)) (StartInstance uid)"
  "keeps (holds (\<lambda>t. users t = x)) (StopInstance_store uid)" "keeps (holds (\<lambda>t. users t = x)) (RemoveInstance uid)"
  "keeps (holds (\<lambda>t. users t = x)) (AddIP uid ip)" "keeps (holds (\<lambda>t. users t = x)) (RemoveIP uid)"
  "keeps (holds (\<lambda>t. users t = x)) (AllocateNextFreeIP_lxc m uid)" "keeps (holds (\<lambda>t. users t = x)) (AddPeer_store uid wg)"
  "keeps (holds (\<lambda>t. users t = x)) (RemovePeer_store key uid)" "keeps (holds (\<lambda>t. users t = x)) (AllocateNextFreeIP_wg m uid wg)"
  "keeps (holds (\<lambda>t. users t = x)) (CreateTunnel_store tn)" "keeps (holds (\<lambda>t. users t = x)) (DestroyTunnel_store tn)"
  "keeps (holds (\<lambda>t. users t = x)) (AddDomain dm)" "keeps (holds (\<lambda>t. users t = x)) (RemoveDomain dm)"
  "keeps (holds (\<lambda>t. users t = x)) (AddUserDomain_store dm)" "keeps (holds (\<lambda>t. users t = x)) (DeleteUserDomains dm)"
  "keeps (holds (\<lambda>t. users t = x)) (AddUser_pg pu)" "keeps (holds (\<lambda>t. users t = x)) (AddDatabase pu pd)"
  "keeps (holds (\<lambda>t. users t = x)) (RemoveDatabase pu pd)" "keeps (holds (\<lambda>t. users t = x)) (RemoveUser_pg pu)"
  unfolding instance_store_defs wg_store_defs domain_store_defs pg_store_defs Let_def
  by (intro keeps_intros keeps_serve tx_frame; simp add: sql_defs sql_read_def Let_def split: list.split)+

lemma users_only: "(\<And>x. keeps (holds (\<lambda>t. users t = x)) m) \<Longrightarrow> keeps (holds (has_accounts us)) m"
  by (erule keeps_part) (simp add: has_accounts_def verified_rows_def)

lemma account_frames:
  "keeps (holds (has_accounts us)) (CreateUser_store h a b c d e)" "keeps (holds (has_accounts us)) (VerifyUser_store email)"
  unfolding CreateUser_store_def VerifyUser_store_def
  by (intro keeps_intros keeps_serve;
      force simp: sql_insert_user_def sql_verify_user_def has_accounts_def verified_rows_def split: option.split)+

section \<open>Who was issued a secret\<close>

text \<open>One of the requests was a login with this secret, of a verified account with this id and this password.\<close>

definition entitled :: "(string \<Rightarrow> string \<Rightarrow> bool) \<Rightarrow> request set \<Rightarrow> tables \<Rightarrow> string \<Rightarrow> int \<Rightarrow> bool" where
  "entitled matches rqs t secret uid \<longleftrightarrow>
     (\<exists>bytes p r. Tunnel_login (Some bytes) (u_name r) p \<in> rqs \<and> secret = hex_text bytes \<and>
        r \<in> verified_rows t \<and> u_id r = uid \<and> matches (u_hash r) p)"

lemma entitled_mono: "entitled mt rqs t k n \<Longrightarrow> has_accounts (verified_rows t) t' \<Longrightarrow> entitled mt rqs t' k n"
  unfolding entitled_def has_accounts_def by blast

lemma grants_mono: "grants P ks \<Longrightarrow> (\<And>k n. P k n \<Longrightarrow> Q k n) \<Longrightarrow> grants Q ks"
  unfolding grants_def by blast

definition logins_ok :: "'x Application \<Rightarrow> request set \<Rightarrow> 'x world \<Rightarrow> bool" where
  "logins_ok app rqs w \<longleftrightarrow> grants (entitled (password_matches app) rqs (fst (pg w))) (fst (redis w))"

lemma logins_pg:
  fixes app :: "'x Application"
  assumes "\<And>us. keeps (holds (has_accounts us)) m"
  shows "keeps (logins_ok app rqs) (on_pg m)"
proof (rule keepsI)
  fix w :: "'x world" assume "logins_ok app rqs w"
  moreover have "has_accounts (verified_rows (fst (pg w))) (fst (snd (m (pg w))))"
    using keepsD [OF assms, of "verified_rows (fst (pg w))" "pg w"] by (simp add: holds_def has_accounts_def)
  ultimately show "logins_ok app rqs (snd (on_pg m w))"
    by (auto simp: logins_ok_def on_pg_eq case_prod_beta elim: grants_mono entitled_mono)
qed

lemma logins_redis:
  fixes app :: "'x Application"
  assumes "\<And>P. keeps (holds (grants P)) m"
  shows "keeps (logins_ok app rqs) (on_redis m)"
proof (rule keepsI)
  fix w :: "'x world" assume "logins_ok app rqs w"
  then show "logins_ok app rqs (snd (on_redis m w))"
    using keepsD [OF assms, of "entitled (password_matches app) rqs (fst (pg w))" "redis w"]
    by (simp add: logins_ok_def holds_def on_redis_eq case_prod_beta)
qed

lemma deploy_grants: "keeps (holds (grants P)) (PutDeployResult un job pw addr ok cid)"
  using redis_store_grants(8) [of P "\<lparr>Wi_ContainerID = cid, Wi_Success = ok, Wi_Username = un, Wi_Password = pw, Wi_IP = addr\<rparr>"]
  by (simp add: put_deploy_def)

lemma logins_addresses:
  "keeps (logins_ok app rqs) (AllocateFreeIp al uid key)" "keeps (logins_ok app rqs) (AllocateFreeLXCIp al uid)"
  "keeps (logins_ok app rqs) (DeAllocateIP key uid)" "keeps (logins_ok app rqs) (DeAllocateLXCIP uid)"
  unfolding AllocateFreeIp_def AllocateFreeLXCIp_def DeAllocateIP_def DeAllocateLXCIP_def
  by (intro keeps_intros logins_pg logins_redis users_only users_frames redis_store_grants)+

lemma logins_login:
  fixes app :: "'x Application"
  assumes "Tunnel_login bytes u p \<in> rqs"
  shows "keeps (logins_ok app rqs) (LoginTunnelUser (password_matches app) bytes u p)"
proof (rule keepsI)
  fix w :: "'x world" assume ok: "logins_ok app rqs w"
  obtain t as where w: "pg w = (t, as)" by (cases "pg w")
  obtain q d where l: "LoginUser_store (password_matches app) u p (t, as) = (q, d)" by (metis prod.exhaust)
  have same: "fst d = t" using only_readsD [OF store_reads(4) l] by simp
  have ok1: "logins_ok app rqs (w\<lparr>pg := d\<rparr>)" using ok w same by (simp add: logins_ok_def)
  show "logins_ok app rqs (snd (LoginTunnelUser (password_matches app) bytes u p w))"
  proof (cases "(\<exists>m b. q = Ok m \<and> bytes = Some b)")
    case True
    then obtain m b where m: "q = Ok m" "bytes = Some b" by blast
    obtain t' as' where d: "d = (t', as')" by (cases d)
    from LoginUser_store_Ok l m(1) d obtain r where r: "r \<in> set (users t)" "u_name r = u" "u_verified r"
      "password_matches app (u_hash r) p" "m = user_model r" by metis
    then have "entitled (password_matches app) rqs t (hex_text b) (Id m)"
      using assms m(2) by (auto simp: entitled_def verified_rows_def user_model_def)
    then have g: "keeps (holds (grants (entitled (password_matches app) rqs t))) (SetTunnelLogin (hex_text b) (Id m))"
      by (rule redis_store_grants(4))
    obtain x s' where x: "SetTunnelLogin (hex_text b) (Id m) (redis w) = (x, s')" by (metis prod.exhaust)
    have "grants (entitled (password_matches app) rqs t) (fst s')"
      using keeps_run [OF g _ x] ok w by (simp add: logins_ok_def holds_def)
    with l w m x same show ?thesis
      by (cases x) (simp_all add: LoginTunnelUser_def act_eqs prog_defs Let_def logins_ok_def)
  next
    case False
    with l w ok1 show ?thesis
      by (cases q) (auto simp: LoginTunnelUser_def act_eqs prog_defs split: option.splits)
  qed
qed

interpretation logins: event_invariant "logins_ok app rqs" app "\<lambda>rq. rq \<in> rqs" for app rqs
  by unfold_locales
    (rule logins_addresses | (rule logins_pg, (rule account_frames | (rule users_only, rule users_frames))) |
     (rule logins_redis, rule redis_store_grants deploy_grants) | (rule logins_login, assumption) |
     simp add: logins_ok_def)+

text \<open>C11: a secret the tunnel guard lets through belongs to somebody: whatever the program has served since the
  keyspace was empty, with any failures and for any header the client sends, the guard takes the client for user
  \<open>uid\<close> only if one of the requests was a tunnel login that was given this very secret, with the name and a matching
  password of the verified account \<open>uid\<close>.\<close>

theorem tunnel_guard_sound:
  assumes "fst (redis w) = Map.empty"
    and "fst (IsTunnelUserAuthorized secret (\<lambda>uid. ret (Body uid)) (fold (run_event app) es w)) = Ok (Body uid)"
  shows "\<exists>s bytes p. \<exists>r \<in> set (users (fst (pg (fold (run_event app) es w)))).
    Request s (Tunnel_login (Some bytes) (u_name r) p) \<in> set es \<and> secret = hex_text bytes \<and>
    u_id r = uid \<and> u_verified r \<and> password_matches app (u_hash r) p"
proof -
  let ?rqs = "{rq. \<exists>s. Request s rq \<in> set es}" and ?w = "fold (run_event app) es w"
  have "logins_ok app ?rqs ?w"
    by (rule logins.events_keep) (use assms(1) in \<open>auto simp: logins_ok_def grants_def\<close>)
  moreover obtain s' where "GetUidFromTunnelSecret secret (redis ?w) = (Ok uid, s')"
    using assms(2)
    by (auto simp: IsTunnelUserAuthorized_def on_redis_eq prog_defs http_error_def split: if_splits prod.splits res.splits)
  from GetUid_Ok [OF this] obtain e where "fst (redis ?w) secret = Some e" "atoi_content (val_of e) = Some uid" by blast
  ultimately have "entitled (password_matches app) ?rqs (fst (pg ?w)) secret uid"
    unfolding logins_ok_def grants_def by blast
  then obtain bytes p r where "Tunnel_login (Some bytes) (u_name r) p \<in> ?rqs" "secret = hex_text bytes"
    "r \<in> set (users (fst (pg ?w)))" "u_verified r" "u_id r = uid" "password_matches app (u_hash r) p"
    unfolding entitled_def verified_rows_def set_filter mem_Collect_eq by blast
  then show ?thesis by blast
qed

definition tunnel_day :: "event list" where
  "tunnel_day =
     [Request (session_of 1) (Register_device ''k1''), Request (session_of 4) (Tunnel_login (Some ''s'') ''ann.lee'' ''pw''),
      Deliver_instance (job_of STOP)]"

theorem tunnel_guard_sound_witness:
  "\<exists>s bytes n p. Request s (Tunnel_login (Some bytes) n p) \<in> set tunnel_day \<and> hex_text bytes = ''73''"
proof -
  let ?w = "quiet_world sample_accounts Map.empty"
  have *: "fst (IsTunnelUserAuthorized ''73'' (\<lambda>uid. ret (Body uid)) (fold (run_event idle_app) tunnel_day ?w)) = Ok (Body 4)"
    by code_simp
  have "fst (redis ?w) = Map.empty" by (simp add: quiet_world_def)
  from tunnel_guard_sound [OF this *] show ?thesis by metis
qed

end
