(* ===== verification/Spec2Isabelle.thy ===== *)
theory Spec2Isabelle
  imports Device_Race Quota_Race Address_Race Rate_Limit Failed_Deletion Container_Life Startup Restarts Access Tunnel_Logins
begin

text \<open>
  A model of KWS, a small cloud: accounts, WireGuard devices, one LXD container per user, published
  names behind an nginx proxy, tunnels, and users and databases on a shared Postgres service. The Go
  program under \<^verbatim>\<open>src/\<close> is an HTTP server with two consumers of RabbitMQ queues, over its own
  Postgres database and a Redis.

  \<^bold>\<open>The parts and how they interact.\<close> \<^verbatim>\<open>cmd/main.go\<close> connects everything, prepares the
  host and starts the consumers and the router. A request passes the guard of its route and runs one handler of
  \<^verbatim>\<open>cmd/\<close>. Handlers call the stores of \<^verbatim>\<open>internal/store\<close> (rows in Postgres, keys in
  Redis), the address allocator and the kernel device of \<^verbatim>\<open>internal/wg\<close>, the proxy files of
  \<^verbatim>\<open>internal/nginx\<close> and the service of \<^verbatim>\<open>internal/docker/services\<close>. What takes long
  (deploying, stopping and deleting a container, creating a tunnel) is published to a queue through a pool of
  channels (\<^verbatim>\<open>internal/mq\<close>); the consumers run it, tell the broker \<open>Ack\<close> or \<open>Nack\<close>, and leave
  the outcome in Redis, where a polling handler finds it.

  \<^bold>\<open>How the code is modelled.\<close> A Go function that can fail is a program over an explicit state
  (\<open>KWS_Prelude\<close>): it returns a value, an error, or the mark that the goroutine panicked or the process left
  through \<^verbatim>\<open>log.Fatal\<close>, together with the new state. Postgres, Redis, the disk and the session store
  are scripted servers: their contents change by the repository's own statements, and a script of answers says
  which calls are refused, carried out without the client hearing of it, or broken off. A theorem for every script
  holds for every way and moment in which a call fails. Systems whose code is not here (LXD, Docker, the WireGuard device,
  netlink, the AMQP client, the shared Postgres service, bcrypt, random bytes, SHA-256, gob, template rendering)
  are parameters: records of programs over a state of unknown type, or functions. Integers are \<open>int\<close>: none of the
  modelled arithmetic comes near 64 bits except the tunnel's retry counter, where the wrap-around is written out.
  Strings are lists of bytes.

  \<^bold>\<open>Theories.\<close>
  \<^item> \<open>KWS_Prelude\<close>, \<open>Go_Text\<close>, \<open>Consts\<close>: programs, the calculus of kept invariants (\<open>keeps\<close>),
    specifications (\<open>triple\<close>) and absence of panics (\<open>quiet\<close>), Go's integers and strings,
    \<^verbatim>\<open>consts/\<close>.
  \<^item> \<open>Models\<close>: \<^verbatim>\<open>models/\<close>; the validators accept exactly the declared languages, container names of
    different users differ.
  \<^item> \<open>Sql_Db\<close>, \<open>Stores\<close>: the tables of \<^verbatim>\<open>internal/database/migrations\<close> and the statements
    on them; every statement keeps every constraint (\<open>schema_ok\<close>).
  \<^item> \<open>Alloc_Tx\<close>: the serializable transaction with five tries that \<^verbatim>\<open>wg.go\<close> and
    \<^verbatim>\<open>instance.go\<close> share.
  \<^item> \<open>Wireguard_Store\<close>, \<open>Instance_Store\<close>, \<open>Domain_Store\<close>, \<open>Pg_Store\<close>, \<open>Redis_Store\<close>:
    \<^verbatim>\<open>internal/store\<close>; limits, the life cycle of an instance as a refinement of absent, stopped and
    running, the boxes in which results wait (locale \<open>result_box\<close>, three interpretations).
  \<^item> \<open>Ip_Allocator\<close>, \<open>Ip_Pool\<close>, \<open>Ip_Calls\<close>: \<^verbatim>\<open>internal/wg/ip_allocator.go\<close>; the
    locales \<open>free_stack\<close> and \<open>ip_pool\<close> state what the allocator relies on in Redis and in the database, and
    both pools interpret them: every call keeps free and taken addresses apart.
  \<^item> \<open>Address_Race\<close>: calls of the container pool that overlap, each in two halves: the numbers stay in range, they
    stay different if nobody looks at the table while another half is under way, and otherwise two containers can
    get one address.
  \<^item> \<open>Device_Race\<close>: registrations that interleave, as a step relation: one per user at a time keeps the limit, two
    break it for good.
  \<^item> \<open>Quota_Race\<close>: additions of names, service users and service databases that interleave; with at most \<open>cap\<close>
    of one kind under way a quota is exceeded by less than \<open>cap\<close>.
  \<^item> \<open>World\<close>: the state a request or a delivery runs in, and replies.
  \<^item> \<open>Auth\<close>: \<^verbatim>\<open>store/auth.go\<close>, \<^verbatim>\<open>cmd/auth_handler.go\<close>,
    \<^verbatim>\<open>cmd/middleware.go\<close>; the way of an account from registration to login.
  \<^item> \<open>Nginx_Conf\<close>, \<open>Lxd_Ops\<close>, \<open>Wg_Ops\<close>, \<open>Pg_Service\<close>: the proxy, the containers, the
    interface with its peers and the shared service, with their handlers.
  \<^item> \<open>Message_Queue\<close>, \<open>Instance_Handlers\<close>, \<open>Instance_Worker\<close>, \<open>Tunnels_App\<close>: the
    queues, the requests for jobs and the two consumers. In the locale \<open>queue_job\<close> a job that settles its
    delivery once is acknowledged after at most three refusals; the three jobs interpret it.
  \<^item> \<open>Healthy_Host\<close>, \<open>Container_Life\<close>: what LXD and Docker are documented to do, and a deployment and a deletion
    on such a host, followed to their end: container, address, rows, proxy file and result; the one undoes the other.
  \<^item> \<open>Failed_Deletion\<close>: a deletion that LXD refuses, which gives the address of a living container away.
  \<^item> \<open>Web_Pages\<close>: what every page is given.
  \<^item> \<open>Router\<close>, \<open>Events\<close>: the routes with their guards, and the program as a sequence of requests and
    deliveries (\<open>run_event\<close>). The locale \<open>event_invariant\<close> asks of an invariant that every method of the stores,
    every call of the allocator and the tunnel login keep it, and carries it through all routes and jobs.
  \<^item> \<open>Limits\<close>, \<open>Pool_Events\<close>, \<open>Typed_Keys\<close>, \<open>Tunnel_Logins\<close>: its four interpretations: the schema with all
    limits; no host number and no address text is recorded twice (which does not keep a container from running with an
    address outside the record); every key of Redis holds a value of its kind; every tunnel secret was given
    to a login. \<open>Access\<close>: only a login authorizes a session, what can be requested without one, request by request, and what a
    verification link can delete.
  \<^item> \<open>Rate_Limit\<close>: \<^verbatim>\<open>cmd/ratelimit.go\<close> and its middleware: the bound per remote address, and that no
    address takes from another.
  \<^item> \<open>Startup\<close>: \<^verbatim>\<open>main\<close>, the environment, the connections, the mail, and what becomes of the
    channel pool after the start. \<open>Restarts\<close>: the lives of the process one after the other, each with a start and
    its events; what \<open>event_invariant\<close> keeps survives them all.

  \<^bold>\<open>Bounds and fuel.\<close> No definition runs on made-up fuel: the counters of \<open>tx_loop\<close> (5), \<open>dial_loop\<close>
  (10) and \<open>CreateChannelPool\<close> (32) are those of the code. \<open>deliver\<close> bounds the redeliveries of one message, and
  \<open>job_gives_up\<close> shows that four deliveries are always enough. Everything else is structural recursion.

  \<^bold>\<open>Runs one after the other.\<close> Except in \<open>Device_Race\<close>, \<open>Quota_Race\<close> and \<open>Address_Race\<close> a handler or a job runs
  to its end before the next begins. The program serves requests and deliveries in goroutines of their own; a statement
  on the database or a command of Redis is atomic there too, but a count and the insertion that follows it are not, nor
  are the two servers changed at once, which is what these three theories are about. A process that ends in the middle
  of a handler is covered as far as the script of a server can break it off: every call after some moment fails.

  \<^bold>\<open>Not modelled.\<close> The registry of services and the interfaces of \<^verbatim>\<open>internal/store/store.go\<close> (types and
  struct literals; the handlers call the methods directly, and the one field of \<^verbatim>\<open>NewStore\<close> that makes a
  difference is \<open>NewStore_MessageQueue\<close>), the session manager beyond the three values a session carries, the global
  middlewares of chi (request ids, logging, recovery, the time-out, and \<^verbatim>\<open>RealIP\<close>, which sets the remote address that
  only the limiter reads), the static files, the JSON and HTML renderings, log output, sleeps and time-outs of contexts, the web
  assets, container files and shell scripts. The limiter of logins is modelled although the router has its middleware
  commented out. Parsing of a form is taken as done; the handlers start from the values of its fields. Of the columns
  that no statement reads back (time stamps, most serial ids) nothing is kept.
\<close>

end
